(* ===== verification/IK_Prelude.thy ===== *)
theory IK_Prelude
  imports Complex_Main "HOL-Library.Word"
begin

text \<open>
  Shared vocabulary of the development. The C++ solver keys joints, configurations
  and chains by signed 16-bit joint ids in \<open>std::map\<close> and \<open>std::set\<close>
  containers, whose iteration order (ascending key) the solver relies on. Here:
  \<^item> \<open>joint_id\<close> is \<open>int\<close> (the solver rejects negative ids, so the 16-bit width
    is never exceeded by arithmetic: ids are only compared);
  \<^item> a \<open>std::map\<close> is an association list sorted by strictly ascending keys
    (\<open>omap\<close>), looked up with \<open>map_of\<close>;
  \<^item> a \<open>std::set\<close> is a strictly ascending list (\<open>oset\<close>);
  \<^item> \<open>u8\<close> is the flag byte type \<open>U8\<close>.
  The named collection \<open>omap_simps\<close> gathers the container lemmas the component
  proofs use.
\<close>

named_theorems omap_simps "lemmas on ordered maps and sets"

type_synonym joint_id = int
type_synonym u8 = "8 word"
type_synonym ('k, 'v) omap = "('k \<times> 'v) list"
type_synonym 'k oset = "'k list"

section \<open>Ordered maps\<close>

definition omap_wf :: "('k::linorder, 'v) omap \<Rightarrow> bool" where
  "omap_wf m \<longleftrightarrow> sorted_wrt (<) (map fst m)"

text \<open>\<open>m[k] = v\<close>: insert at the ordered position or overwrite.\<close>

fun omap_update :: "'k::linorder \<Rightarrow> 'v \<Rightarrow> ('k, 'v) omap \<Rightarrow> ('k, 'v) omap" where
  "omap_update k v [] = [(k, v)]"
| "omap_update k v ((k', v') # m) =
     (if k < k' then (k, v) # (k', v') # m
      else if k = k' then (k, v) # m
      else (k', v') # omap_update k v m)"

text \<open>\<open>m.erase(k)\<close>.\<close>

fun omap_delete :: "'k \<Rightarrow> ('k, 'v) omap \<Rightarrow> ('k, 'v) omap" where
  "omap_delete k [] = []"
| "omap_delete k ((k', v') # m) = (if k = k' then m else (k', v') # omap_delete k m)"

text \<open>In-place mutation of the value stored under \<open>k\<close> (through a reference or pointer).\<close>

definition omap_modify :: "'k \<Rightarrow> ('v \<Rightarrow> 'v) \<Rightarrow> ('k, 'v) omap \<Rightarrow> ('k, 'v) omap" where
  "omap_modify k f m = map (\<lambda>(k', v). if k' = k then (k', f v) else (k', v)) m"

section \<open>Error results\<close>

text \<open>Sequencing of steps that may fail: the first error is the result.\<close>

definition sum_bind :: "'e + 'a \<Rightarrow> ('a \<Rightarrow> 'e + 'b) \<Rightarrow> 'e + 'b" where
  "sum_bind m f = (case m of Inl e \<Rightarrow> Inl e | Inr a \<Rightarrow> f a)"

section \<open>Ordered sets\<close>

definition oset_insert :: "'k::linorder \<Rightarrow> 'k oset \<Rightarrow> 'k oset" where
  "oset_insert x xs = (if x \<in> set xs then xs else insort x xs)"

section \<open>Lemmas on ordered maps\<close>

lemma map_of_omap_update [omap_simps]:
  "map_of (omap_update k v m) = (map_of m)(k \<mapsto> v)"
  by (induction m) (auto simp: fun_eq_iff)

lemma keys_omap_update [omap_simps]:
  "fst ` set (omap_update k v m) = insert k (fst ` set m)"
proof -
  have "dom (map_of (omap_update k v m)) = insert k (dom (map_of m))"
    by (simp add: map_of_omap_update)
  then show ?thesis by (simp add: dom_map_of_conv_image_fst)
qed

lemma omap_wf_update [omap_simps]:
  "omap_wf m \<Longrightarrow> omap_wf (omap_update k v m)"
  unfolding omap_wf_def
proof (induction m)
  case Nil
  then show ?case by simp
next
  case (Cons p m)
  obtain k' v' where p: "p = (k', v')" by (cases p)
  with Cons show ?case
    by (auto simp: keys_omap_update)
qed

lemma map_of_omap_delete [omap_simps]:
  "omap_wf m \<Longrightarrow> map_of (omap_delete k m) = (map_of m)(k := None)"
  unfolding omap_wf_def
proof (induction m)
  case Nil
  then show ?case by simp
next
  case (Cons p m)
  obtain k' v' where p: "p = (k', v')" by (cases p)
  show ?case
  proof (cases "k = k'")
    case True
    with Cons.prems p have "k \<notin> set (map fst m)" by auto
    then have "map_of m k = None" by (simp add: map_of_eq_None_iff)
    with True p show ?thesis by (auto simp: fun_eq_iff)
  next
    case False
    with Cons p show ?thesis by (auto simp: fun_eq_iff)
  qed
qed

lemma keys_omap_delete:
  "fst ` set (omap_delete k m) \<subseteq> fst ` set m"
  by (induction k m rule: omap_delete.induct) auto

lemma omap_wf_delete [omap_simps]:
  "omap_wf m \<Longrightarrow> omap_wf (omap_delete k m)"
  unfolding omap_wf_def
proof (induction k m rule: omap_delete.induct)
  case (1 k)
  then show ?case by simp
next
  case (2 k k' v' m)
  have "fst ` set (omap_delete k m) \<subseteq> fst ` set m"
    by (rule keys_omap_delete)
  then have "\<forall>x \<in> set (omap_delete k m). k' < fst x"
    using "2.prems" by fastforce
  with 2 show ?case by auto
qed

lemma map_fst_omap_modify [omap_simps]:
  "map fst (omap_modify k f m) = map fst m"
  by (induction m) (auto simp: omap_modify_def)

lemma omap_wf_modify [omap_simps]:
  "omap_wf (omap_modify k f m) = omap_wf m"
  by (simp add: omap_wf_def map_fst_omap_modify)

lemma map_of_omap_modify [omap_simps]:
  "map_of (omap_modify k f m) = (\<lambda>k'. if k' = k then map_option f (map_of m k) else map_of m k')"
  by (induction m) (auto simp: omap_modify_def fun_eq_iff)

lemma omap_modify_Nil [simp]: "omap_modify k f [] = []"
  by (simp add: omap_modify_def)

lemma omap_modify_Cons [simp]:
  "omap_modify k f ((k', v) # m) =
     (if k' = k then (k', f v) else (k', v)) # omap_modify k f m"
  by (simp add: omap_modify_def)

lemma set_omap_update_fresh:
  "k \<notin> fst ` set m \<Longrightarrow> set (omap_update k v m) = insert (k, v) (set m)"
  by (induction k v m rule: omap_update.induct) auto

lemma set_omap_modify:
  "set (omap_modify k f m) = (\<lambda>(k', v). if k' = k then (k', f v) else (k', v)) ` set m"
  by (simp add: omap_modify_def)

lemma set_omap_update_sub: "set (omap_update k v m) \<subseteq> insert (k, v) (set m)"
  by (induction k v m rule: omap_update.induct) auto

lemma set_omap_delete_sub: "set (omap_delete k m) \<subseteq> set m"
  by (induction m) (auto split: if_splits)

section \<open>Lemmas on error results\<close>

lemma sum_bind_simps [simp]:
  "sum_bind (Inl e) f = Inl e" "sum_bind (Inr a) f = f a"
  by (simp_all add: sum_bind_def)

lemma sum_bind_Inr_iff: "sum_bind m f = Inr b \<longleftrightarrow> (\<exists>a. m = Inr a \<and> f a = Inr b)"
  by (cases m) simp_all

lemma sum_bind_Inr_right [simp]: "sum_bind m Inr = m"
  by (cases m) simp_all

lemma sum_bind_assoc: "sum_bind (sum_bind m f) g = sum_bind m (\<lambda>x. sum_bind (f x) g)"
  by (cases m) simp_all

text \<open>Congruence for \<open>sum_bind\<close>: the continuation matters only on the success value.\<close>

lemma sum_bind_cong:
  "m = m' \<Longrightarrow> (\<And>x. m' = Inr x \<Longrightarrow> f x = g x) \<Longrightarrow> sum_bind m f = sum_bind m' g"
  by (cases m') simp_all

section \<open>Lemmas on ordered sets\<close>

lemma set_oset_insert [omap_simps]: "set (oset_insert x xs) = insert x (set xs)"
  by (auto simp: oset_insert_def set_insort_key)

lemma sorted_oset_insert [omap_simps]:
  "sorted_wrt (<) xs \<Longrightarrow> sorted_wrt (<) (oset_insert x xs)"
  by (auto simp: oset_insert_def strict_sorted_iff sorted_insort distinct_insort)

end
