(* ===== verification/IK_Angles.thy ===== *)
theory IK_Angles
  imports IK_Prelude
begin

text \<open>
  The angle helpers at the top of \<open>llik.cpp\<close> (\<open>remove_multiples_of_two_pi\<close>,
  \<open>compute_angle_limits\<close>, \<open>compute_clamped_angle\<close>), used by every twist- and
  bend-limited constraint. \<open>F32\<close> values are modelled as reals (no rounding), \<open>F_PI\<close>
  as \<open>pi\<close>, and the C cast \<open>(S32)\<close> as truncation toward zero (\<open>trunc_s32\<close>);
  a cast of a value outside the \<open>S32\<close> range is undefined in C and is not modelled.
  The lemmas show the ranges the helpers produce, the nearest-limit rule of the
  clamp for angles in \<open>[-pi, pi]\<close>, and where the code does not do what its
  comments say: a negative angle is reduced into \<open>(-2 pi, 0]\<close>, a lower limit below
  \<open>-pi\<close> is kept there, the bisector of the forbidden arc is returned unclamped, and an
  angle outside \<open>[-pi, pi]\<close> can be clamped to the farther limit.
\<close>

definition trunc_s32 :: "real \<Rightarrow> int" where
  "trunc_s32 x = (if 0 \<le> x then \<lfloor>x\<rfloor> else \<lceil>x\<rceil>)"

definition remove_multiples_of_two_pi :: "real \<Rightarrow> real" where
  "remove_multiples_of_two_pi angle = angle - 2 * pi * of_int (trunc_s32 (angle / (2 * pi)))"

definition compute_angle_limits :: "real \<Rightarrow> real \<Rightarrow> real \<times> real" where
  "compute_angle_limits min_angle max_angle =
     (let max1 = remove_multiples_of_two_pi max_angle;
          max2 = (if max1 > pi then max1 - 2 * pi else max1);
          min1 = remove_multiples_of_two_pi min_angle;
          min2 = (if min1 > pi then min1 - 2 * pi else min1)
      in if min2 > max2 then (max2, min2) else (min2, max2))"

text \<open>The angle that splits the forbidden arc between the two limits.\<close>

definition invalid_bisector :: "real \<Rightarrow> real \<Rightarrow> real" where
  "invalid_bisector min_angle max_angle = max_angle + 0.5 * (2 * pi - (max_angle - min_angle))"

definition compute_clamped_angle :: "real \<Rightarrow> real \<Rightarrow> real \<Rightarrow> real" where
  "compute_clamped_angle angle min_angle max_angle =
     (if angle > max_angle \<or> angle < min_angle then
        (let bisector = invalid_bisector min_angle max_angle;
             a = angle - of_int (trunc_s32 (angle / (2 * pi))) * (2 * pi)
         in if (a > max_angle \<and> a < bisector) \<or> a < bisector - 2 * pi then max_angle
            else if a < min_angle \<or> a > bisector then min_angle
            else a)
      else angle)"

lemma trunc_s32_bounds: "\<bar>x - of_int (trunc_s32 x)\<bar> < 1 \<and> (0 \<le> x \<longrightarrow> 0 \<le> x - of_int (trunc_s32 x)) \<and> (x \<le> 0 \<longrightarrow> x - of_int (trunc_s32 x) \<le> 0)"
  unfolding trunc_s32_def
  by (auto simp: abs_if) (linarith | meson ceiling_correct floor_correct)+

lemma remove_multiples_of_two_pi_bounds:
  "- (2 * pi) < remove_multiples_of_two_pi x \<and> remove_multiples_of_two_pi x < 2 * pi"
proof -
  let ?y = "x / (2 * pi)"
  have pos: "0 < 2 * pi" by simp
  have "\<bar>?y - of_int (trunc_s32 ?y)\<bar> < 1" using trunc_s32_bounds by blast
  then have "\<bar>2 * pi * (?y - of_int (trunc_s32 ?y))\<bar> < 2 * pi" 
    using pos by (simp add: abs_mult)
  moreover have "2 * pi * (?y - of_int (trunc_s32 ?y)) = remove_multiples_of_two_pi x"
    by (simp add: remove_multiples_of_two_pi_def right_diff_distrib)
  ultimately show ?thesis by linarith
qed

text \<open>C24: \<open>remove_multiples_of_two_pi\<close> removes a whole number of turns and leaves an angle
  strictly inside \<open>(-2 pi, 2 pi)\<close> with the sign of its argument: a negative angle is
  reduced into \<open>(-2 pi, 0]\<close>, not into the range \<open>[0, 2 pi)\<close> its comment names.\<close>

lemma remove_multiples_of_two_pi_reduces:
  "(\<exists>k::int. remove_multiples_of_two_pi x = x - 2 * pi * of_int k)
   \<and> \<bar>remove_multiples_of_two_pi x\<bar> < 2 * pi \<and> 0 \<le> remove_multiples_of_two_pi x * x"
proof -
  define y where "y = x / (2 * pi)"
  define d where "d = y - of_int (trunc_s32 y)"
  have xe: "x = 2 * pi * y" by (simp add: y_def)
  have r: "remove_multiples_of_two_pi x = 2 * pi * d"
    by (simp add: remove_multiples_of_two_pi_def d_def y_def right_diff_distrib)
  have dy: "0 \<le> d * y"
  proof (cases "0 \<le> y")
    case True
    then have "0 \<le> d" using trunc_s32_bounds [of y] unfolding d_def by blast
    from this True show ?thesis by (rule mult_nonneg_nonneg)
  next
    case False
    then have "y \<le> 0" by simp
    moreover have "d \<le> 0" using trunc_s32_bounds [of y] \<open>y \<le> 0\<close> unfolding d_def by blast
    ultimately show ?thesis by (rule mult_nonpos_nonpos [OF _ _, rotated])
  qed
  have "remove_multiples_of_two_pi x * x = (2 * pi) * (2 * pi) * (d * y)"
    unfolding r by (subst xe) (simp only: ac_simps)
  then have "0 \<le> remove_multiples_of_two_pi x * x"
    using dy by simp
  moreover have "\<bar>remove_multiples_of_two_pi x\<bar> < 2 * pi"
    using remove_multiples_of_two_pi_bounds [of x] by linarith
  ultimately show ?thesis unfolding remove_multiples_of_two_pi_def by blast
qed

text \<open>C12: \<open>compute_angle_limits\<close> returns an ordered pair of limits, the upper one at most \<open>pi\<close> and the lower one above \<open>-2 pi\<close>.\<close>

lemma compute_angle_limits_bounds:
  assumes "compute_angle_limits a b = (lo, hi)"
  shows "lo \<le> hi \<and> hi \<le> pi \<and> - (2 * pi) < lo"
proof -
  have ra: "- (2 * pi) < remove_multiples_of_two_pi a \<and> remove_multiples_of_two_pi a < 2 * pi"
   and rb: "- (2 * pi) < remove_multiples_of_two_pi b \<and> remove_multiples_of_two_pi b < 2 * pi"
    by (rule remove_multiples_of_two_pi_bounds)+
  show ?thesis
    using assms ra rb unfolding compute_angle_limits_def Let_def
    by (auto split: if_splits)
qed

lemma compute_angle_limits_bounds_witness:
  "compute_angle_limits (pi / 2) (- (pi / 2)) = (- (pi / 2), pi / 2)
   \<and> - (pi / 2) \<le> pi / 2 \<and> pi / 2 \<le> pi \<and> - (2 * pi) < - (pi / 2)"
proof -
  have "trunc_s32 (pi / 2 / (2 * pi)) = 0" "trunc_s32 (- (pi / 2) / (2 * pi)) = 0"
    by (simp_all add: trunc_s32_def floor_eq_iff ceiling_eq_iff)
  then have e: "compute_angle_limits (pi / 2) (- (pi / 2)) = (- (pi / 2), pi / 2)"
    using pi_gt_zero
    by (simp add: compute_angle_limits_def remove_multiples_of_two_pi_def Let_def, linarith)
  show ?thesis using compute_angle_limits_bounds [OF e] e by simp
qed

lemma trunc_s32_zero:
  assumes "- 1 < x" "x < 1"
  shows "trunc_s32 x = 0"
  using assms by (auto simp: trunc_s32_def floor_eq_iff ceiling_eq_iff)

lemma remove_multiples_small:
  assumes "- (2 * pi) < x" "x < 2 * pi"
  shows "remove_multiples_of_two_pi x = x"
proof -
  have "- 1 < x / (2 * pi) \<and> x / (2 * pi) < 1"
    using assms pi_gt_zero by (simp add: divide_less_eq less_divide_eq)
  then show ?thesis by (simp add: remove_multiples_of_two_pi_def trunc_s32_zero)
qed

text \<open>C19: \<open>compute_angle_limits\<close> does not bring a limit below \<open>-pi\<close> into \<open>[-pi, pi]\<close>,
  as its comment says it does: for every lower limit in \<open>(-2 pi, -pi)\<close> and any upper limit,
  the returned lower limit stays below \<open>-pi\<close>.\<close>

lemma compute_angle_limits_below_minus_pi:
  assumes "- (2 * pi) < a" "a < - pi"
  shows "fst (compute_angle_limits a b) < - pi"
  using assms remove_multiples_small [of a] pi_gt_zero
  by (simp add: compute_angle_limits_def Let_def)

lemma compute_angle_limits_below_minus_pi_witness:
  "fst (compute_angle_limits (- (3 * pi / 2)) 0) < - pi"
  using pi_gt_zero by (intro compute_angle_limits_below_minus_pi) linarith+

text \<open>C11: for ordered limits, \<open>compute_clamped_angle\<close> returns an angle between the limits, or exactly the bisector of the forbidden arc.\<close>

lemma compute_clamped_angle_range:
  assumes "min_angle \<le> max_angle"
  shows "(min_angle \<le> compute_clamped_angle x min_angle max_angle
            \<and> compute_clamped_angle x min_angle max_angle \<le> max_angle)
         \<or> compute_clamped_angle x min_angle max_angle = invalid_bisector min_angle max_angle"
  using assms unfolding compute_clamped_angle_def Let_def by auto

text \<open>C21: the clamp leaves an angle on the bisector of the forbidden arc where it is: for
  distinct limits in \<open>[-pi, pi]\<close> that leave a forbidden arc, \<open>compute_clamped_angle\<close> returns the
  bisector itself, an angle above the upper limit, although the function promises a value
  clamped to \<open>[min_angle, max_angle]\<close>.\<close>

lemma compute_clamped_angle_at_bisector:
  assumes "- pi \<le> min_angle" "min_angle < max_angle" "max_angle \<le> pi"
    and "max_angle - min_angle < 2 * pi"
  shows "compute_clamped_angle (invalid_bisector min_angle max_angle) min_angle max_angle
           = invalid_bisector min_angle max_angle
         \<and> max_angle < invalid_bisector min_angle max_angle"
proof -
  let ?b = "invalid_bisector min_angle max_angle"
  have b: "?b = pi + (max_angle + min_angle) / 2"
    by (simp add: invalid_bisector_def field_simps)
  have above: "max_angle < ?b" using assms b by (simp add: field_simps)
  have s: "- (2 * pi) \<le> max_angle + min_angle" "max_angle + min_angle < 2 * pi"
    using assms by linarith+
  have "0 \<le> ?b" unfolding b using s(1) by (simp add: field_simps)
  moreover have "?b < 2 * pi" unfolding b using s(2) by (simp add: field_simps)
  ultimately have "trunc_s32 (?b / (2 * pi)) = 0"
    using pi_gt_zero by (intro trunc_s32_zero) (simp_all add: divide_less_eq less_divide_eq)
  then show ?thesis
    using above assms by (simp add: compute_clamped_angle_def Let_def)
qed

lemma compute_clamped_angle_at_bisector_witness:
  "compute_clamped_angle pi (- (pi / 2)) (pi / 2) = pi \<and> pi / 2 < pi"
proof -
  have "invalid_bisector (- (pi / 2)) (pi / 2) = pi"
    by (simp add: invalid_bisector_def)
  moreover note compute_clamped_angle_at_bisector [of "- (pi / 2)" "pi / 2"]
  ultimately show ?thesis using pi_gt_zero by simp
qed

lemma compute_clamped_angle_range_witness:
  "(- 1 \<le> compute_clamped_angle 3 (- 1) 1 \<and> compute_clamped_angle 3 (- 1) 1 \<le> 1)
   \<or> compute_clamped_angle 3 (- 1) 1 = invalid_bisector (- 1) 1"
  by (rule compute_clamped_angle_range) simp

lemma trunc_s32_half_period:
  assumes "- pi \<le> x" "x \<le> pi"
  shows "trunc_s32 (x / (2 * pi)) = 0"
proof -
  have "- (2 * pi) < x \<and> x < 2 * pi"
    using assms pi_gt_zero by linarith
  then have "- 1 < x / (2 * pi) \<and> x / (2 * pi) < 1"
    using pi_gt_zero by (simp add: divide_less_eq less_divide_eq)
  then show ?thesis by (auto simp: trunc_s32_def floor_eq_iff ceiling_eq_iff)
qed

text \<open>C10: for limits and an angle in \<open>[-pi, pi]\<close>, an angle outside the limits is moved to one of the two limits (or is the bisector), and the result is within \<open>pi - (max - min)/2\<close> of the angle modulo \<open>2 pi\<close>: the clamp never turns the joint farther than half the forbidden arc.\<close>

lemma compute_clamped_angle_nearest:
  assumes lim: "- pi \<le> min_angle" "min_angle \<le> max_angle" "max_angle \<le> pi"
    and ang: "- pi \<le> x" "x \<le> pi"
    and out: "x < min_angle \<or> max_angle < x"
  shows "(compute_clamped_angle x min_angle max_angle \<in> {min_angle, max_angle}
          \<or> compute_clamped_angle x min_angle max_angle = invalid_bisector min_angle max_angle)
         \<and> (\<exists>k::int. \<bar>x + 2 * pi * of_int k - compute_clamped_angle x min_angle max_angle\<bar>
                      \<le> pi - (max_angle - min_angle) / 2)"
proof -
  let ?b = "invalid_bisector min_angle max_angle"
  have b: "?b = max_angle + (pi - (max_angle - min_angle) / 2)"
    by (simp add: invalid_bisector_def field_simps)
  have r: "compute_clamped_angle x min_angle max_angle =
      (if (x > max_angle \<and> x < ?b) \<or> x < ?b - 2 * pi then max_angle
       else if x < min_angle \<or> x > ?b then min_angle else x)"
    using out trunc_s32_half_period [OF ang]
    by (auto simp: compute_clamped_angle_def Let_def)
  consider (hi) "x > max_angle" "x < ?b" | (wrap_hi) "x < ?b - 2 * pi"
    | (lo) "\<not> (x > max_angle \<and> x < ?b)" "\<not> x < ?b - 2 * pi" "x < min_angle"
    | (wrap_lo) "\<not> (x > max_angle \<and> x < ?b)" "\<not> x < ?b - 2 * pi" "\<not> x < min_angle" "x > ?b"
    | (at) "\<not> (x > max_angle \<and> x < ?b)" "\<not> x < ?b - 2 * pi" "\<not> x < min_angle" "\<not> x > ?b"
    by linarith
  then show ?thesis
  proof cases
    case hi
    then have "\<bar>x + 2 * pi * of_int (0::int) - max_angle\<bar> \<le> pi - (max_angle - min_angle) / 2"
      using b by simp
    then have "\<exists>k::int. \<bar>x + 2 * pi * of_int k - max_angle\<bar> \<le> pi - (max_angle - min_angle) / 2"
      by blast
    with hi r show ?thesis by auto
  next
    case wrap_hi
    then have "\<bar>x + 2 * pi * of_int (1::int) - max_angle\<bar> \<le> pi - (max_angle - min_angle) / 2"
      using b lim ang by (simp add: abs_if)
    then have "\<exists>k::int. \<bar>x + 2 * pi * of_int k - max_angle\<bar> \<le> pi - (max_angle - min_angle) / 2"
      by blast
    with wrap_hi r show ?thesis by auto
  next
    case lo
    from lo(2) have "x \<ge> ?b - 2 * pi" by simp
    then have "min_angle - x \<le> pi - (max_angle - min_angle) / 2"
      unfolding b by (simp add: field_simps)
    with lo have "\<bar>x + 2 * pi * of_int (0::int) - min_angle\<bar> \<le> pi - (max_angle - min_angle) / 2"
      by simp
    then have "\<exists>k::int. \<bar>x + 2 * pi * of_int k - min_angle\<bar> \<le> pi - (max_angle - min_angle) / 2"
      by blast
    with lo r show ?thesis by auto
  next
    case wrap_lo
    then have e1: "min_angle - (x - 2 * pi) \<le> pi - (max_angle - min_angle) / 2"
      unfolding b by (simp add: field_simps)
    have e2: "x - 2 * pi - min_angle \<le> pi - (max_angle - min_angle) / 2"
      using lim ang by (simp add: field_simps)
    from e1 e2 have "\<bar>x + 2 * pi * of_int (- 1::int) - min_angle\<bar> \<le> pi - (max_angle - min_angle) / 2"
      by (simp add: abs_le_iff)
    then have "\<exists>k::int. \<bar>x + 2 * pi * of_int k - min_angle\<bar> \<le> pi - (max_angle - min_angle) / 2"
      by blast
    with wrap_lo r show ?thesis by auto
  next
    case at
    with out lim have "x = ?b" by linarith
    moreover have "pi - (max_angle - min_angle) / 2 \<ge> 0" using lim by (simp add: field_simps)
    ultimately have "\<bar>x + 2 * pi * of_int (0::int) - x\<bar> \<le> pi - (max_angle - min_angle) / 2"
      by simp
    then have "\<exists>k::int. \<bar>x + 2 * pi * of_int k - x\<bar> \<le> pi - (max_angle - min_angle) / 2"
      by blast
    with at r \<open>x = ?b\<close> show ?thesis by auto
  qed
qed

lemma compute_clamped_angle_nearest_witness:
  "(compute_clamped_angle (- 1) 0 1 \<in> {0, 1} \<or> compute_clamped_angle (- 1) 0 1 = invalid_bisector 0 1)
   \<and> (\<exists>k::int. \<bar>- 1 + 2 * pi * of_int k - compute_clamped_angle (- 1) 0 1\<bar> \<le> pi - (1 - 0) / 2)"
  by (rule compute_clamped_angle_nearest) (insert pi_ge_two, linarith)+

text \<open>For an angle outside \<open>[-pi, pi]\<close> the clamp can pick the farther limit: \<open>-15 pi/8\<close> (the angle \<open>pi/8\<close>) with limits \<open>pi/2\<close> and \<open>pi\<close> is clamped to \<open>pi\<close>, not to the nearer \<open>pi/2\<close>.\<close>

lemma compute_clamped_angle_far_limit:
  "compute_clamped_angle (- (15 * pi / 8)) (pi / 2) pi = pi"
proof -
  have "trunc_s32 (- (15 * pi / 8) / (2 * pi)) = 0"
    by (simp add: trunc_s32_def ceiling_eq_iff)
  moreover have "invalid_bisector (pi / 2) pi = 7 * pi / 4"
    by (simp add: invalid_bisector_def algebra_simps)
  moreover have "- (15 * pi / 8) < 7 * pi / 4 - 2 * pi" "- (15 * pi / 8) < pi / 2"
    using pi_gt_zero by linarith+
  ultimately show ?thesis
    by (simp add: compute_clamped_angle_def Let_def)
qed

end
