(* ===== verification/IK_Math.thy ===== *)
theory IK_Math
  imports IK_Prelude
begin

text \<open>
  The math kernel the solver calls: \<open>LLVector3\<close> and \<open>LLQuaternion\<close> of the viewer's
  \<open>llmath\<close> library. Those sources are not part of this repository's \<open>src/\<close>; the
  operations are modelled from the specification (section 4.1 and the notation of
  section 3: \<open>v \<cdot> q\<close> rotates \<open>v\<close> by \<open>q\<close>, \<open>q1 \<cdot> q2\<close> applies \<open>q1\<close> first), with the
  component formulas of the library. Components are reals: \<open>F32\<close> rounding is not
  modelled. The lemmas are the algebra the kinematic invariants rest on: rotation by
  a product is rotation by one factor after the other, products are associative,
  the squared norm is multiplicative, and the conjugate undoes a rotation up to
  the squared norm.
\<close>

record vec3 =
  vx :: real
  vy :: real
  vz :: real

record quat =
  qx :: real
  qy :: real
  qz :: real
  qw :: real

section \<open>Vectors\<close>

definition v_zero :: vec3 where
  "v_zero = \<lparr>vx = 0, vy = 0, vz = 0\<rparr>"

definition v_add :: "vec3 \<Rightarrow> vec3 \<Rightarrow> vec3" where
  "v_add a b = \<lparr>vx = vx a + vx b, vy = vy a + vy b, vz = vz a + vz b\<rparr>"

definition v_sub :: "vec3 \<Rightarrow> vec3 \<Rightarrow> vec3" where
  "v_sub a b = \<lparr>vx = vx a - vx b, vy = vy a - vy b, vz = vz a - vz b\<rparr>"

definition v_smul :: "real \<Rightarrow> vec3 \<Rightarrow> vec3" where
  "v_smul s a = \<lparr>vx = s * vx a, vy = s * vy a, vz = s * vz a\<rparr>"

definition v_dot :: "vec3 \<Rightarrow> vec3 \<Rightarrow> real" where
  "v_dot a b = vx a * vx b + vy a * vy b + vz a * vz b"

definition v_length :: "vec3 \<Rightarrow> real" where
  "v_length a = sqrt (v_dot a a)"

text \<open>\<open>a % b\<close>: the cross product.\<close>

definition v_cross :: "vec3 \<Rightarrow> vec3 \<Rightarrow> vec3" where
  "v_cross a b =
     \<lparr>vx = vy a * vz b - vz a * vy b, vy = vz a * vx b - vx a * vz b, vz = vx a * vy b - vy a * vx b\<rparr>"

definition x_axis :: vec3 where "x_axis = \<lparr>vx = 1, vy = 0, vz = 0\<rparr>"
definition y_axis :: vec3 where "y_axis = \<lparr>vx = 0, vy = 1, vz = 0\<rparr>"
definition z_axis :: vec3 where "z_axis = \<lparr>vx = 0, vy = 0, vz = 1\<rparr>"

text \<open>\<open>LLVector3::scaledVec\<close>: component-wise product.\<close>

definition v_scaled :: "vec3 \<Rightarrow> vec3 \<Rightarrow> vec3" where
  "v_scaled a s = \<lparr>vx = vx a * vx s, vy = vy a * vy s, vz = vz a * vz s\<rparr>"

text \<open>\<open>LLVector3::normalize\<close>: a vector shorter than \<open>FP_MAG_THRESHOLD\<close> becomes zero.\<close>

definition fp_mag_threshold :: real where
  "fp_mag_threshold = 1 / 10000000"

definition v_normalize :: "vec3 \<Rightarrow> vec3" where
  "v_normalize a =
     (let mag = v_length a in if mag > fp_mag_threshold then v_smul (1 / mag) a else v_zero)"

definition dist_vec :: "vec3 \<Rightarrow> vec3 \<Rightarrow> real" where
  "dist_vec a b = v_length (v_sub a b)"

section \<open>Quaternions\<close>

definition q_identity :: quat where
  "q_identity = \<lparr>qx = 0, qy = 0, qz = 0, qw = 1\<rparr>"

text \<open>\<open>a * b\<close>: the rotation \<open>a\<close> followed by \<open>b\<close> (the Hamilton product \<open>b a\<close>).\<close>

definition q_mul :: "quat \<Rightarrow> quat \<Rightarrow> quat" where
  "q_mul a b =
     \<lparr>qx = qw b * qx a + qx b * qw a + qy b * qz a - qz b * qy a,
      qy = qw b * qy a + qy b * qw a + qz b * qx a - qx b * qz a,
      qz = qw b * qz a + qz b * qw a + qx b * qy a - qy b * qx a,
      qw = qw b * qw a - qx b * qx a - qy b * qy a - qz b * qz a\<rparr>"

definition q_conj :: "quat \<Rightarrow> quat" where
  "q_conj q = q\<lparr>qx := - qx q, qy := - qy q, qz := - qz q\<rparr>"

definition q_norm2 :: "quat \<Rightarrow> real" where
  "q_norm2 q = qx q * qx q + qy q * qy q + qz q * qz q + qw q * qw q"

definition q_add :: "quat \<Rightarrow> quat \<Rightarrow> quat" where
  "q_add a b = \<lparr>qx = qx a + qx b, qy = qy a + qy b, qz = qz a + qz b, qw = qw a + qw b\<rparr>"

definition q_sub :: "quat \<Rightarrow> quat \<Rightarrow> quat" where
  "q_sub a b = \<lparr>qx = qx a - qx b, qy = qy a - qy b, qz = qz a - qz b, qw = qw a - qw b\<rparr>"

definition q_smul :: "real \<Rightarrow> quat \<Rightarrow> quat" where
  "q_smul s q = \<lparr>qx = s * qx q, qy = s * qy q, qz = s * qz q, qw = s * qw q\<rparr>"

text \<open>\<open>LLQuaternion::normalize\<close>: a quaternion too short to normalise becomes the identity.\<close>

definition q_normalize :: "quat \<Rightarrow> quat" where
  "q_normalize q =
     (let mag = sqrt (q_norm2 q) in if mag > fp_mag_threshold then q_smul (1 / mag) q else q_identity)"

text \<open>\<open>lerp(t, p, q)\<close>: component-wise blend, renormalised.\<close>

definition q_lerp :: "real \<Rightarrow> quat \<Rightarrow> quat \<Rightarrow> quat" where
  "q_lerp t p q = q_normalize (q_add (q_smul (1 - t) p) (q_smul t q))"

text \<open>\<open>LLQuaternion::almost_equal\<close>: equal within the tolerance, up to the sign of the
  double cover.\<close>

definition f_approximately_zero :: real where
  "f_approximately_zero = 1 / 100000"

definition q_close :: "quat \<Rightarrow> quat \<Rightarrow> real \<Rightarrow> bool" where
  "q_close a b tol \<longleftrightarrow>
     \<bar>qx a - qx b\<bar> \<le> tol \<and> \<bar>qy a - qy b\<bar> \<le> tol \<and> \<bar>qz a - qz b\<bar> \<le> tol \<and> \<bar>qw a - qw b\<bar> \<le> tol"

definition q_almost_equal :: "quat \<Rightarrow> quat \<Rightarrow> bool" where
  "q_almost_equal a b \<longleftrightarrow>
     q_close a b f_approximately_zero \<or> q_close a (q_smul (- 1) b) f_approximately_zero"

text \<open>\<open>v * q\<close>: \<open>v\<close> rotated by \<open>q\<close> (for a unit \<open>q\<close>; in general scaled by its squared norm).\<close>

definition v_rot :: "vec3 \<Rightarrow> quat \<Rightarrow> vec3" where
  "v_rot a q =
     (let rw = - qx q * vx a - qy q * vy a - qz q * vz a;
          rx =   qw q * vx a + qy q * vz a - qz q * vy a;
          ry =   qw q * vy a + qz q * vx a - qx q * vz a;
          rz =   qw q * vz a + qx q * vy a - qy q * vx a
      in \<lparr>vx = - rw * qx q + rx * qw q - ry * qz q + rz * qy q,
          vy = - rw * qy q + ry * qw q - rz * qx q + rx * qz q,
          vz = - rw * qz q + rz * qw q - rx * qy q + ry * qx q\<rparr>)"

text \<open>\<open>LLQuaternion::shortestArc(a, b)\<close>: the rotation of \<open>a\<close> onto \<open>b\<close> by the half-angle
  construction; antiparallel arguments rotate half a turn about an axis in the XY-plane
  (the X-axis when they are parallel to Z); degenerate arguments give the identity.\<close>

definition q_shortest_arc :: "vec3 \<Rightarrow> vec3 \<Rightarrow> quat" where
  "q_shortest_arc a b =
     (let ab = v_dot a b; c = v_cross a b; cc = v_dot c c in
      if ab * ab + cc \<noteq> 0 \<and> 0 < cc then
        (let sq = sqrt (ab * ab + cc) + ab; m = 1 / sqrt (cc + sq * sq)
         in \<lparr>qx = vx c * m, qy = vy c * m, qz = vz c * m, qw = sq * m\<rparr>)
      else if ab * ab + cc \<noteq> 0 \<and> ab < 0 then
        (let d = v_sub a b; m = sqrt (vx d * vx d + vy d * vy d)
         in if fp_mag_threshold < m then \<lparr>qx = - vy d / m, qy = vx d / m, qz = 0, qw = 0\<rparr>
            else \<lparr>qx = 1, qy = 0, qz = 0, qw = 0\<rparr>)
      else q_identity)"

text \<open>\<open>std::atan2\<close> on reals (there is no signed zero): the angle of the point \<open>(x, y)\<close>,
  in \<open>(-pi, pi]\<close>, and 0 at the origin.\<close>

definition atan2 :: "real \<Rightarrow> real \<Rightarrow> real" where
  "atan2 y x =
     (if 0 < x then arctan (y / x)
      else if x < 0 then (if 0 \<le> y then arctan (y / x) + pi else arctan (y / x) - pi)
      else if 0 < y then pi / 2 else if y < 0 then - (pi / 2) else 0)"

text \<open>\<open>LLQuaternion(angle, axis)\<close> and \<open>setAngleAxis\<close>: the rotation by \<open>angle\<close> about
  \<open>axis\<close>; an axis too short to normalise gives the identity.\<close>

definition q_from_angle_axis :: "real \<Rightarrow> vec3 \<Rightarrow> quat" where
  "q_from_angle_axis angle axis =
     (let mag = v_length axis in
      if mag > fp_mag_threshold then
        (let s = sin (angle / 2) / mag
         in \<lparr>qx = vx axis * s, qy = vy axis * s, qz = vz axis * s, qw = cos (angle / 2)\<rparr>)
      else q_identity)"

text \<open>\<open>LLQuaternion::getAngleAxis\<close>: the angle in \<open>[0, pi]\<close> taken on the hemisphere with
  non-negative real part, and the unit axis; a rotation with no vector part gives angle 0
  about the Z-axis.\<close>

definition q_get_angle_axis :: "quat \<Rightarrow> real \<times> vec3" where
  "q_get_angle_axis q =
     (let v = sqrt (qx q * qx q + qy q * qy q + qz q * qz q) in
      if v > fp_mag_threshold then
        (let oomag = (if qw q < 0 then - 1 / v else 1 / v)
         in (2 * atan2 v \<bar>qw q\<bar>, \<lparr>vx = qx q * oomag, vy = qy q * oomag, vz = qz q * oomag\<rparr>))
      else (0, z_axis))"

text \<open>\<open>LLQuaternion::almost_equal(a, b, tolerance)\<close>.\<close>

definition q_almost_equal_tol :: "quat \<Rightarrow> quat \<Rightarrow> real \<Rightarrow> bool" where
  "q_almost_equal_tol a b tol \<longleftrightarrow> q_close a b tol \<or> q_close a (q_smul (- 1) b) tol"

section \<open>Algebra of the kernel\<close>

named_theorems kin_simps "rewrite rules of the kinematic algebra"

lemma q_mul_assoc [kin_simps]: "q_mul (q_mul a b) c = q_mul a (q_mul b c)"
  by (simp add: q_mul_def algebra_simps)

lemma v_rot_q_mul [kin_simps]: "v_rot v (q_mul a b) = v_rot (v_rot v a) b"
  by (simp add: v_rot_def q_mul_def Let_def algebra_simps)

lemma q_mul_identity_left [kin_simps]: "q_mul q_identity q = q"
  by (simp add: q_mul_def q_identity_def)

lemma q_mul_identity_right [kin_simps]: "q_mul q q_identity = q"
  by (simp add: q_mul_def q_identity_def)

lemma v_rot_identity [kin_simps]: "v_rot v q_identity = v"
  by (simp add: v_rot_def q_identity_def)

lemma q_norm2_q_mul [kin_simps]: "q_norm2 (q_mul a b) = q_norm2 a * q_norm2 b"
  by (simp add: q_norm2_def q_mul_def algebra_simps)

lemma q_mul_conj_self [kin_simps]: "q_mul q (q_conj q) = q_smul (q_norm2 q) q_identity"
  by (simp add: q_mul_def q_conj_def q_smul_def q_norm2_def q_identity_def algebra_simps)

lemma q_mul_self_conj [kin_simps]: "q_mul (q_conj q) q = q_smul (q_norm2 q) q_identity"
  by (simp add: q_mul_def q_conj_def q_smul_def q_norm2_def q_identity_def algebra_simps)

lemma q_smul_one [kin_simps]: "q_smul 1 q = q"
  by (simp add: q_smul_def)

lemma q_norm2_conj [kin_simps]: "q_norm2 (q_conj q) = q_norm2 q"
  by (simp add: q_norm2_def q_conj_def)

lemma q_normalize_unit: "q_norm2 q = 1 \<Longrightarrow> q_normalize q = q"
  by (simp add: q_normalize_def fp_mag_threshold_def q_smul_one)

lemma v_add_sub_cancel [kin_simps]: "v_sub (v_add a b) b = a"
  by (simp add: v_add_def v_sub_def)

lemma v_sub_add_cancel [kin_simps]: "v_add (v_sub a b) b = a"
  by (simp add: v_add_def v_sub_def)

lemma v_rot_q_smul: "v_rot a (q_smul m q) = v_smul (m * m) (v_rot a q)"
  by (simp add: v_rot_def q_smul_def v_smul_def Let_def algebra_simps)

lemma lagrange_identity:
  "v_dot a b * v_dot a b + v_dot (v_cross a b) (v_cross a b) = v_dot a a * v_dot b b"
  by (simp add: v_dot_def v_cross_def algebra_simps)

lemma half_angle_component:
  fixes a1 a2 a3 b1 b2 b3 :: real
  assumes "a1 * a1 + a2 * a2 + a3 * a3 = 1" "b1 * b1 + b2 * b2 + b3 * b3 = 1"
  shows
  "- (- (a2 * b3 - a3 * b2) * a1 - (a3 * b1 - a1 * b3) * a2 - (a1 * b2 - a2 * b1) * a3) * (a2 * b3 - a3 * b2)
   + ((1 + (a1 * b1 + a2 * b2 + a3 * b3)) * a1 + (a3 * b1 - a1 * b3) * a3 - (a1 * b2 - a2 * b1) * a2)
     * (1 + (a1 * b1 + a2 * b2 + a3 * b3))
   - ((1 + (a1 * b1 + a2 * b2 + a3 * b3)) * a2 + (a1 * b2 - a2 * b1) * a1 - (a2 * b3 - a3 * b2) * a3)
     * (a1 * b2 - a2 * b1)
   + ((1 + (a1 * b1 + a2 * b2 + a3 * b3)) * a3 + (a2 * b3 - a3 * b2) * a2 - (a3 * b1 - a1 * b3) * a1)
     * (a3 * b1 - a1 * b3)
   = 2 * (1 + (a1 * b1 + a2 * b2 + a3 * b3)) * b1"
  using assms by algebra

lemma v_rot_half_angle:
  assumes "v_dot a a = 1" "v_dot b b = 1"
  shows "v_rot a \<lparr>qx = vx (v_cross a b), qy = vy (v_cross a b), qz = vz (v_cross a b), qw = 1 + v_dot a b\<rparr>
         = v_smul (2 * (1 + v_dot a b)) b"
proof -
  obtain a1 a2 a3 where a: "a = \<lparr>vx = a1, vy = a2, vz = a3\<rparr>" by (cases a) simp
  obtain b1 b2 b3 where b: "b = \<lparr>vx = b1, vy = b2, vz = b3\<rparr>" by (cases b) simp
  have na: "a1 * a1 + a2 * a2 + a3 * a3 = 1" and nb: "b1 * b1 + b2 * b2 + b3 * b3 = 1"
    using assms by (simp_all add: a b v_dot_def)
  have na2: "a2 * a2 + a3 * a3 + a1 * a1 = 1" "a3 * a3 + a1 * a1 + a2 * a2 = 1" using na by simp_all
  have nb2: "b2 * b2 + b3 * b3 + b1 * b1 = 1" "b3 * b3 + b1 * b1 + b2 * b2 = 1" using nb by simp_all
  note x = half_angle_component [OF na nb]
  note y = half_angle_component [OF na2(1) nb2(1)]
  note z = half_angle_component [OF na2(2) nb2(2)]
  show ?thesis
    unfolding a b v_rot_def v_cross_def v_dot_def v_smul_def Let_def
    using x y z by (simp add: algebra_simps)
qed

text \<open>For unit vectors that are not parallel, the shortest arc is the half-angle
  quaternion \<open>(a \<times> b, 1 + a \<cdot> b)\<close>, normalised.\<close>

lemma shortest_arc_half_angle:
  assumes a: "v_dot a a = 1" and b: "v_dot b b = 1" and nc: "0 < v_dot (v_cross a b) (v_cross a b)"
  shows "q_shortest_arc a b = q_smul (1 / sqrt (2 * (1 + v_dot a b)))
           \<lparr>qx = vx (v_cross a b), qy = vy (v_cross a b), qz = vz (v_cross a b), qw = 1 + v_dot a b\<rparr>
         \<and> 0 < 1 + v_dot a b
         \<and> v_dot (v_cross a b) (v_cross a b) + (1 + v_dot a b) * (1 + v_dot a b) = 2 * (1 + v_dot a b)"
proof -
  define ab where "ab = v_dot a b"
  define c where "c = v_cross a b"
  have l: "ab * ab + v_dot c c = 1" using lagrange_identity [of a b] a b by (simp add: ab_def c_def)
  then have "ab * ab < 1" using nc by (simp add: c_def)
  then have "\<bar>ab\<bar> < 1" using abs_square_less_1 [of ab] by (simp add: power2_eq_square)
  then have pos: "0 < 1 + ab" by arith
  have sq: "sqrt (ab * ab + v_dot c c) + ab = 1 + ab" using l by simp
  have n: "v_dot c c + (1 + ab) * (1 + ab) = 2 * (1 + ab)" using l by algebra
  have "q_shortest_arc a b = q_smul (1 / sqrt (2 * (1 + ab))) \<lparr>qx = vx c, qy = vy c, qz = vz c, qw = 1 + ab\<rparr>"
    using nc l sq n by (simp add: q_shortest_arc_def Let_def q_smul_def ab_def [symmetric] c_def [symmetric])
  with pos n show ?thesis by (simp add: ab_def c_def)
qed

lemma v_rot_shortest_arc:
  assumes a: "v_dot a a = 1" and b: "v_dot b b = 1" and nc: "0 < v_dot (v_cross a b) (v_cross a b)"
  shows "v_rot a (q_shortest_arc a b) = b"
proof -
  note h = shortest_arc_half_angle [OF a b nc]
  have mm: "1 / sqrt (2 * (1 + v_dot a b)) * (1 / sqrt (2 * (1 + v_dot a b))) = 1 / (2 * (1 + v_dot a b))"
    using h by simp
  show ?thesis
    using h by (simp only: v_rot_q_smul mm v_rot_half_angle [OF a b]) (simp add: v_smul_def)
qed

lemma v_dot_v_rot:
  "v_dot (v_rot a q) (v_rot b q) = q_norm2 q * q_norm2 q * v_dot a b"
  by (simp add: v_dot_def v_rot_def q_norm2_def Let_def algebra_simps)

lemma q_norm2_q_smul: "q_norm2 (q_smul m q) = m * m * q_norm2 q"
  by (simp add: q_norm2_def q_smul_def algebra_simps)

lemma q_norm2_shortest_arc:
  assumes a: "v_dot a a = 1" and b: "v_dot b b = 1" and nc: "0 < v_dot (v_cross a b) (v_cross a b)"
  shows "q_norm2 (q_shortest_arc a b) = 1"
proof -
  note h = shortest_arc_half_angle [OF a b nc]
  have "q_norm2 \<lparr>qx = vx (v_cross a b), qy = vy (v_cross a b), qz = vz (v_cross a b), qw = 1 + v_dot a b\<rparr>
      = 2 * (1 + v_dot a b)"
    using h by (simp add: q_norm2_def v_dot_def algebra_simps)
  with h show ?thesis by (simp add: q_norm2_q_smul)
qed


section \<open>Projection onto a cone\<close>

lemma v_dot_bilinear:
  "v_dot (v_add a b) c = v_dot a c + v_dot b c" "v_dot a (v_add b c) = v_dot a b + v_dot a c"
  "v_dot (v_sub a b) c = v_dot a c - v_dot b c" "v_dot a (v_sub b c) = v_dot a b - v_dot a c"
  "v_dot (v_smul r a) c = r * v_dot a c" "v_dot a (v_smul r c) = r * v_dot a c"
  by (simp_all add: v_dot_def v_add_def v_sub_def v_smul_def algebra_simps)

lemma v_dot_commute: "v_dot a b = v_dot b a"
  by (simp add: v_dot_def algebra_simps)

lemma v_dot_rot_unit:
  "q_norm2 q = 1 \<Longrightarrow> v_dot (v_rot a q) (v_rot a q) = v_dot a a"
  by (simp add: v_dot_v_rot)

lemma cone_not_parallel:
  fixes fc l c s :: real
  assumes ll: "l * l = 1 - fc * fc" and cs: "c * c + s * s = 1" "0 \<le> s"
    and l0: "0 < l" and out: "fc < c"
  shows "fc * s \<noteq> l * c"
proof
  assume e: "fc * s = l * c"
  then have "(fc * s) * (fc * s) = (l * c) * (l * c)" by simp
  then have "fc * fc * (s * s) = (l * l) * (c * c)" by (simp add: ac_simps)
  moreover have "s * s = 1 - c * c" using cs(1) by simp
  ultimately have "fc * fc * (1 - c * c) = (1 - fc * fc) * (c * c)"
    using ll by simp
  then have "fc * fc = c * c" by (simp add: algebra_simps)
  then have "(fc - c) * (fc + c) = 0" by (simp add: algebra_simps)
  then have "fc = - c" using out by (simp add: eq_neg_iff_add_eq_0)
  then have "c * (s + l) = 0" using e by (simp add: algebra_simps)
  moreover have "0 < c" using \<open>fc = - c\<close> out by simp
  ultimately show False using l0 cs(2) by simp
qed

lemma cone_cross_sq:
  fixes fc l c s :: real
  assumes ll: "l * l = 1 - fc * fc" and cs: "c * c + s * s = 1"
  shows "1 - (fc * c + l * s) * (fc * c + l * s) = (fc * s - l * c) * (fc * s - l * c)"
proof -
  have "1 = (fc * fc + l * l) * (c * c + s * s)" using ll cs by simp
  then show ?thesis by (simp add: algebra_simps)
qed

text \<open>The cone projection: a unit vector \<open>u\<close> outside the cone around the unit axis \<open>f\<close>
  is moved onto its surface, and the two are not parallel.\<close>

lemma cone_projection:
  assumes f: "v_dot f f = 1" and u: "v_dot u u = 1"
    and cs: "c * c + s * s = 1" "0 \<le> s"
    and out: "v_dot u f < c"
    and m: "fp_mag_threshold < v_length (v_sub u (v_smul (v_dot u f) f))"
  defines "n \<equiv> v_add (v_smul c f) (v_smul s (v_normalize (v_sub u (v_smul (v_dot u f) f))))"
  shows "v_dot n n = 1 \<and> v_dot n f = c \<and> 0 < v_dot (v_cross u n) (v_cross u n)"
proof -
  define fc where "fc = v_dot u f"
  define d where "d = v_sub u (v_smul fc f)"
  define l where "l = v_length d"
  have df: "v_dot d f = 0" using f by (simp add: v_dot_bilinear d_def fc_def)
  have dd: "v_dot d d = 1 - fc * fc"
    using f u by (simp add: v_dot_bilinear d_def fc_def v_dot_commute [of f u] algebra_simps)
  have l0: "0 < l" using m fp_mag_threshold_def by (simp add: v_dot_bilinear l_def d_def fc_def)
  have ll: "l * l = 1 - fc * fc" using dd l0 by (simp add: v_dot_bilinear l_def v_length_def)
  have p: "v_normalize d = v_smul (1 / l) d"
    using m by (simp add: v_dot_bilinear v_normalize_def l_def d_def fc_def)
  define pv where "pv = v_smul (1 / l) d"
  have pp: "v_dot pv pv = 1" using ll l0 dd by (simp add: v_dot_bilinear pv_def field_simps)
  have pf: "v_dot pv f = 0" using df by (simp add: v_dot_bilinear pv_def)
  have up: "v_dot u pv = l"
  proof -
    have "v_dot u d = 1 - fc * fc" using u by (simp add: v_dot_bilinear d_def fc_def)
    then show ?thesis using ll l0 by (simp add: v_dot_bilinear pv_def field_simps)
  qed
  have n: "n = v_add (v_smul c f) (v_smul s pv)"
    using p by (simp add: v_dot_bilinear n_def d_def fc_def pv_def)
  have fp: "v_dot f pv = 0" using pf by (simp add: v_dot_bilinear v_dot_commute [of f pv])
  have nn: "v_dot n n = 1"
    using f pp pf fp cs(1) by (simp add: v_dot_bilinear n algebra_simps)
  have nf: "v_dot n f = c" using f pf by (simp add: v_dot_bilinear n)
  have un: "v_dot u n = fc * c + l * s" using up by (simp add: v_dot_bilinear n fc_def v_dot_commute [of f u])
  have ne: "fc * s \<noteq> l * c"
    using cone_not_parallel [OF ll cs l0] out by (simp add: v_dot_bilinear fc_def)
  have "v_dot (v_cross u n) (v_cross u n) = 1 - (fc * c + l * s) * (fc * c + l * s)"
    using lagrange_identity [of u n] u nn un by (simp add: v_dot_bilinear)
  also have "\<dots> = (fc * s - l * c) * (fc * s - l * c)"
    by (rule cone_cross_sq [OF ll cs(1)])
  finally have "0 < v_dot (v_cross u n) (v_cross u n)"
    using ne by (metis not_real_square_gt_zero right_minus_eq)
  with nn nf show ?thesis by blast
qed

lemma unit_rot_compose:
  assumes "q_norm2 q = 1" "q_norm2 r = 1"
  shows "q_normalize (q_mul q r) = q_mul q r" "q_norm2 (q_mul q r) = 1"
  using assms by (simp_all add: q_normalize_unit q_norm2_q_mul)

end
