(* ===== verification/IK_Config.thy ===== *)
theory IK_Config
  imports IK_Math
begin

unbundle bit_operations_syntax

text \<open>
  \<open>LLIK::Joint::Config\<close>: the per-joint override a caller submits for one solve
  (\<open>llik.h\<close> flag constants and class \<open>Config\<close>; \<open>llik.cpp\<close> setters and
  \<open>updateFrom\<close>). The presence bits are a \<open>U8\<close> (\<open>u8\<close>), tested as the code tests
  them, \<open>(flags & BIT) > 0\<close>. The chain limit is the \<open>U8\<close> that \<open>llik.cpp\<close> stores with
  \<open>setChainLimit\<close> (default 255). The lemmas give the flag word each setter and
  \<open>updateFrom\<close> produce and the payloads they leave.
\<close>

section \<open>Flag constants\<close>

definition CONFIG_FLAG_LOCAL_POS :: u8 where "CONFIG_FLAG_LOCAL_POS = 1"
definition CONFIG_FLAG_LOCAL_ROT :: u8 where "CONFIG_FLAG_LOCAL_ROT = 2"
definition CONFIG_FLAG_LOCAL_SCALE :: u8 where "CONFIG_FLAG_LOCAL_SCALE = 4"
definition CONFIG_FLAG_DISABLE_CONSTRAINT :: u8 where "CONFIG_FLAG_DISABLE_CONSTRAINT = 8"
definition CONFIG_FLAG_TARGET_POS :: u8 where "CONFIG_FLAG_TARGET_POS = 16"
definition CONFIG_FLAG_TARGET_ROT :: u8 where "CONFIG_FLAG_TARGET_ROT = 32"
definition CONFIG_FLAG_HAS_DELEGATED :: u8 where "CONFIG_FLAG_HAS_DELEGATED = 64"

definition IK_FLAG_LOCAL_ROT :: u8 where "IK_FLAG_LOCAL_ROT = 2"
definition IK_FLAG_ACTIVE :: u8 where "IK_FLAG_ACTIVE = 32"
definition IK_FLAG_LOCAL_ROT_LOCKED :: u8 where "IK_FLAG_LOCAL_ROT_LOCKED = 128"

definition MASK_POS :: u8 where "MASK_POS = CONFIG_FLAG_TARGET_POS OR CONFIG_FLAG_LOCAL_POS"
definition MASK_ROT :: u8 where "MASK_ROT = CONFIG_FLAG_TARGET_ROT OR CONFIG_FLAG_LOCAL_ROT"
definition MASK_LOCAL :: u8 where
  "MASK_LOCAL = CONFIG_FLAG_LOCAL_POS OR CONFIG_FLAG_LOCAL_ROT OR CONFIG_FLAG_DISABLE_CONSTRAINT"

lemmas flag_defs = CONFIG_FLAG_LOCAL_POS_def CONFIG_FLAG_LOCAL_ROT_def CONFIG_FLAG_LOCAL_SCALE_def
  CONFIG_FLAG_DISABLE_CONSTRAINT_def CONFIG_FLAG_TARGET_POS_def CONFIG_FLAG_TARGET_ROT_def
  CONFIG_FLAG_HAS_DELEGATED_def IK_FLAG_LOCAL_ROT_def IK_FLAG_ACTIVE_def
  IK_FLAG_LOCAL_ROT_LOCKED_def MASK_POS_def MASK_ROT_def MASK_LOCAL_def

text \<open>\<open>(flags & bit) > 0\<close>.\<close>

definition has_flag :: "u8 \<Rightarrow> u8 \<Rightarrow> bool" where
  "has_flag flags m \<longleftrightarrow> 0 < (flags AND m)"

section \<open>The configuration record\<close>

record config =
  cfg_local_pos :: vec3
  cfg_local_rot :: quat
  cfg_local_scale :: vec3
  cfg_target_pos :: vec3
  cfg_target_rot :: quat
  cfg_chain_limit :: u8
  cfg_flags :: u8

text \<open>A default-constructed \<open>Config\<close>: no bit set, default payloads.\<close>

definition default_config :: config where
  "default_config =
     \<lparr>cfg_local_pos = v_zero, cfg_local_rot = q_identity, cfg_local_scale = v_zero,
      cfg_target_pos = v_zero, cfg_target_rot = q_identity, cfg_chain_limit = 255,
      cfg_flags = 0\<rparr>"

definition hasLocalPos :: "config \<Rightarrow> bool" where
  "hasLocalPos c \<longleftrightarrow> has_flag (cfg_flags c) CONFIG_FLAG_LOCAL_POS"
definition hasLocalRot :: "config \<Rightarrow> bool" where
  "hasLocalRot c \<longleftrightarrow> has_flag (cfg_flags c) CONFIG_FLAG_LOCAL_ROT"
definition hasLocalScale :: "config \<Rightarrow> bool" where
  "hasLocalScale c \<longleftrightarrow> has_flag (cfg_flags c) CONFIG_FLAG_LOCAL_SCALE"
definition constraintIsDisabled :: "config \<Rightarrow> bool" where
  "constraintIsDisabled c \<longleftrightarrow> has_flag (cfg_flags c) CONFIG_FLAG_DISABLE_CONSTRAINT"
definition hasTargetPos :: "config \<Rightarrow> bool" where
  "hasTargetPos c \<longleftrightarrow> has_flag (cfg_flags c) CONFIG_FLAG_TARGET_POS"
definition hasTargetRot :: "config \<Rightarrow> bool" where
  "hasTargetRot c \<longleftrightarrow> has_flag (cfg_flags c) CONFIG_FLAG_TARGET_ROT"
definition hasDelegated :: "config \<Rightarrow> bool" where
  "hasDelegated c \<longleftrightarrow> has_flag (cfg_flags c) CONFIG_FLAG_HAS_DELEGATED"

lemmas config_tests = hasLocalPos_def hasLocalRot_def hasLocalScale_def constraintIsDisabled_def
  hasTargetPos_def hasTargetRot_def hasDelegated_def

section \<open>Setters\<close>

definition cfg_setLocalPos :: "vec3 \<Rightarrow> config \<Rightarrow> config" where
  "cfg_setLocalPos p c = c\<lparr>cfg_local_pos := p, cfg_flags := cfg_flags c OR CONFIG_FLAG_LOCAL_POS\<rparr>"

definition cfg_setLocalRot :: "quat \<Rightarrow> config \<Rightarrow> config" where
  "cfg_setLocalRot q c =
     c\<lparr>cfg_local_rot := q_normalize q, cfg_flags := cfg_flags c OR CONFIG_FLAG_LOCAL_ROT\<rparr>"

definition cfg_setLocalScale :: "vec3 \<Rightarrow> config \<Rightarrow> config" where
  "cfg_setLocalScale s c =
     c\<lparr>cfg_local_scale := s, cfg_flags := cfg_flags c OR CONFIG_FLAG_LOCAL_SCALE\<rparr>"

definition cfg_setChainLimit :: "u8 \<Rightarrow> config \<Rightarrow> config" where
  "cfg_setChainLimit l c = c\<lparr>cfg_chain_limit := l\<rparr>"

definition cfg_setTargetPos :: "vec3 \<Rightarrow> config \<Rightarrow> config" where
  "cfg_setTargetPos p c = c\<lparr>cfg_target_pos := p, cfg_flags := cfg_flags c OR CONFIG_FLAG_TARGET_POS\<rparr>"

definition cfg_setTargetRot :: "quat \<Rightarrow> config \<Rightarrow> config" where
  "cfg_setTargetRot q c =
     c\<lparr>cfg_target_rot := q_normalize q, cfg_flags := cfg_flags c OR CONFIG_FLAG_TARGET_ROT\<rparr>"

definition cfg_disableConstraint :: "config \<Rightarrow> config" where
  "cfg_disableConstraint c = c\<lparr>cfg_flags := cfg_flags c OR CONFIG_FLAG_DISABLE_CONSTRAINT\<rparr>"

definition cfg_delegate :: "config \<Rightarrow> config" where
  "cfg_delegate c = c\<lparr>cfg_flags := cfg_flags c OR CONFIG_FLAG_HAS_DELEGATED\<rparr>"

text \<open>\<open>Config::updateFrom\<close>: equal flag sets replace, otherwise each present field of
  \<open>other\<close> is set through its setter, in the order of the source.\<close>

definition updateFrom :: "config \<Rightarrow> config \<Rightarrow> config" where
  "updateFrom c other =
     (if cfg_flags c = cfg_flags other then other
      else
        let c1 = (if hasLocalPos other then cfg_setLocalPos (cfg_local_pos other) c else c);
            c2 = (if hasLocalRot other then cfg_setLocalRot (cfg_local_rot other) c1 else c1);
            c3 = (if hasTargetPos other then cfg_setTargetPos (cfg_target_pos other) c2 else c2);
            c4 = (if hasTargetRot other then cfg_setTargetRot (cfg_target_rot other) c3 else c3);
            c5 = (if hasLocalScale other then cfg_setLocalScale (cfg_local_scale other) c4 else c4)
        in if constraintIsDisabled other then cfg_disableConstraint c5 else c5)"

section \<open>Flag algebra\<close>

lemma bit_test: "0 < ((f::u8) AND 2 ^ k) \<longleftrightarrow> bit f k"
  by (metis and_exp_eq_0_iff_not_bit word_neq_0_conv)
text \<open>Each flag constant is one bit: testing it is reading that bit.\<close>

lemma has_flag_bits:
  "has_flag f 1 = bit f 0" "has_flag f 2 = bit f 1" "has_flag f 4 = bit f 2"
  "has_flag f 8 = bit f 3" "has_flag f 16 = bit f 4" "has_flag f 32 = bit f 5"
  "has_flag f 64 = bit f 6" "has_flag f 128 = bit f 7"
  using bit_test [of f 0] bit_test [of f 1] bit_test [of f 2] bit_test [of f 3]
    bit_test [of f 4] bit_test [of f 5] bit_test [of f 6] bit_test [of f 7]
  by (simp_all add: has_flag_def)

lemma or_flag: "(if has_flag f (2 ^ k) then x OR 2 ^ k else x) = x OR (f AND 2 ^ k)" for f x :: u8
proof (cases "bit f k")
  case True
  then have "f AND 2 ^ k = 2 ^ k"
    by (intro bit_eqI) (auto simp: bit_and_iff bit_exp_iff)
  moreover from True have "has_flag f (2 ^ k)" by (simp add: has_flag_def bit_test)
  ultimately show ?thesis by simp
next
  case False
  then have "f AND 2 ^ k = 0"
    by (simp add: and_exp_eq_0_iff_not_bit)
  moreover from False have "\<not> has_flag f (2 ^ k)" by (simp add: has_flag_def bit_test)
  ultimately show ?thesis by simp
qed
lemma or_flag_bits:
  "((((((x OR (f AND 1)) OR (f AND 2)) OR (f AND 16)) OR (f AND 32)) OR (f AND 4)) OR (f AND 8))
    = x OR (f AND 63)" for x f :: u8
  by (simp add: or.assoc bit.conj_disj_distrib [symmetric])

lemma cond_flag:
  assumes "cfg_flags (g c) = cfg_flags c OR 2 ^ k"
  shows "cfg_flags (if has_flag F (2 ^ k) then g c else c) = cfg_flags c OR (F AND 2 ^ k)"
proof -
  have "cfg_flags (if has_flag F (2 ^ k) then g c else c)
      = (if has_flag F (2 ^ k) then cfg_flags c OR 2 ^ k else cfg_flags c)"
    by (simp only: if_distrib [of cfg_flags] assms)
  also have "\<dots> = cfg_flags c OR (F AND 2 ^ k)"
    by (rule or_flag)
  finally show ?thesis .
qed

section \<open>updateFrom\<close>

lemma updateFrom_flags:
  "cfg_flags (updateFrom c other) =
     (if cfg_flags c = cfg_flags other then cfg_flags other
      else cfg_flags c OR (cfg_flags other AND 63))"
proof (cases "cfg_flags c = cfg_flags other")
  case True
  then show ?thesis by (simp add: updateFrom_def)
next
  case False
  let ?F = "cfg_flags other"
  define c1 where "c1 = (if hasLocalPos other then cfg_setLocalPos (cfg_local_pos other) c else c)"
  define c2 where "c2 = (if hasLocalRot other then cfg_setLocalRot (cfg_local_rot other) c1 else c1)"
  define c3 where "c3 = (if hasTargetPos other then cfg_setTargetPos (cfg_target_pos other) c2 else c2)"
  define c4 where "c4 = (if hasTargetRot other then cfg_setTargetRot (cfg_target_rot other) c3 else c3)"
  define c5 where "c5 = (if hasLocalScale other then cfg_setLocalScale (cfg_local_scale other) c4 else c4)"
  define c6 where "c6 = (if constraintIsDisabled other then cfg_disableConstraint c5 else c5)"
  have "cfg_flags c1 = cfg_flags c OR (?F AND 1)"
    unfolding c1_def hasLocalPos_def flag_defs
    by (rule cond_flag [of _ _ 0, simplified]) (simp add: cfg_setLocalPos_def flag_defs)
  moreover have "cfg_flags c2 = cfg_flags c1 OR (?F AND 2)"
    unfolding c2_def hasLocalRot_def flag_defs
    by (rule cond_flag [of _ _ 1, simplified]) (simp add: cfg_setLocalRot_def flag_defs)
  moreover have "cfg_flags c3 = cfg_flags c2 OR (?F AND 16)"
    unfolding c3_def hasTargetPos_def flag_defs
    by (rule cond_flag [of _ _ 4, simplified]) (simp add: cfg_setTargetPos_def flag_defs)
  moreover have "cfg_flags c4 = cfg_flags c3 OR (?F AND 32)"
    unfolding c4_def hasTargetRot_def flag_defs
    by (rule cond_flag [of _ _ 5, simplified]) (simp add: cfg_setTargetRot_def flag_defs)
  moreover have "cfg_flags c5 = cfg_flags c4 OR (?F AND 4)"
    unfolding c5_def hasLocalScale_def flag_defs
    by (rule cond_flag [of _ _ 2, simplified]) (simp add: cfg_setLocalScale_def flag_defs)
  moreover have "cfg_flags c6 = cfg_flags c5 OR (?F AND 8)"
    unfolding c6_def constraintIsDisabled_def flag_defs
    by (rule cond_flag [of _ _ 3, simplified]) (simp add: cfg_disableConstraint_def flag_defs)
  moreover have "updateFrom c other = c6"
    using False by (simp add: updateFrom_def Let_def c1_def c2_def c3_def c4_def c5_def c6_def)
  ultimately show ?thesis
    using False or_flag_bits [of "cfg_flags c" ?F] by simp
qed
text \<open>C13: a target position in the incoming configuration survives \<open>updateFrom\<close>: the merged
  configuration has the target flag and the incoming target.\<close>

lemma updateFrom_target_pos:
  assumes "hasTargetPos other"
  shows "hasTargetPos (updateFrom c other) \<and> cfg_target_pos (updateFrom c other) = cfg_target_pos other"
proof (cases "cfg_flags c = cfg_flags other")
  case True
  with assms show ?thesis by (simp add: updateFrom_def)
next
  case False
  have e: "(16::u8) = 2 ^ 4" by simp
  have "bit (cfg_flags other) 4"
    using assms bit_test [of "cfg_flags other" 4] by (simp add: hasTargetPos_def has_flag_def flag_defs)
  then have "bit (cfg_flags c OR (cfg_flags other AND 63)) 4"
    by (simp add: bit_or_iff bit_and_iff)
  then have "has_flag (cfg_flags c OR (cfg_flags other AND 63)) 16"
    unfolding e has_flag_def by (simp only: bit_test)
  with False show ?thesis
    using assms updateFrom_flags [of c other]
    by (simp add: updateFrom_def Let_def hasTargetPos_def flag_defs cfg_setLocalPos_def
      cfg_setLocalRot_def cfg_setTargetPos_def cfg_setTargetRot_def cfg_setLocalScale_def
      cfg_disableConstraint_def)
qed

lemma updateFrom_target_pos_witness:
  "hasTargetPos (updateFrom default_config (cfg_setTargetPos x_axis default_config))
   \<and> cfg_target_pos (updateFrom default_config (cfg_setTargetPos x_axis default_config)) = x_axis"
proof -
  have "hasTargetPos (cfg_setTargetPos x_axis default_config)"
    by (simp add: hasTargetPos_def cfg_setTargetPos_def has_flag_def flag_defs)
  from updateFrom_target_pos [OF this] show ?thesis
    by (simp add: cfg_setTargetPos_def)
qed

text \<open>C14: when the two flag sets differ, \<open>updateFrom\<close> keeps the \<open>HAS_DELEGATED\<close> bit of
  the receiving configuration and ignores the incoming one: the merge drops a delegation.\<close>

lemma updateFrom_delegated:
  assumes "cfg_flags c \<noteq> cfg_flags other"
  shows "hasDelegated (updateFrom c other) = hasDelegated c"
  using assms updateFrom_flags [of c other]
  by (simp add: hasDelegated_def flag_defs has_flag_bits bit_or_iff bit_and_iff)

lemma updateFrom_drops_delegated:
  "hasDelegated (cfg_delegate default_config)
   \<and> \<not> hasDelegated (updateFrom (cfg_setLocalPos v_zero default_config) (cfg_delegate default_config))"
proof -
  have "cfg_flags (cfg_setLocalPos v_zero default_config) \<noteq> cfg_flags (cfg_delegate default_config)"
    by (simp add: default_config_def cfg_delegate_def cfg_setLocalPos_def flag_defs)
  from updateFrom_delegated [OF this] show ?thesis
    by (simp add: config_tests has_flag_def flag_defs default_config_def cfg_delegate_def
        cfg_setLocalPos_def)
qed

end
