(* ===== verification/IK_Constraint.thy ===== *)
theory IK_Constraint
  imports IK_Angles IK_Math
begin

text \<open>
  The constraint library's data and its factory: the \<open>ConstraintType\<close> enumeration,
  one record per concrete \<open>Constraint\<close> subclass with the members its constructor
  fills, the constructors (\<open>llik.cpp\<close>), the type names, and
  \<open>LLIKConstraintFactory\<close> (\<open>create\<close>, \<open>getConstraint\<close>,
  \<open>processConstraintMappings\<close>, \<open>getConstraintByName\<close>). The LLSD parameter map of a
  constraint definition is the record \<open>constraint_def\<close>; a key the map lacks reads
  as 0 (\<open>asReal\<close> of an undefined LLSD) or the zero vector. The projections
  (\<open>computeAdjustedLocalRot\<close>, \<open>enforce\<close>) are in \<open>IK_Enforce\<close>.
\<close>

section \<open>Types and names\<close>

datatype constraint_type =
    NULL_CONSTRAINT
  | UNKNOWN_CONSTRAINT
  | SIMPLE_CONE_CONSTRAINT
  | TWIST_LIMITED_CONE_CONSTRAINT
  | SHOULDER_CONSTRAINT
  | ELBOW_CONSTRAINT
  | KNEE_CONSTRAINT
  | ACUTE_ELLIPSOIDAL_CONE_CONSTRAINT
  | DOUBLE_LIMITED_HINGE_CONSTRAINT

definition NULL_CONSTRAINT_NAME :: string where "NULL_CONSTRAINT_NAME = ''NULL_CONSTRAINT''"
definition UNKNOWN_CONSTRAINT_NAME :: string where "UNKNOWN_CONSTRAINT_NAME = ''UNKNOWN_CONSTRAINT''"
definition SIMPLE_CONE_CONSTRAINT_NAME :: string where "SIMPLE_CONE_CONSTRAINT_NAME = ''SIMPLE_CONE''"
definition TWIST_LIMITED_CONE_CONSTRAINT_NAME :: string where
  "TWIST_LIMITED_CONE_CONSTRAINT_NAME = ''TWIST_LIMITED_CONE''"
definition SHOULDER_CONSTRAINT_NAME :: string where "SHOULDER_CONSTRAINT_NAME = ''SHOULDER''"
definition ELBOW_CONSTRAINT_NAME :: string where "ELBOW_CONSTRAINT_NAME = ''ELBOW''"
definition KNEE_CONSTRAINT_NAME :: string where "KNEE_CONSTRAINT_NAME = ''KNEE''"
definition ACUTE_ELLIPSOIDAL_CONE_CONSTRAINT_NAME :: string where
  "ACUTE_ELLIPSOIDAL_CONE_CONSTRAINT_NAME = ''ACUTE_ELLIPSOIDAL_CONE''"
definition DOUBLE_LIMITED_HINGE_CONSTRAINT_NAME :: string where
  "DOUBLE_LIMITED_HINGE_CONSTRAINT_NAME = ''DOUBLE_LIMITED_HINGE''"

lemmas constraint_name_defs = NULL_CONSTRAINT_NAME_def UNKNOWN_CONSTRAINT_NAME_def
  SIMPLE_CONE_CONSTRAINT_NAME_def TWIST_LIMITED_CONE_CONSTRAINT_NAME_def SHOULDER_CONSTRAINT_NAME_def
  ELBOW_CONSTRAINT_NAME_def KNEE_CONSTRAINT_NAME_def ACUTE_ELLIPSOIDAL_CONE_CONSTRAINT_NAME_def
  DOUBLE_LIMITED_HINGE_CONSTRAINT_NAME_def

fun constraint_type_to_name :: "constraint_type \<Rightarrow> string" where
  "constraint_type_to_name NULL_CONSTRAINT = NULL_CONSTRAINT_NAME"
| "constraint_type_to_name SIMPLE_CONE_CONSTRAINT = SIMPLE_CONE_CONSTRAINT_NAME"
| "constraint_type_to_name TWIST_LIMITED_CONE_CONSTRAINT = TWIST_LIMITED_CONE_CONSTRAINT_NAME"
| "constraint_type_to_name SHOULDER_CONSTRAINT = SHOULDER_CONSTRAINT_NAME"
| "constraint_type_to_name ELBOW_CONSTRAINT = ELBOW_CONSTRAINT_NAME"
| "constraint_type_to_name KNEE_CONSTRAINT = KNEE_CONSTRAINT_NAME"
| "constraint_type_to_name ACUTE_ELLIPSOIDAL_CONE_CONSTRAINT = ACUTE_ELLIPSOIDAL_CONE_CONSTRAINT_NAME"
| "constraint_type_to_name DOUBLE_LIMITED_HINGE_CONSTRAINT = DOUBLE_LIMITED_HINGE_CONSTRAINT_NAME"
| "constraint_type_to_name UNKNOWN_CONSTRAINT = UNKNOWN_CONSTRAINT_NAME"

text \<open>\<open>boost::to_upper\<close> in the classic locale: ASCII letters only.\<close>

definition to_upper_char :: "char \<Rightarrow> char" where
  "to_upper_char c = (let n = of_char c :: nat in if 97 \<le> n \<and> n \<le> 122 then char_of (n - 32) else c)"

definition to_upper :: "string \<Rightarrow> string" where
  "to_upper s = map to_upper_char s"

section \<open>The constraint records\<close>

text \<open>\<open>DEG_TO_RAD\<close>.\<close>

definition DEG_TO_RAD :: real where
  "DEG_TO_RAD = pi / 180"

record simple_cone =
  sc_forward :: vec3
  sc_max_angle :: real
  sc_cos_cone_angle :: real
  sc_sin_cone_angle :: real

record twist_limited_cone =
  tc_forward :: vec3
  tc_cone_angle :: real
  tc_cos_cone_angle :: real
  tc_sin_cone_angle :: real
  tc_min_twist :: real
  tc_max_twist :: real

record shoulder =
  sh_forward :: vec3
  sh_cone_axis :: vec3

record elbow =
  el_forward :: vec3
  el_pivot_axis :: vec3
  el_pivot_x_forward :: vec3
  el_min_bend :: real
  el_max_bend :: real
  el_min_twist :: real
  el_max_twist :: real

record knee =
  kn_forward :: vec3
  kn_pivot_axis :: vec3
  kn_pivot_x_forward :: vec3
  kn_min_bend :: real
  kn_max_bend :: real

record acute_ellipsoidal_cone =
  ae_forward :: vec3
  ae_up :: vec3
  ae_left :: vec3
  ae_x_forward :: real
  ae_x_up :: real
  ae_x_down :: real
  ae_x_left :: real
  ae_x_right :: real
  ae_quadrant_scales :: "real list"
  ae_quadrant_cos_angles :: "real list"
  ae_quadrant_cot_angles :: "real list"

record double_limited_hinge =
  dh_forward :: vec3
  dh_up :: vec3
  dh_left :: vec3
  dh_min_yaw :: real
  dh_max_yaw :: real
  dh_min_pitch :: real
  dh_max_pitch :: real

datatype constraint =
    SimpleCone simple_cone
  | TwistLimitedCone twist_limited_cone
  | ShoulderConstraint shoulder
  | ElbowConstraint elbow
  | KneeConstraint knee
  | AcuteEllipsoidalCone acute_ellipsoidal_cone
  | DoubleLimitedHinge double_limited_hinge

fun getType :: "constraint \<Rightarrow> constraint_type" where
  "getType (SimpleCone _) = SIMPLE_CONE_CONSTRAINT"
| "getType (TwistLimitedCone _) = TWIST_LIMITED_CONE_CONSTRAINT"
| "getType (ShoulderConstraint _) = SHOULDER_CONSTRAINT"
| "getType (ElbowConstraint _) = ELBOW_CONSTRAINT"
| "getType (KneeConstraint _) = KNEE_CONSTRAINT"
| "getType (AcuteEllipsoidalCone _) = ACUTE_ELLIPSOIDAL_CONE_CONSTRAINT"
| "getType (DoubleLimitedHinge _) = DOUBLE_LIMITED_HINGE_CONSTRAINT"

fun allowsTwist :: "constraint \<Rightarrow> bool" where
  "allowsTwist (KneeConstraint _) = False"
| "allowsTwist _ = True"

section \<open>Constructors\<close>

text \<open>The LLSD parameters of one constraint definition (a key that is absent reads as 0).\<close>

record constraint_def =
  def_type :: string
  def_forward_axis :: vec3
  def_pivot_axis :: vec3
  def_up_axis :: vec3
  def_max_angle :: real
  def_cone_angle :: real
  def_min_twist :: real
  def_max_twist :: real
  def_min_bend :: real
  def_max_bend :: real
  def_min_yaw :: real
  def_max_yaw :: real
  def_min_pitch :: real
  def_max_pitch :: real
  def_forward :: real
  def_up :: real
  def_down :: real
  def_left :: real
  def_right :: real

text \<open>\<open>Constraint(type, parameters)\<close>: the base part every LLSD constructor runs first.\<close>

definition base_forward :: "constraint_def \<Rightarrow> vec3" where
  "base_forward p = v_normalize (def_forward_axis p)"

definition make_SimpleCone :: "constraint_def \<Rightarrow> constraint" where
  "make_SimpleCone p =
     (let a = \<bar>def_max_angle p\<bar> * DEG_TO_RAD
      in SimpleCone \<lparr>sc_forward = base_forward p, sc_max_angle = a,
                     sc_cos_cone_angle = cos a, sc_sin_cone_angle = sin a\<rparr>)"

definition make_TwistLimitedCone :: "constraint_def \<Rightarrow> constraint" where
  "make_TwistLimitedCone p =
     (let a = def_cone_angle p * DEG_TO_RAD;
          (mn, mx) = compute_angle_limits (def_min_twist p * DEG_TO_RAD) (def_max_twist p * DEG_TO_RAD)
      in TwistLimitedCone \<lparr>tc_forward = base_forward p, tc_cone_angle = a,
           tc_cos_cone_angle = cos a, tc_sin_cone_angle = sin a, tc_min_twist = mn, tc_max_twist = mx\<rparr>)"

definition make_ShoulderConstraint :: "constraint_def \<Rightarrow> constraint" where
  "make_ShoulderConstraint p =
     (let f = base_forward p
      in ShoulderConstraint \<lparr>sh_forward = f,
           sh_cone_axis = v_normalize (v_sub (v_add f x_axis) (v_smul (3 / 2) z_axis))\<rparr>)"

definition make_ElbowConstraint :: "constraint_def \<Rightarrow> constraint" where
  "make_ElbowConstraint p =
     (let f = base_forward p;
          pv = v_normalize (v_cross f (v_cross (def_pivot_axis p) f));
          (bmin, bmax) = compute_angle_limits (def_min_bend p * DEG_TO_RAD) (def_max_bend p * DEG_TO_RAD);
          (tmin, tmax) = compute_angle_limits (def_min_twist p * DEG_TO_RAD) (def_max_twist p * DEG_TO_RAD)
      in ElbowConstraint \<lparr>el_forward = f, el_pivot_axis = pv, el_pivot_x_forward = v_cross pv f,
           el_min_bend = bmin, el_max_bend = bmax, el_min_twist = tmin, el_max_twist = tmax\<rparr>)"

definition make_KneeConstraint :: "constraint_def \<Rightarrow> constraint" where
  "make_KneeConstraint p =
     (let f = base_forward p;
          pv = v_normalize (v_cross f (v_cross (def_pivot_axis p) f));
          (bmin, bmax) = compute_angle_limits (def_min_bend p * DEG_TO_RAD) (def_max_bend p * DEG_TO_RAD)
      in KneeConstraint \<lparr>kn_forward = f, kn_pivot_axis = pv, kn_pivot_x_forward = v_cross pv f,
           kn_min_bend = bmin, kn_max_bend = bmax\<rparr>)"

definition make_AcuteEllipsoidalCone :: "constraint_def \<Rightarrow> constraint" where
  "make_AcuteEllipsoidalCone p =
     (let u = v_normalize (def_up_axis p);
          f = v_normalize (v_cross (v_cross u (base_forward p)) u);
          up = \<bar>def_up p / def_forward p\<bar>;
          left = \<bar>def_left p / def_forward p\<bar>;
          down = \<bar>def_down p / def_forward p\<bar>;
          right = \<bar>def_right p / def_forward p\<bar>;
          cos_up = 1 / sqrt (up * up + 1);
          cos_down = 1 / sqrt (down * down + 1)
      in AcuteEllipsoidalCone \<lparr>ae_forward = f, ae_up = u, ae_left = v_cross u f,
           ae_x_forward = def_forward p, ae_x_up = def_up p, ae_x_down = def_down p,
           ae_x_left = def_left p, ae_x_right = def_right p,
           ae_quadrant_scales = [up / right, up / left, down / left, down / right],
           ae_quadrant_cos_angles = [cos_up, cos_up, cos_down, cos_down],
           ae_quadrant_cot_angles = [1 / up, 1 / up, 1 / down, 1 / down]\<rparr>)"

text \<open>The pitch limits of \<open>DoubleLimitedHinge\<close>: period removed, clamped to
  \<open>[-HALF_PI, HALF_PI]\<close>, then ordered.\<close>

definition clamp_half_pi :: "real \<Rightarrow> real" where
  "clamp_half_pi a =
     (let a' = remove_multiples_of_two_pi a
      in if a' > pi / 2 then pi / 2 else if a' < - (pi / 2) then - (pi / 2) else a')"

definition pitch_limits :: "real \<Rightarrow> real \<Rightarrow> real \<times> real" where
  "pitch_limits min_pitch max_pitch =
     (let mn = clamp_half_pi min_pitch; mx = clamp_half_pi max_pitch
      in if mn > mx then (mx, mn) else (mn, mx))"

definition make_DoubleLimitedHinge :: "constraint_def \<Rightarrow> constraint" where
  "make_DoubleLimitedHinge p =
     (let f = base_forward p;
          u = v_normalize (v_cross f (v_cross (def_up_axis p) f));
          (ymin, ymax) = compute_angle_limits (def_min_yaw p * DEG_TO_RAD) (def_max_yaw p * DEG_TO_RAD);
          (pmin, pmax) = pitch_limits (def_min_pitch p * DEG_TO_RAD) (def_max_pitch p * DEG_TO_RAD)
      in DoubleLimitedHinge \<lparr>dh_forward = f, dh_up = u, dh_left = v_cross u f,
           dh_min_yaw = ymin, dh_max_yaw = ymax, dh_min_pitch = pmin, dh_max_pitch = pmax\<rparr>)"

section \<open>The factory\<close>

text \<open>\<open>LLIKConstraintFactory::create\<close>: dispatch on the upper-cased type name; an
  unknown name yields the null pointer (\<open>None\<close>).\<close>

definition create :: "constraint_def \<Rightarrow> constraint option" where
  "create p =
     (let t = to_upper (def_type p)
      in if t = SIMPLE_CONE_CONSTRAINT_NAME then Some (make_SimpleCone p)
         else if t = TWIST_LIMITED_CONE_CONSTRAINT_NAME then Some (make_TwistLimitedCone p)
         else if t = SHOULDER_CONSTRAINT_NAME then Some (make_ShoulderConstraint p)
         else if t = ELBOW_CONSTRAINT_NAME then Some (make_ElbowConstraint p)
         else if t = KNEE_CONSTRAINT_NAME then Some (make_KneeConstraint p)
         else if t = ACUTE_ELLIPSOIDAL_CONE_CONSTRAINT_NAME then Some (make_AcuteEllipsoidalCone p)
         else if t = DOUBLE_LIMITED_HINGE_CONSTRAINT_NAME then Some (make_DoubleLimitedHinge p)
         else None)"

text \<open>
  The factory's state: the cache from \<open>generateHash()\<close> to the shared instance
  (\<open>mConstraints\<close>) and the joint-name mapping (\<open>mJointMapping\<close>). The hash is a
  parameter \<open>h\<close>: \<open>boost::hash_combine\<close> over the members is not modelled, only that
  the cache is keyed by it.
\<close>

record factory =
  f_constraints :: "nat \<rightharpoonup> constraint"
  f_joint_mapping :: "string \<rightharpoonup> constraint"

definition getConstraint :: "(constraint \<Rightarrow> nat) \<Rightarrow> factory \<Rightarrow> constraint_def \<Rightarrow> factory \<times> constraint option" where
  "getConstraint h fac d =
     (case create d of
        None \<Rightarrow> (fac, None)
      | Some c \<Rightarrow>
          (case f_constraints fac (h c) of
             None \<Rightarrow> (fac\<lparr>f_constraints := (f_constraints fac)(h c \<mapsto> c)\<rparr>, Some c)
           | Some c' \<Rightarrow> (fac, Some c')))"

text \<open>\<open>processConstraintMappings\<close>: the definitions in the order of the LLSD map;
  \<open>unordered_map::insert\<close> keeps an existing entry.\<close>

fun processConstraintMappings :: "(constraint \<Rightarrow> nat) \<Rightarrow> factory \<Rightarrow> (string \<times> constraint_def) list \<Rightarrow> factory" where
  "processConstraintMappings h fac [] = fac"
| "processConstraintMappings h fac ((name, d) # ds) =
     (let (fac', c) = getConstraint h fac d;
          fac'' = (case c of
                     None \<Rightarrow> fac'
                   | Some k \<Rightarrow> (if f_joint_mapping fac' name = None
                                then fac'\<lparr>f_joint_mapping := (f_joint_mapping fac')(name \<mapsto> k)\<rparr>
                                else fac'))
      in processConstraintMappings h fac'' ds)"

definition getConstraintByName :: "factory \<Rightarrow> string \<Rightarrow> constraint option" where
  "getConstraintByName fac name = f_joint_mapping fac name"

section \<open>Invariant of the factory and example inputs\<close>

text \<open>Every cached constraint is stored under its own hash.\<close>

definition cache_wf :: "(constraint \<Rightarrow> nat) \<Rightarrow> factory \<Rightarrow> bool" where
  "cache_wf h fac \<longleftrightarrow> (\<forall>k c. f_constraints fac k = Some c \<longrightarrow> h c = k)"

text \<open>The factory invariant: the cache is keyed by hash, and every constraint mapped to a
  joint name is the cache's instance for its hash (joints share constraints).\<close>

definition factory_wf :: "(constraint \<Rightarrow> nat) \<Rightarrow> factory \<Rightarrow> bool" where
  "factory_wf h fac \<longleftrightarrow>
     cache_wf h fac \<and> (\<forall>n c. f_joint_mapping fac n = Some c \<longrightarrow> f_constraints fac (h c) = Some c)"

text \<open>The factory before \<open>initSingleton\<close> loads the mappings, and an elbow definition
  with lower-case type name, used as concrete inputs below.\<close>

definition empty_factory :: factory where
  "empty_factory = \<lparr>f_constraints = Map.empty, f_joint_mapping = Map.empty\<rparr>"

definition example_elbow :: constraint_def where
  "example_elbow =
     \<lparr>def_type = ''Elbow'', def_forward_axis = x_axis, def_pivot_axis = z_axis, def_up_axis = z_axis,
      def_max_angle = 0, def_cone_angle = 0, def_min_twist = 0, def_max_twist = 0,
      def_min_bend = 0, def_max_bend = pi / 2, def_min_yaw = 0, def_max_yaw = 0, def_min_pitch = 0,
      def_max_pitch = 0, def_forward = 0, def_up = 0, def_down = 0, def_left = 0, def_right = 0\<rparr>"

section \<open>Lemmas: names and factory dispatch\<close>

lemma to_upper_char_idem: "to_upper_char (to_upper_char c) = to_upper_char c"
  by (auto simp: to_upper_char_def Let_def)

lemma to_upper_idem: "to_upper (to_upper s) = to_upper s"
  by (simp add: to_upper_def comp_def to_upper_char_idem)

lemmas make_defs = make_SimpleCone_def make_TwistLimitedCone_def make_ShoulderConstraint_def
  make_ElbowConstraint_def make_KneeConstraint_def make_AcuteEllipsoidalCone_def
  make_DoubleLimitedHinge_def

text \<open>C15: for every constraint type other than the null and unknown ones, \<open>create\<close> on a definition named by \<open>constraint_type_to_name\<close> builds a constraint of that type (name and type round-trip).\<close>

lemma create_type_name_roundtrip:
  assumes "t \<noteq> NULL_CONSTRAINT" "t \<noteq> UNKNOWN_CONSTRAINT"
  shows "map_option getType (create (p\<lparr>def_type := constraint_type_to_name t\<rparr>)) = Some t"
  using assms
  by (cases t) (simp_all add: create_def Let_def constraint_name_defs to_upper_def to_upper_char_def
     make_defs split_def)

lemma create_type_name_roundtrip_witness:
  "map_option getType (create (example_elbow\<lparr>def_type := constraint_type_to_name KNEE_CONSTRAINT\<rparr>))
   = Some KNEE_CONSTRAINT"
  by (rule create_type_name_roundtrip) simp_all

text \<open>The type name is matched case-insensitively: \<open>elbow\<close> builds an elbow constraint.\<close>

lemma create_lower_case_name:
  "create (p\<lparr>def_type := ''elbow''\<rparr>) = Some (make_ElbowConstraint (p\<lparr>def_type := ''elbow''\<rparr>))"
  by (simp add: create_def Let_def constraint_name_defs to_upper_def to_upper_char_def char_of_eq_iff)

lemma concrete_type_names:
  "constraint_type_to_name ` (UNIV - {NULL_CONSTRAINT, UNKNOWN_CONSTRAINT}) =
     {SIMPLE_CONE_CONSTRAINT_NAME, TWIST_LIMITED_CONE_CONSTRAINT_NAME, SHOULDER_CONSTRAINT_NAME,
      ELBOW_CONSTRAINT_NAME, KNEE_CONSTRAINT_NAME, ACUTE_ELLIPSOIDAL_CONE_CONSTRAINT_NAME,
      DOUBLE_LIMITED_HINGE_CONSTRAINT_NAME}"
proof -
  have "UNIV - {NULL_CONSTRAINT, UNKNOWN_CONSTRAINT} =
      {SIMPLE_CONE_CONSTRAINT, TWIST_LIMITED_CONE_CONSTRAINT, SHOULDER_CONSTRAINT, ELBOW_CONSTRAINT,
       KNEE_CONSTRAINT, ACUTE_ELLIPSOIDAL_CONE_CONSTRAINT, DOUBLE_LIMITED_HINGE_CONSTRAINT}"
    by (auto intro: constraint_type.exhaust)
  then show ?thesis by simp
qed

text \<open>C22: \<open>create\<close> returns the null pointer exactly when the upper-cased type name is not
  the name of one of the seven concrete constraint types: the null and unknown names, and every
  other string, build no constraint.\<close>

lemma create_None_iff:
  "create p = None \<longleftrightarrow>
     to_upper (def_type p) \<notin> constraint_type_to_name ` (UNIV - {NULL_CONSTRAINT, UNKNOWN_CONSTRAINT})"
  unfolding concrete_type_names by (simp add: create_def Let_def)

lemma create_None_iff_example:
  "create (example_elbow\<lparr>def_type := ''unknown_constraint''\<rparr>) = None
   \<and> create (example_elbow\<lparr>def_type := ''Knee''\<rparr>) \<noteq> None"
  by (simp add: create_None_iff concrete_type_names constraint_name_defs to_upper_def
      to_upper_char_def char_of_eq_iff)

section \<open>Lemmas: pitch limits of the double-limited hinge\<close>

lemma clamp_half_pi_bounds: "- (pi / 2) \<le> clamp_half_pi a \<and> clamp_half_pi a \<le> pi / 2"
  using pi_gt_zero by (auto simp: clamp_half_pi_def Let_def)

text \<open>C23: the pitch limits of a double-limited hinge are ordered and lie in \<open>[-pi/2, pi/2]\<close>.\<close>

lemma pitch_limits_bounds:
  assumes "pitch_limits a b = (lo, hi)"
  shows "- (pi / 2) \<le> lo \<and> lo \<le> hi \<and> hi \<le> pi / 2"
  using assms clamp_half_pi_bounds [of a] clamp_half_pi_bounds [of b]
  by (auto simp: pitch_limits_def Let_def split: if_splits)

lemma pitch_limits_bounds_witness:
  "- (pi / 2) \<le> fst (pitch_limits 3 (- 3)) \<and> fst (pitch_limits 3 (- 3)) \<le> snd (pitch_limits 3 (- 3))
   \<and> snd (pitch_limits 3 (- 3)) \<le> pi / 2"
  by (rule pitch_limits_bounds) simp

section \<open>Lemmas: the constraint cache\<close>

lemma getConstraint_cases:
  "getConstraint h fac d = (fac', r) \<Longrightarrow>
     (create d = None \<and> fac' = fac \<and> r = None)
   \<or> (\<exists>c. create d = Some c \<and> f_constraints fac (h c) = None
        \<and> fac' = fac\<lparr>f_constraints := (f_constraints fac)(h c \<mapsto> c)\<rparr> \<and> r = Some c)
   \<or> (\<exists>c c'. create d = Some c \<and> f_constraints fac (h c) = Some c' \<and> fac' = fac \<and> r = Some c')"
  by (auto simp: getConstraint_def split: option.splits)

text \<open>\<open>getConstraint\<close> keeps the cache keyed by hash.\<close>

lemma getConstraint_cache_wf:
  "cache_wf h fac \<Longrightarrow> getConstraint h fac d = (fac', r) \<Longrightarrow> cache_wf h fac'"
  by (drule getConstraint_cases) (auto simp: cache_wf_def split: if_splits)

text \<open>C17: after \<open>getConstraint\<close> returns a constraint, the cache holds it under the hash of the freshly built one, and no earlier cache entry is lost: equal definitions share one instance.\<close>

lemma getConstraint_shares:
  assumes "cache_wf h fac" "getConstraint h fac d = (fac', Some c)" "create d = Some c0"
  shows "h c = h c0 \<and> f_constraints fac' (h c0) = Some c \<and> f_constraints fac \<subseteq>\<^sub>m f_constraints fac'"
  using getConstraint_cases [OF assms(2)] assms(1,3)
  by (auto simp: cache_wf_def map_le_def)

lemma getConstraint_example:
  "getConstraint (\<lambda>_. 0) empty_factory example_elbow
   = (empty_factory\<lparr>f_constraints := [0 \<mapsto> make_ElbowConstraint example_elbow]\<rparr>,
      Some (make_ElbowConstraint example_elbow))"
  by (simp add: getConstraint_def create_def example_elbow_def empty_factory_def constraint_name_defs
      to_upper_def to_upper_char_def char_of_eq_iff)

lemma cache_wf_empty: "cache_wf h empty_factory"
  by (simp add: cache_wf_def empty_factory_def)

lemma getConstraint_shares_witness:
  "f_constraints (empty_factory\<lparr>f_constraints := [0 \<mapsto> make_ElbowConstraint example_elbow]\<rparr>) 0
   = Some (make_ElbowConstraint example_elbow)"
proof -
  have "create example_elbow = Some (make_ElbowConstraint example_elbow)"
    by (simp add: create_def example_elbow_def constraint_name_defs to_upper_def to_upper_char_def
        char_of_eq_iff)
  from getConstraint_shares [OF cache_wf_empty getConstraint_example this] show ?thesis by simp
qed

text \<open>C25: \<open>processConstraintMappings\<close> preserves the factory invariant: the cache stays
  keyed by hash and every joint name is mapped to the cache's shared instance.\<close>

lemma processConstraintMappings_wf:
  "factory_wf h fac \<Longrightarrow> factory_wf h (processConstraintMappings h fac ds)"
proof (induction h fac ds rule: processConstraintMappings.induct)
  case (1 h fac)
  then show ?case by simp
next
  case (2 h fac name d ds)
  obtain fac' r where g: "getConstraint h fac d = (fac', r)" by fastforce
  have wf': "cache_wf h fac'" using getConstraint_cache_wf [of h fac d fac' r] 2(2) g
    by (simp add: factory_wf_def)
  have le: "f_constraints fac \<subseteq>\<^sub>m f_constraints fac'" "f_joint_mapping fac' = f_joint_mapping fac"
    using getConstraint_cases [OF g] by (auto simp: map_le_def)
  have jm: "\<forall>n c. f_joint_mapping fac' n = Some c \<longrightarrow> f_constraints fac' (h c) = Some c"
    using 2(2) le by (auto simp: factory_wf_def map_le_def dom_def)
  have new: "f_constraints fac' (h c) = Some c" if rc: "r = Some c" for c
  proof -
    obtain c0 where "create d = Some c0" using getConstraint_cases [OF g] rc by fastforce
    with getConstraint_shares [of h fac d fac' c c0] g rc 2(2) show ?thesis
      by (auto simp: factory_wf_def)
  qed
  define fac'' where "fac'' = (case r of
      None \<Rightarrow> fac'
    | Some k \<Rightarrow> (if f_joint_mapping fac' name = None
                 then fac'\<lparr>f_joint_mapping := (f_joint_mapping fac')(name \<mapsto> k)\<rparr> else fac'))"
  have wf'': "factory_wf h fac''"
    using wf' jm new by (auto simp: fac''_def factory_wf_def cache_wf_def split: option.splits)
  have "factory_wf h (processConstraintMappings h fac'' ds)"
    using 2(1) [OF g [symmetric]] wf'' unfolding fac''_def by blast
  then show ?case by (simp add: g fac''_def)
qed

lemma processConstraintMappings_wf_witness:
  "factory_wf (\<lambda>_. 0) (processConstraintMappings (\<lambda>_. 0) empty_factory [(''mElbowLeft'', example_elbow)])"
  by (rule processConstraintMappings_wf) (simp add: factory_wf_def cache_wf_def empty_factory_def)

end
