(* ===== verification/IK_Joint.thy ===== *)
theory IK_Joint
  imports IK_Config IK_Constraint
begin

unbundle bit_operations_syntax

text \<open>
  \<open>LLIK::Joint\<close>: one bone of the skeleton. The C++ object is reached through
  shared pointers held by the solver's \<open>mSkeleton\<close> map, by its parent's
  \<open>mChildren\<close> and by chains; here a joint is a record and a pointer to it is the
  key under which the solver's map stores it (\<open>j_parent\<close>, \<open>j_children\<close>). The
  \<open>LLJoint\<close> info object is the record \<open>joint_info\<close> (rest position, rest end, rest
  scale, joint number). \<open>mConfig\<close>, a pointer into the solver's configuration map,
  is the key of that entry (\<open>j_config\<close>). This theory holds the operations that
  read and write one joint only; the ones that also read the parent or the skeleton
  (\<open>setParent\<close>, \<open>reset\<close>, \<open>relaxRot\<close>) are in \<open>IK_Solver\<close> and \<open>IK_Solve\<close>.
\<close>

record joint_info =
  info_position :: vec3
  info_end :: vec3
  info_scale :: vec3
  info_joint_num :: joint_id

record joint =
  j_children :: "joint_id list"
  j_local_pos :: vec3
  j_pos :: vec3
  j_local_rot :: quat
  j_rot :: quat
  j_local_scale :: vec3
  j_bone :: vec3
  j_parent :: "joint_id option"
  j_constraint :: "constraint option"
  j_local_pos_length :: real
  j_id :: joint_id
  j_info :: joint_info
  j_config :: "joint_id option"
  j_config_flags :: u8
  j_ik_flags :: u8

section \<open>Construction and reset from the info\<close>

definition resetFromInfo :: "joint \<Rightarrow> joint" where
  "resetFromInfo j =
     (let scale = info_scale (j_info j);
          lp = v_scaled (info_position (j_info j)) scale
      in j\<lparr>j_local_pos := lp, j_bone := v_scaled (info_end (j_info j)) scale,
           j_local_pos_length := v_length lp,
           j_local_scale := \<lparr>vx = 1, vy = 1, vz = 1\<rparr>\<rparr>)"

text \<open>\<open>Joint(LLJoint* info)\<close>: members start at their in-class defaults.\<close>

definition new_joint :: "joint_info \<Rightarrow> joint" where
  "new_joint info =
     resetFromInfo
       \<lparr>j_children = [], j_local_pos = v_zero, j_pos = v_zero, j_local_rot = q_identity,
        j_rot = q_identity, j_local_scale = v_zero, j_bone = v_zero, j_parent = None,
        j_constraint = None, j_local_pos_length = 0, j_id = info_joint_num info, j_info = info,
        j_config = None, j_config_flags = 0, j_ik_flags = 0\<rparr>"

definition addChild :: "joint_id \<Rightarrow> joint \<Rightarrow> joint" where
  "addChild c j = j\<lparr>j_children := j_children j @ [c]\<rparr>"

definition setConstraint :: "constraint option \<Rightarrow> joint \<Rightarrow> joint" where
  "setConstraint c j = j\<lparr>j_constraint := c\<rparr>"

section \<open>Flags\<close>

definition activate :: "joint \<Rightarrow> joint" where
  "activate j = j\<lparr>j_ik_flags := j_ik_flags j OR IK_FLAG_ACTIVE\<rparr>"

definition isActive :: "joint \<Rightarrow> bool" where
  "isActive j \<longleftrightarrow> has_flag (j_ik_flags j) IK_FLAG_ACTIVE"

definition localRotLocked :: "joint \<Rightarrow> bool" where
  "localRotLocked j \<longleftrightarrow> has_flag (j_ik_flags j) IK_FLAG_LOCAL_ROT_LOCKED"

definition flagForHarvest :: "joint \<Rightarrow> joint" where
  "flagForHarvest j = j\<lparr>j_ik_flags := j_ik_flags j OR IK_FLAG_LOCAL_ROT\<rparr>"

definition hasPosTarget :: "joint \<Rightarrow> bool" where
  "hasPosTarget j \<longleftrightarrow> has_flag (j_config_flags j) CONFIG_FLAG_TARGET_POS"

definition hasRotTarget :: "joint \<Rightarrow> bool" where
  "hasRotTarget j \<longleftrightarrow> has_flag (j_config_flags j) CONFIG_FLAG_TARGET_ROT"

definition hasDisabledConstraint :: "joint \<Rightarrow> bool" where
  "hasDisabledConstraint j \<longleftrightarrow> has_flag (j_config_flags j) CONFIG_FLAG_DISABLE_CONSTRAINT"

definition getHarvestFlags :: "joint \<Rightarrow> u8" where
  "getHarvestFlags j = (j_config_flags j OR j_ik_flags j) AND MASK_LOCAL"

text \<open>\<open>setConfig\<close> stores the pointer (the key of the entry) and caches its flags.\<close>

definition setConfig :: "joint_id \<Rightarrow> config \<Rightarrow> joint \<Rightarrow> joint" where
  "setConfig k c j = j\<lparr>j_config := Some k, j_config_flags := cfg_flags c\<rparr>"

text \<open>\<open>resetFlags\<close>: the root (no parent) keeps its local rotation locked.\<close>

definition resetFlags :: "joint \<Rightarrow> joint" where
  "resetFlags j =
     j\<lparr>j_config := None, j_config_flags := 0,
       j_ik_flags := (if j_parent j = None then IK_FLAG_LOCAL_ROT_LOCKED else 0)\<rparr>"

definition lockLocalRot :: "quat \<Rightarrow> joint \<Rightarrow> joint" where
  "lockLocalRot q j =
     (let j' = activate (j\<lparr>j_local_rot := q, j_ik_flags := j_ik_flags j OR IK_FLAG_LOCAL_ROT_LOCKED\<rparr>)
      in if j_parent j = None then j'\<lparr>j_rot := q\<rparr> else j')"

section \<open>Local geometry\<close>

definition setLocalPos :: "vec3 \<Rightarrow> joint \<Rightarrow> joint" where
  "setLocalPos p j =
     (let lp = v_scaled p (j_local_scale j);
          j' = j\<lparr>j_local_pos := lp, j_local_pos_length := v_length lp\<rparr>
      in if j_parent j = None then j'\<lparr>j_pos := lp\<rparr> else j')"

definition setLocalRot :: "quat \<Rightarrow> joint \<Rightarrow> joint" where
  "setLocalRot q j = (if localRotLocked j then j else j\<lparr>j_local_rot := q\<rparr>)"

text \<open>\<open>setLocalScale\<close>: the ratio to the previous tweak, with a component whose previous
  scale is not above \<open>MIN_INVERTABLE_SCALE\<close> zeroed.\<close>

definition MIN_INVERTABLE_SCALE :: real where
  "MIN_INVERTABLE_SCALE = 1 / 10 ^ 15"

definition rescale_component :: "real \<Rightarrow> real \<Rightarrow> real" where
  "rescale_component new old = (if old > MIN_INVERTABLE_SCALE then new / old else 0)"

definition setLocalScale :: "vec3 \<Rightarrow> joint \<Rightarrow> joint" where
  "setLocalScale s j =
     (let old = j_local_scale j;
          re = \<lparr>vx = rescale_component (vx s) (vx old), vy = rescale_component (vy s) (vy old),
                vz = rescale_component (vz s) (vz old)\<rparr>;
          lp = v_scaled (j_local_pos j) re
      in j\<lparr>j_local_scale := s, j_bone := v_scaled (j_bone j) re, j_local_pos := lp,
           j_local_pos_length := v_length lp\<rparr>)"

definition setWorldPos :: "vec3 \<Rightarrow> joint \<Rightarrow> joint" where
  "setWorldPos p j = j\<lparr>j_pos := p\<rparr>"

definition setWorldRot :: "quat \<Rightarrow> joint \<Rightarrow> joint" where
  "setWorldRot q j = j\<lparr>j_rot := q\<rparr>"

definition shiftPos :: "vec3 \<Rightarrow> joint \<Rightarrow> joint" where
  "shiftPos d j = j\<lparr>j_pos := v_add (j_pos j) d\<rparr>"

definition computeWorldEndPos :: "joint \<Rightarrow> vec3" where
  "computeWorldEndPos j = v_add (j_pos j) (v_rot (j_bone j) (j_rot j))"

end
