(* ===== verification/IK_Solver.thy ===== *)
theory IK_Solver
  imports IK_Joint
begin

text \<open>
  \<open>LLIK::Solver\<close>: its state, skeleton construction (\<open>addJoint\<close>), the sub-base and
  sub-root whitelists, and \<open>buildChain\<close>, the walk from an effector toward the root
  that the chain builder repeats. The three \<open>std::map\<close> members are ordered maps
  (\<open>omap\<close>), the \<open>std::set\<close> members ordered sets (\<open>oset\<close>). \<open>mActiveRoots\<close> is a
  \<open>std::set\<close> of shared pointers, ordered by address in the C++; here it is a set of
  keys, ordered by key. A dereference of a null pointer, undefined in C++, is the
  error value \<open>NullDeref\<close>; reading the first element of an empty chain vector is
  \<open>EmptyChain\<close>.
\<close>

datatype ik_error = NullDeref joint_id | DanglingConfig joint_id | EmptyChain joint_id

record solver =
  s_skeleton :: "(joint_id, joint) omap"
  s_configs :: "(joint_id, config) omap"
  s_chains :: "(joint_id, joint_id list) omap"
  s_sub_base_ids :: "joint_id oset"
  s_sub_root_ids :: "joint_id oset"
  s_active_roots :: "joint_id oset"
  s_active_joints :: "joint_id list"
  s_wrist_joints :: "joint_id list"
  s_acceptable_error :: real
  s_last_error :: real
  s_root_id :: joint_id

definition IK_DEFAULT_ACCEPTABLE_ERROR :: real where
  "IK_DEFAULT_ACCEPTABLE_ERROR = 5 / 10000"

definition new_solver :: solver where
  "new_solver =
     \<lparr>s_skeleton = [], s_configs = [], s_chains = [], s_sub_base_ids = [], s_sub_root_ids = [],
      s_active_roots = [], s_active_joints = [], s_wrist_joints = [],
      s_acceptable_error = IK_DEFAULT_ACCEPTABLE_ERROR, s_last_error = 0, s_root_id = -1\<rparr>"

section \<open>Access to joints through the skeleton map\<close>

definition sk_get :: "solver \<Rightarrow> joint_id \<Rightarrow> joint option" where
  "sk_get s k = map_of (s_skeleton s) k"

definition sk_modify :: "joint_id \<Rightarrow> (joint \<Rightarrow> joint) \<Rightarrow> solver \<Rightarrow> solver" where
  "sk_modify k f s = s\<lparr>s_skeleton := omap_modify k f (s_skeleton s)\<rparr>"

definition sk_active :: "solver \<Rightarrow> joint_id \<Rightarrow> bool" where
  "sk_active s k \<longleftrightarrow> (case sk_get s k of None \<Rightarrow> False | Some j \<Rightarrow> isActive j)"

definition setRootID :: "joint_id \<Rightarrow> solver \<Rightarrow> solver" where
  "setRootID r s = s\<lparr>s_root_id := r\<rparr>"

definition setSubBaseIds :: "joint_id oset \<Rightarrow> solver \<Rightarrow> solver" where
  "setSubBaseIds ids s = s\<lparr>s_sub_base_ids := ids\<rparr>"

definition setSubRootIds :: "joint_id oset \<Rightarrow> solver \<Rightarrow> solver" where
  "setSubRootIds ids s = s\<lparr>s_sub_root_ids := ids\<rparr>"

definition isSubBase :: "solver \<Rightarrow> joint_id \<Rightarrow> bool" where
  "isSubBase s k \<longleftrightarrow> k \<in> set (s_sub_base_ids s)"

definition isSubRoot :: "solver \<Rightarrow> joint_id \<Rightarrow> bool" where
  "isSubRoot s k \<longleftrightarrow> s_sub_root_ids s \<noteq> [] \<and> k \<in> set (s_sub_root_ids s)"

section \<open>Adding joints\<close>

text \<open>\<open>Joint::reset\<close> as \<open>setParent\<close> runs it: local rotation to identity, world
  transform from the parent (or the local one for a root).\<close>

definition reset_from_parent :: "joint option \<Rightarrow> joint \<Rightarrow> joint" where
  "reset_from_parent par j =
     (let j1 = (resetFromInfo j)\<lparr>j_local_rot := q_identity\<rparr>
      in case par of
           Some p \<Rightarrow> j1\<lparr>j_pos := v_add (j_pos p) (v_rot (j_local_pos j1) (j_rot p)), j_rot := j_rot p\<rparr>
         | None \<Rightarrow> j1\<lparr>j_pos := j_local_pos j1, j_rot := j_local_rot j1\<rparr>)"

text \<open>\<open>Joint::setParent\<close>: a parentless joint gets its local rotation locked.\<close>

definition setParent :: "(joint_id \<times> joint) option \<Rightarrow> joint \<Rightarrow> joint" where
  "setParent par j =
     (let j1 = j\<lparr>j_parent := map_option fst par,
                 j_ik_flags := (if par = None then IK_FLAG_LOCAL_ROT_LOCKED else j_ik_flags j)\<rparr>
      in reset_from_parent (map_option snd par) j1)"

text \<open>\<open>Solver::addJoint\<close>: a negative or duplicate id, or a missing parent whose id is
  not below the root id, leaves the solver unchanged (the C++ only logs a warning).\<close>

definition addJoint :: "joint_id \<Rightarrow> joint_id \<Rightarrow> joint_info \<Rightarrow> constraint option \<Rightarrow> solver \<Rightarrow> solver" where
  "addJoint joint_id parent_id info c s =
     (if joint_id < 0 then s
      else if sk_get s joint_id \<noteq> None then s
      else
        (case sk_get s parent_id of
           None \<Rightarrow>
             (if parent_id \<ge> s_root_id s then s
              else s\<lparr>s_skeleton := omap_update joint_id
                       (setConstraint c (setParent None (new_joint info))) (s_skeleton s)\<rparr>)
         | Some p \<Rightarrow>
             let s1 = sk_modify parent_id (addChild joint_id) s
             in s1\<lparr>s_skeleton := omap_update joint_id
                      (setConstraint c (setParent (Some (parent_id, p)) (new_joint info))) (s_skeleton s1)\<rparr>))"

definition addWristID :: "joint_id \<Rightarrow> solver \<Rightarrow> solver" where
  "addWristID k s = (if sk_get s k = None then s else s\<lparr>s_wrist_joints := s_wrist_joints s @ [k]\<rparr>)"

section \<open>buildChain\<close>

text \<open>
  The loop of \<open>buildChain\<close>: while there is a joint and the chain is shorter than
  \<open>chain_length\<close>, append it and activate it, then stop at a sub-root, the root, a
  position-targeted joint, or a sub-base (which is queued); otherwise go to the parent.
  A key absent from the skeleton (never the case for a parent pointer) ends the walk.
\<close>

function build_chain_loop ::
  "solver \<Rightarrow> joint_id option \<Rightarrow> joint_id list \<Rightarrow> joint_id oset \<Rightarrow> nat
   \<Rightarrow> solver \<times> joint_id list \<times> joint_id oset" where
  "build_chain_loop s jo chain sub_bases chain_length =
     (case jo of
        None \<Rightarrow> (s, chain, sub_bases)
      | Some k \<Rightarrow>
          (case sk_get s k of
             None \<Rightarrow> (s, chain, sub_bases)
           | Some j \<Rightarrow>
               (if length chain < chain_length then
                  (let s1 = sk_modify k activate s;
                       chain1 = chain @ [k];
                       jid = j_id j
                   in if isSubRoot s jid then (s1, chain1, sub_bases)
                      else if jid = s_root_id s then (s1, chain1, sub_bases)
                      else if hasPosTarget j then (s1, chain1, sub_bases)
                      else if (s_sub_base_ids s = [] \<and> length (j_children j) > 1) \<or> isSubBase s jid
                      then (s1, chain1, oset_insert jid sub_bases)
                      else build_chain_loop s1 (j_parent j) chain1 sub_bases chain_length)
                else (s, chain, sub_bases))))"
  by pat_completeness auto
termination
  by (relation "measure (\<lambda>(s, jo, chain, sb, n). n - length chain)") auto

definition buildChain :: "joint_id \<Rightarrow> joint_id oset \<Rightarrow> nat \<Rightarrow> solver \<Rightarrow> solver \<times> joint_id list \<times> joint_id oset" where
  "buildChain k sub_bases chain_length s =
     (let s1 = sk_modify k activate s
      in build_chain_loop s1 (case sk_get s k of None \<Rightarrow> None | Some j \<Rightarrow> j_parent j)
           [k] sub_bases chain_length)"


section \<open>Walks of the chain builder\<close>

text \<open>\<open>activate_all ks\<close> flags every key of \<open>ks\<close> active, in order; \<open>is_walk s jo ks\<close> says
  that \<open>ks\<close> follows parent pointers from \<open>jo\<close>; \<open>passes s k\<close> that the walk goes on
  through \<open>k\<close>; \<open>is_sub_base_stop\<close> that it stops at \<open>k\<close> by queueing a sub-base.\<close>

abbreviation activate_all :: "joint_id list \<Rightarrow> solver \<Rightarrow> solver" where
  "activate_all ks s \<equiv> fold (\<lambda>k. sk_modify k activate) ks s"

fun is_walk :: "solver \<Rightarrow> joint_id option \<Rightarrow> joint_id list \<Rightarrow> bool" where
  "is_walk s jo [] = True"
| "is_walk s jo (k # ks) =
     (jo = Some k \<and> (case sk_get s k of None \<Rightarrow> False | Some j \<Rightarrow> is_walk s (j_parent j) ks))"

definition passes :: "solver \<Rightarrow> joint_id \<Rightarrow> bool" where
  "passes s k \<longleftrightarrow>
     (case sk_get s k of
        None \<Rightarrow> False
      | Some j \<Rightarrow> \<not> isSubRoot s (j_id j) \<and> j_id j \<noteq> s_root_id s \<and> \<not> hasPosTarget j
                  \<and> \<not> ((s_sub_base_ids s = [] \<and> length (j_children j) > 1) \<or> isSubBase s (j_id j)))"

definition is_sub_base_stop :: "solver \<Rightarrow> joint \<Rightarrow> bool" where
  "is_sub_base_stop s j \<longleftrightarrow>
     \<not> isSubRoot s (j_id j) \<and> j_id j \<noteq> s_root_id s \<and> \<not> hasPosTarget j
     \<and> ((s_sub_base_ids s = [] \<and> length (j_children j) > 1) \<or> isSubBase s (j_id j))"

text \<open>A skeleton used as concrete input: the chain \<open>0 - 1 - 2\<close> with two children \<open>3\<close>
  and \<open>4\<close> of joint \<open>2\<close>, joint \<open>0\<close> the root, every info with the joint's own number.\<close>

definition demo_info :: "joint_id \<Rightarrow> joint_info" where
  "demo_info k = \<lparr>info_position = x_axis, info_end = x_axis, info_scale = \<lparr>vx = 1, vy = 1, vz = 1\<rparr>,
                   info_joint_num = k\<rparr>"

definition demo_skeleton :: solver where
  "demo_skeleton =
     fold (\<lambda>(k, p). addJoint k p (demo_info k) None) [(0, -1), (1, 0), (2, 1), (3, 2), (4, 2)]
       (setRootID 0 new_solver)"

text \<open>The ids of the joints stored under the keys \<open>ks\<close>.\<close>

definition key_ids :: "solver \<Rightarrow> joint_id list \<Rightarrow> joint_id set" where
  "key_ids s ks = set (List.map_filter (\<lambda>x. map_option j_id (sk_get s x)) ks)"

section \<open>Lemmas on buildChain\<close>

lemma sk_get_sk_modify [omap_simps]:
  "sk_get (sk_modify k f s) k' = (if k' = k then map_option f (sk_get s k) else sk_get s k')"
  by (simp add: sk_get_def sk_modify_def map_of_omap_modify)

lemma activate_idem [simp]: "activate (activate j) = activate j"
  by (simp add: activate_def word_bw_assocs)

lemma fold_sk_modify_state:
  "fold (\<lambda>k. sk_modify k f) ks s = s\<lparr>s_skeleton := fold (\<lambda>k. omap_modify k f) ks (s_skeleton s)\<rparr>"
  by (induction ks arbitrary: s) (simp_all add: sk_modify_def)

lemma sk_get_activate_all:
  "sk_get (activate_all ks s) k' = (if k' \<in> set ks then map_option activate (sk_get s k') else sk_get s k')"
proof (induction ks arbitrary: s)
  case Nil
  then show ?case by simp
next
  case (Cons k ks)
  then show ?case by (auto simp: sk_get_sk_modify option.map_comp comp_def)
qed

lemma is_walk_cong:
  assumes "\<And>k. map_option j_parent (sk_get s' k) = map_option j_parent (sk_get s k)"
  shows "is_walk s' jo ks = is_walk s jo ks"
proof (induction ks arbitrary: jo)
  case Nil
  then show ?case by simp
next
  case (Cons k ks)
  have "map_option j_parent (sk_get s' k) = map_option j_parent (sk_get s k)" by (rule assms)
  then show ?case using Cons by (cases "sk_get s k"; cases "sk_get s' k") auto
qed

lemma is_walk_activate_all: "is_walk (activate_all xs s) jo ks = is_walk s jo ks"
  by (rule is_walk_cong) (simp add: sk_get_activate_all option.map_comp comp_def activate_def)

declare build_chain_loop.simps [simp del]

lemma build_chain_loop_None [simp]: "build_chain_loop s None chain sb n = (s, chain, sb)"
  by (simp add: build_chain_loop.simps)

lemma build_chain_loop_missing: "sk_get s k = None \<Longrightarrow> build_chain_loop s (Some k) chain sb n = (s, chain, sb)"
  by (simp add: build_chain_loop.simps)

lemma build_chain_loop_full:
  "\<not> length chain < n \<Longrightarrow> build_chain_loop s (Some k) chain sb n = (s, chain, sb)"
  by (simp add: build_chain_loop.simps split: option.split)

lemma build_chain_loop_stop:
  "sk_get s k = Some j \<Longrightarrow> length chain < n \<Longrightarrow> \<not> passes s k \<Longrightarrow>
   build_chain_loop s (Some k) chain sb n =
     (sk_modify k activate s, chain @ [k], if is_sub_base_stop s j then oset_insert (j_id j) sb else sb)"
proof -
  assume a: "sk_get s k = Some j" "length chain < n" "\<not> passes s k"
  then have "isSubRoot s (j_id j) \<or> j_id j = s_root_id s \<or> hasPosTarget j
      \<or> (s_sub_base_ids s = [] \<and> 1 < length (j_children j)) \<or> isSubBase s (j_id j)"
    by (simp add: passes_def)
  then show ?thesis
    using a(1,2) by (subst build_chain_loop.simps) (elim disjE; simp add: Let_def is_sub_base_stop_def)
qed

lemma build_chain_loop_step:
  "sk_get s k = Some j \<Longrightarrow> length chain < n \<Longrightarrow> passes s k \<Longrightarrow>
   build_chain_loop s (Some k) chain sb n = build_chain_loop (sk_modify k activate s) (j_parent j) (chain @ [k]) sb n"
  by (subst build_chain_loop.simps) (auto simp: passes_def Let_def)

lemma activate_all_fields [simp]:
  "s_sub_root_ids (activate_all xs s) = s_sub_root_ids s"
  "s_sub_base_ids (activate_all xs s) = s_sub_base_ids s"
  "s_root_id (activate_all xs s) = s_root_id s"
  "s_configs (activate_all xs s) = s_configs s"
  "s_chains (activate_all xs s) = s_chains s"
  by (simp_all add: fold_sk_modify_state)

lemma passes_activate_all: "passes (activate_all xs s) k = passes s k"
  unfolding passes_def sk_get_activate_all isSubRoot_def isSubBase_def activate_all_fields
  by (cases "sk_get s k") (simp_all add: hasPosTarget_def activate_def)

lemma key_ids_activate_all: "key_ids (activate_all xs s) ks = key_ids s ks"
proof -
  have "map_option j_id (sk_get (activate_all xs s) x) = map_option j_id (sk_get s x)" for x
    by (simp add: sk_get_activate_all option.map_comp comp_def activate_def)
  then show ?thesis by (simp add: key_ids_def)
qed

lemma build_chain_loop_walk:
  "build_chain_loop s jo chain sb n = (s', chain', sb') \<Longrightarrow>
   \<exists>ks. chain' = chain @ ks \<and> s' = activate_all ks s \<and> is_walk s jo ks
      \<and> (\<forall>k \<in> set (butlast ks). passes s k) \<and> length chain' \<le> max (length chain) n
      \<and> set sb' \<subseteq> set sb \<union> key_ids s ks"
proof (induction s jo chain sb n arbitrary: s' chain' sb' rule: build_chain_loop.induct)
  case (1 s jo chain sb n)
  consider (none) "jo = None" | (missing) k where "jo = Some k" "sk_get s k = None"
    | (full) k where "jo = Some k" "\<not> length chain < n"
    | (stop) k j where "jo = Some k" "sk_get s k = Some j" "length chain < n" "\<not> passes s k"
    | (step) k j where "jo = Some k" "sk_get s k = Some j" "length chain < n" "passes s k"
    by (cases jo; cases "sk_get s (the jo)") auto
  then show ?case
  proof cases
    case none
    with "1.prems" show ?thesis by (auto intro!: exI [of _ "[]"])
  next
    case missing
    with "1.prems" show ?thesis by (auto simp: build_chain_loop_missing intro!: exI [of _ "[]"])
  next
    case full
    with "1.prems" show ?thesis by (auto simp: build_chain_loop_full intro!: exI [of _ "[]"])
  next
    case stop
    with "1.prems" show ?thesis
      by (auto simp: build_chain_loop_stop key_ids_def map_filter_simps set_oset_insert
          split: if_split_asm intro!: exI [of _ "[k]"])
  next
    case step
    let ?s1 = "sk_modify k activate s"
    from step "1.prems" have rec: "build_chain_loop ?s1 (j_parent j) (chain @ [k]) sb n = (s', chain', sb')"
      by (simp add: build_chain_loop_step)
    have pass: "\<not> (isSubRoot s (j_id j) \<or> j_id j = s_root_id s \<or> hasPosTarget j
        \<or> (s_sub_base_ids s = [] \<and> 1 < length (j_children j)) \<or> isSubBase s (j_id j))"
      using step by (simp add: passes_def)
    obtain ks where ks: "chain' = chain @ [k] @ ks" "s' = activate_all ks ?s1"
        "is_walk ?s1 (j_parent j) ks" "\<forall>k \<in> set (butlast ks). passes ?s1 k"
        "length chain' \<le> max (length (chain @ [k])) n" "set sb' \<subseteq> set sb \<union> key_ids ?s1 ks"
      using "1.IH" [OF step(1) step(2) step(3) refl refl refl _ _ _ _ rec] pass by auto
    have "?s1 = activate_all [k] s" by simp
    then have w: "is_walk ?s1 (j_parent j) ks = is_walk s (j_parent j) ks"
      and p: "\<And>x. passes ?s1 x = passes s x"
      and i: "key_ids ?s1 ks = key_ids s ks"
      by (metis is_walk_activate_all, metis passes_activate_all, metis key_ids_activate_all)
    show ?thesis
    proof (rule exI [of _ "k # ks"], intro conjI)
      show "chain' = chain @ k # ks" using ks(1) by simp
      show "s' = activate_all (k # ks) s" using ks(2) by simp
      show "is_walk s jo (k # ks)" using ks(3) w step(1,2) by simp
      show "\<forall>x \<in> set (butlast (k # ks)). passes s x"
        using ks(4) p step(4) by (cases ks) auto
      show "length chain' \<le> max (length chain) n" using ks(1,5) step(3) by simp
      show "set sb' \<subseteq> set sb \<union> key_ids s (k # ks)"
        using ks(6) i step(2) by (auto simp: key_ids_def map_filter_simps)
    qed
  qed
qed


lemma isActive_activate [simp]: "isActive (activate j)"
  by (simp add: isActive_def activate_def IK_FLAG_ACTIVE_def has_flag_bits bit_or_iff)

lemma is_walk_in_skeleton: "is_walk s jo ks \<Longrightarrow> x \<in> set ks \<Longrightarrow> sk_get s x \<noteq> None"
  by (induction s jo ks rule: is_walk.induct) (auto split: option.splits)

lemmas demo_defs = demo_skeleton_def demo_info_def addJoint_def setRootID_def new_solver_def
  setConstraint_def setParent_def new_joint_def reset_from_parent_def resetFromInfo_def addChild_def
  sk_get_def sk_modify_def Let_def

lemma build_chain_loop_stop_chain:
  "sk_get s k \<noteq> None \<Longrightarrow> length chain < n \<Longrightarrow> \<not> passes s k \<Longrightarrow>
   fst (snd (build_chain_loop s (Some k) chain sb n)) = chain @ [k]"
  by (auto simp: build_chain_loop_stop)

text \<open>C1: \<open>buildChain k\<close> on a joint of the skeleton returns a chain that starts at \<open>k\<close>,
  follows parent pointers from \<open>k\<close>, is no longer than the chain limit (or one joint),
  and the returned solver is the input with exactly the chain's joints flagged active.\<close>

lemma buildChain_chain:
  assumes "buildChain k sb n s = (s', chain, sb')" "sk_get s k = Some j"
  shows "hd chain = k \<and> is_walk s (Some k) chain \<and> s' = activate_all chain s
         \<and> (\<forall>x \<in> set chain. sk_active s' x) \<and> length chain \<le> max 1 n"
proof -
  let ?s1 = "sk_modify k activate s"
  have "build_chain_loop ?s1 (j_parent j) [k] sb n = (s', chain, sb')"
    using assms by (simp add: buildChain_def)
  then obtain ks where ks: "chain = [k] @ ks" "s' = activate_all ks ?s1"
      "is_walk ?s1 (j_parent j) ks" "length chain \<le> max (length [k]) n"
    by (blast dest: build_chain_loop_walk)
  have "?s1 = activate_all [k] s" by simp
  then have "is_walk ?s1 (j_parent j) ks = is_walk s (j_parent j) ks"
    by (metis is_walk_activate_all)
  then have w: "hd chain = k \<and> is_walk s (Some k) chain \<and> s' = activate_all chain s
      \<and> length chain \<le> max 1 n"
    using ks assms(2) by simp
  then have "\<forall>x \<in> set chain. sk_active s' x"
    using is_walk_in_skeleton [of s "Some k" chain]
    by (fastforce simp: sk_active_def sk_get_activate_all)
  with w show ?thesis by blast
qed


lemma buildChain_chain_witness:
  "fst (snd (buildChain 4 [] 255 demo_skeleton)) = [4, 2]
   \<and> sk_active (fst (buildChain 4 [] 255 demo_skeleton)) 4
   \<and> sk_active (fst (buildChain 4 [] 255 demo_skeleton)) 2"
proof -
  obtain j where j: "sk_get demo_skeleton 4 = Some j"
    by (simp add: demo_defs)
  have p: "(case sk_get demo_skeleton 4 of None \<Rightarrow> None | Some x \<Rightarrow> j_parent x) = Some 2"
    by (simp add: demo_defs)
  have e: "fst (snd (buildChain 4 [] 255 demo_skeleton)) = [4, 2]"
    unfolding buildChain_def Let_def p
    by (subst build_chain_loop_stop_chain) (simp_all add: demo_defs passes_def isSubRoot_def isSubBase_def)
  obtain s' sb' where r: "buildChain 4 [] 255 demo_skeleton = (s', [4, 2], sb')"
    using e by (metis prod.collapse)
  from buildChain_chain [OF r j] have "\<forall>x \<in> set [4, 2]. sk_active s' x" by blast
  then show ?thesis using e r by simp
qed

end
