(* ===== verification/IK_Chains.thy ===== *)
theory IK_Chains
  imports IK_Solver
begin

unbundle bit_operations_syntax

text \<open>
  \<open>Solver::rebuildAllChains\<close>, stage by stage, as the C++ runs them:
  \<^enum> \<open>clear_chains\<close>: reset the flags of every joint on the old chains, clear the chain
    map and the active roots;
  \<^enum> \<open>apply_configs\<close>: for each configuration in ascending joint order, store it in its
    joint, seed the root's transform or lock a local rotation, build the chain of each
    targeted joint, adjust the target of a position-targeted parent
    (sequential-effector fixup), apply local position and scale;
  \<^enum> \<open>sub_base_loop\<close>: build a chain from every queued sub-base, generation after
    generation, until none is queued; the C++ \<open>while\<close> loop has no bound, so the model
    carries fuel and running out is \<open>None\<close>;
  \<^enum> \<open>make_joins\<close>: splice each chain that starts at a false sub-base onto the chain
    that ends there;
  \<^enum> \<open>collect_active_roots\<close> and \<open>collect_active_joints\<close>.
  A null dereference of the C++ is \<open>Inl\<close> of an \<open>ik_error\<close>.
\<close>

section \<open>Clearing the previous chains\<close>

definition clear_chains :: "solver \<Rightarrow> solver" where
  "clear_chains s =
     (let s1 = fold (\<lambda>k. sk_modify k resetFlags) (concat (map snd (s_chains s))) s
      in s1\<lparr>s_chains := [], s_active_roots := []\<rparr>)"

section \<open>Applying the configurations\<close>

text \<open>\<open>Joint::getTargetPos\<close> and \<open>Joint::setTargetPos\<close> go through the joint's pointer
  into the configuration map; \<open>setTargetPos\<close> writes only for a position-targeted joint.\<close>

definition joint_config :: "solver \<Rightarrow> joint \<Rightarrow> ik_error + config" where
  "joint_config s j =
     (case j_config j of
        None \<Rightarrow> Inl (NullDeref (j_id j))
      | Some ck \<Rightarrow> (case map_of (s_configs s) ck of
                      None \<Rightarrow> Inl (DanglingConfig ck)
                    | Some c \<Rightarrow> Inr c))"

definition joint_setTargetPos :: "joint \<Rightarrow> vec3 \<Rightarrow> solver \<Rightarrow> ik_error + solver" where
  "joint_setTargetPos j p s =
     (if hasPosTarget j then
        (case j_config j of
           None \<Rightarrow> Inl (NullDeref (j_id j))
         | Some ck \<Rightarrow> Inr (s\<lparr>s_configs := omap_modify ck (cfg_setTargetPos p) (s_configs s)\<rparr>))
      else Inr s)"

text \<open>The sequential-effector fixup: a position-targeted parent's target is moved to
  bone length from the child's target, along the direction it had.\<close>

definition sequential_fixup :: "joint_id \<Rightarrow> config \<Rightarrow> solver \<Rightarrow> ik_error + solver" where
  "sequential_fixup k c s =
     (case sk_get s k of
        None \<Rightarrow> Inr s
      | Some j \<Rightarrow>
          (case j_parent j of
             None \<Rightarrow> Inl (NullDeref k)
           | Some pk \<Rightarrow>
               (case sk_get s pk of
                  None \<Rightarrow> Inl (NullDeref pk)
                | Some p \<Rightarrow>
                    if hasPosTarget p then
                      (case joint_config s p of
                         Inl e \<Rightarrow> Inl e
                       | Inr pc \<Rightarrow>
                           let child_target = cfg_target_pos c;
                               dir = v_smul (j_local_pos_length j)
                                       (v_normalize (v_sub (cfg_target_pos pc) child_target))
                           in joint_setTargetPos p (v_add child_target dir) s)
                    else Inr s)))"

text \<open>The branch for the root joint: local or target rotation locks it (and makes it an
  active root), local or target position moves it, local scale rescales it.\<close>

definition apply_root_config :: "joint_id \<Rightarrow> config \<Rightarrow> solver \<Rightarrow> solver" where
  "apply_root_config k c s =
     (let flags = cfg_flags c;
          s1 = (if 0 < flags AND MASK_ROT then
                  let q = (if has_flag flags CONFIG_FLAG_LOCAL_ROT then cfg_local_rot c else cfg_target_rot c)
                  in (sk_modify k (activate \<circ> lockLocalRot q) s)\<lparr>s_active_roots :=
                        oset_insert k (s_active_roots s)\<rparr>
                else s);
          s2 = (if 0 < flags AND MASK_POS then
                  let p = (if has_flag flags CONFIG_FLAG_LOCAL_POS then cfg_local_pos c else cfg_target_pos c)
                  in sk_modify k (activate \<circ> setLocalPos p) s1
                else s1)
      in if has_flag flags CONFIG_FLAG_LOCAL_SCALE then sk_modify k (setLocalScale (cfg_local_scale c)) s2
         else s2)"

text \<open>\<open>mChainMap[k] = {}; buildChain(joint, mChainMap[k], sub_bases, limit)\<close>.\<close>

definition add_chain :: "joint_id \<Rightarrow> nat \<Rightarrow> solver \<times> joint_id oset \<Rightarrow> solver \<times> joint_id oset" where
  "add_chain k limit sb =
     (let (s, sub_bases) = sb;
          (s1, chain, sub_bases1) = buildChain k sub_bases limit s
      in (s1\<lparr>s_chains := omap_update k chain (s_chains s1)\<rparr>, sub_bases1))"

text \<open>One iteration of the loop over \<open>mJointConfigs\<close>. The loop holds references into
  the map, so an entry the fixup has changed is read changed: the configuration is
  read from the current state by its key.\<close>

definition apply_config :: "joint_id \<Rightarrow> solver \<times> joint_id oset \<Rightarrow> ik_error + solver \<times> joint_id oset" where
  "apply_config k sb =
     (let (s, sub_bases) = sb
      in case (map_of (s_configs s) k, sk_get s k) of
           (None, _) \<Rightarrow> Inr (s, sub_bases)
         | (_, None) \<Rightarrow> Inr (s, sub_bases)
         | (Some c, Some j) \<Rightarrow>
             let s1 = sk_modify k (setConfig k c) s
             in if j_id j = s_root_id s then Inr (apply_root_config k c s1, sub_bases)
                else
                  let s2 = (if hasLocalRot c then sk_modify k (lockLocalRot (cfg_local_rot c)) s1 else s1)
                  in if hasDelegated c then Inr (s2, sub_bases)
                     else
                       let r = (if hasTargetPos c then
                                  (let (s3, sb3) = add_chain k (unat (cfg_chain_limit c)) (s2, sub_bases)
                                   in case sequential_fixup k c s3 of
                                        Inl e \<Rightarrow> Inl e
                                      | Inr s4 \<Rightarrow> Inr (s4, sb3))
                                else if hasTargetRot c then Inr (add_chain k (unat (cfg_chain_limit c)) (s2, sub_bases))
                                else Inr (s2, sub_bases))
                       in case r of
                            Inl e \<Rightarrow> Inl e
                          | Inr (s5, sb5) \<Rightarrow>
                              let s6 = (if hasLocalPos c then sk_modify k (activate \<circ> setLocalPos (cfg_local_pos c)) s5
                                        else s5);
                                  s7 = (if hasLocalScale c then sk_modify k (activate \<circ> setLocalScale (cfg_local_scale c)) s6
                                        else s6)
                              in Inr (s7, sb5))"

fun apply_configs :: "joint_id list \<Rightarrow> solver \<times> joint_id oset \<Rightarrow> ik_error + solver \<times> joint_id oset" where
  "apply_configs [] sb = Inr sb"
| "apply_configs (k # ks) sb =
     (case apply_config k sb of Inl e \<Rightarrow> Inl e | Inr sb' \<Rightarrow> apply_configs ks sb')"

section \<open>Chains from the sub-bases\<close>

text \<open>One generation: every queued sub-base (ascending) gets a chain of limit 255. The
  C++ reads \<open>mSkeleton[joint_id]\<close>; for an id that is no key it inserts a null
  pointer, which \<open>buildChain\<close> then dereferences.\<close>

fun sub_base_gen :: "joint_id list \<Rightarrow> solver \<times> joint_id oset \<Rightarrow> ik_error + solver \<times> joint_id oset" where
  "sub_base_gen [] sb = Inr sb"
| "sub_base_gen (k # ks) (s, new) =
     (if sk_get s k = None then Inl (NullDeref k) else sub_base_gen ks (add_chain k 255 (s, new)))"

text \<open>\<open>while (sub_bases.size() > 0)\<close>, with fuel: \<open>None\<close> when the fuel runs out
  while sub-bases are still queued.\<close>

fun sub_base_loop :: "nat \<Rightarrow> solver \<Rightarrow> joint_id oset \<Rightarrow> (ik_error + solver) option" where
  "sub_base_loop 0 s sub_bases = (if sub_bases = [] then Some (Inr s) else None)"
| "sub_base_loop (Suc n) s sub_bases =
     (if sub_bases = [] then Some (Inr s)
      else case sub_base_gen sub_bases (s, []) of
             Inl e \<Rightarrow> Some (Inl e)
           | Inr (s', new) \<Rightarrow> sub_base_loop n s' new)"

section \<open>Condensing false sub-bases\<close>

text \<open>\<open>Joint::getSingleActiveChild\<close>: the active child when there is exactly one.\<close>

fun single_active_child_loop :: "solver \<Rightarrow> joint_id list \<Rightarrow> joint_id option \<Rightarrow> joint_id option" where
  "single_active_child_loop s [] acc = acc"
| "single_active_child_loop s (c # cs) acc =
     (if sk_active s c then (if acc \<noteq> None then None else single_active_child_loop s cs (Some c))
      else single_active_child_loop s cs acc)"

definition getSingleActiveChild :: "solver \<Rightarrow> joint \<Rightarrow> joint_id option" where
  "getSingleActiveChild s j = single_active_child_loop s (j_children j) None"

text \<open>The ids of the outer ends that are false sub-bases: no position target, not
  whitelisted, exactly one active child.\<close>

definition find_joins :: "solver \<Rightarrow> joint_id list" where
  "find_joins s =
     concat (map (\<lambda>(k, chain).
        case chain of
          [] \<Rightarrow> []
        | oe # _ \<Rightarrow>
            (case sk_get s oe of
               None \<Rightarrow> []
             | Some j \<Rightarrow> if \<not> hasPosTarget j \<and> \<not> isSubBase s (j_id j)
                           \<and> getSingleActiveChild s j \<noteq> None then [j_id j] else []))
       (s_chains s))"

definition inner_end_is :: "solver \<Rightarrow> joint_id \<Rightarrow> joint_id list \<Rightarrow> bool" where
  "inner_end_is s i chain \<longleftrightarrow>
     chain \<noteq> [] \<and> (case sk_get s (last chain) of None \<Rightarrow> False | Some j \<Rightarrow> j_id j = i)"

text \<open>The first chain (ascending) whose inner end is the false sub-base receives the
  donor chain without its first joint; the donor is erased. \<open>mChainMap[id]\<close> for a
  missing id is an empty chain whose \<open>++begin()\<close> is undefined.\<close>

definition join_one :: "joint_id \<Rightarrow> solver \<Rightarrow> ik_error + solver" where
  "join_one i s =
     (case find (\<lambda>(k, chain). inner_end_is s i chain) (s_chains s) of
        None \<Rightarrow> Inr s
      | Some (rk, recipient) \<Rightarrow>
          (case map_of (s_chains s) i of
             None \<Rightarrow> Inl (NullDeref i)
           | Some donor \<Rightarrow>
               Inr (s\<lparr>s_chains := omap_delete i (omap_update rk (recipient @ tl donor) (s_chains s))\<rparr>)))"

fun join_all :: "joint_id list \<Rightarrow> solver \<Rightarrow> ik_error + solver" where
  "join_all [] s = Inr s"
| "join_all (i # is) s = (case join_one i s of Inl e \<Rightarrow> Inl e | Inr s' \<Rightarrow> join_all is s')"

definition make_joins :: "solver \<Rightarrow> ik_error + solver" where
  "make_joins s = join_all (find_joins s) s"

section \<open>Active roots and active joints\<close>

definition chain_base_is_root :: "solver \<Rightarrow> joint_id \<Rightarrow> bool" where
  "chain_base_is_root s b \<longleftrightarrow>
     (case sk_get s b of
        None \<Rightarrow> False
      | Some j \<Rightarrow> (case j_parent j of None \<Rightarrow> True | Some p \<Rightarrow> \<not> sk_active s p))"

definition collect_active_roots :: "solver \<Rightarrow> solver" where
  "collect_active_roots s =
     fold (\<lambda>(k, chain) s'. if chain \<noteq> [] \<and> chain_base_is_root s' (last chain)
                          then s'\<lparr>s_active_roots := oset_insert (last chain) (s_active_roots s')\<rparr>
                          else s')
       (s_chains s) s"

definition collect_active_joints :: "solver \<Rightarrow> solver" where
  "collect_active_joints s =
     (let active = [k. (k, j) \<leftarrow> s_skeleton s, isActive j]
      in (fold (\<lambda>k. sk_modify k flagForHarvest) active s)\<lparr>s_active_joints := active\<rparr>)"

section \<open>The whole rebuild\<close>

text \<open>The fuel of the sub-base loop: one generation per joint, and one more.\<close>

definition rebuildAllChains :: "solver \<Rightarrow> (ik_error + solver) option" where
  "rebuildAllChains s =
     (let s0 = clear_chains s
      in case apply_configs (map fst (s_configs s0)) (s0, []) of
           Inl e \<Rightarrow> Some (Inl e)
         | Inr (s1, sub_bases) \<Rightarrow>
             (case sub_base_loop (Suc (length (s_skeleton s1))) s1 sub_bases of
                None \<Rightarrow> None
              | Some (Inl e) \<Rightarrow> Some (Inl e)
              | Some (Inr s2) \<Rightarrow>
                  (case make_joins s2 of
                     Inl e \<Rightarrow> Some (Inl e)
                   | Inr s3 \<Rightarrow> Some (Inr (collect_active_joints (collect_active_roots s3))))))"

end
