(* ===== verification/IK_Rebuild.thy ===== *)
theory IK_Rebuild
  imports IK_Chains
begin

text \<open>
  Properties of \<open>rebuildAllChains\<close> across its stages. The skeleton's tree (keys,
  parent pointers, ids) and its shape (the tree with the child lists) are what the chain
  builder reads and never writes; a skeleton is
  well-formed (\<open>skel_wf\<close>) when its ids match its keys and every parent walk reaches a
  root within as many steps as there are joints (\<open>joint_depth\<close>). A sub-base queued
  by \<open>buildChain k\<close> is a strict ancestor of \<open>k\<close>, so each generation of the sub-base
  worklist is strictly shallower than the one before: this is why the fuel of the
  sub-base loop is enough (\<open>rebuildAllChains_returns\<close>). Every solver the API builds
  (\<open>built\<close>) is well-formed (\<open>built_skel_wf\<close>). \<open>getSingleActiveChild\<close> is shown
  equal to a filter-based reference, and the specification's sub-base scenario is
  evaluated.
\<close>

definition active_children :: "solver \<Rightarrow> joint \<Rightarrow> joint_id list" where
  "active_children s j = filter (sk_active s) (j_children j)"

text \<open>The tree of the skeleton (keys, parents, ids), and its shape: the tree with the child
  lists.\<close>

definition skel_tree :: "solver \<Rightarrow> (joint_id \<times> joint_id option \<times> joint_id) list" where
  "skel_tree s = map (\<lambda>(k, j). (k, (j_parent j, j_id j))) (s_skeleton s)"

definition skel_shape ::
  "solver \<Rightarrow> (joint_id \<times> (joint_id option \<times> joint_id) \<times> joint_id list) list" where
  "skel_shape s = map (\<lambda>(k, j). (k, (j_parent j, j_id j), j_children j)) (s_skeleton s)"

definition keeps_tree :: "(joint \<Rightarrow> joint) \<Rightarrow> bool" where
  "keeps_tree f \<longleftrightarrow> (\<forall>j. j_parent (f j) = j_parent j \<and> j_id (f j) = j_id j)"

definition keeps_shape :: "(joint \<Rightarrow> joint) \<Rightarrow> bool" where
  "keeps_shape f \<longleftrightarrow>
     (\<forall>j. j_parent (f j) = j_parent j \<and> j_id (f j) = j_id j \<and> j_children (f j) = j_children j)"

fun depth_fuel :: "solver \<Rightarrow> nat \<Rightarrow> joint_id \<Rightarrow> nat option" where
  "depth_fuel s 0 k = None"
| "depth_fuel s (Suc n) k =
     (case sk_get s k of
        None \<Rightarrow> None
      | Some j \<Rightarrow> (case j_parent j of None \<Rightarrow> Some 0 | Some p \<Rightarrow> map_option Suc (depth_fuel s n p)))"

definition joint_depth :: "solver \<Rightarrow> joint_id \<Rightarrow> nat option" where
  "joint_depth s k = depth_fuel s (length (s_skeleton s)) k"

definition depths_below :: "solver \<Rightarrow> joint_id list \<Rightarrow> nat \<Rightarrow> bool" where
  "depths_below s ks m \<longleftrightarrow> (\<forall>k \<in> set ks. \<exists>d. joint_depth s k = Some d \<and> d < m)"

definition skel_wf :: "solver \<Rightarrow> bool" where
  "skel_wf s \<longleftrightarrow> omap_wf (s_skeleton s)
     \<and> (\<forall>(k, j) \<in> set (s_skeleton s). j_id j = k \<and> joint_depth s k \<noteq> None)"

definition queue_ok :: "solver \<Rightarrow> joint_id list \<Rightarrow> bool" where
  "queue_ok s sb \<longleftrightarrow> skel_wf s \<and> depths_below s sb (length (s_skeleton s))"

text \<open>The solvers the API can build: joints added by \<open>addJoint\<close> with the info's joint
  number as id, whitelists and configurations set, chains rebuilt.\<close>

inductive built :: "solver \<Rightarrow> bool" where
  built_new: "built new_solver"
| built_root: "built s \<Longrightarrow> built (setRootID r s)"
| built_add: "built s \<Longrightarrow> info_joint_num info = k \<Longrightarrow> built (addJoint k p info c s)"
| built_sub_bases: "built s \<Longrightarrow> built (setSubBaseIds ids s)"
| built_sub_roots: "built s \<Longrightarrow> built (setSubRootIds ids s)"
| built_wrist: "built s \<Longrightarrow> built (addWristID k s)"
| built_configs: "built s \<Longrightarrow> built (s\<lparr>s_configs := cs\<rparr>)"
| built_rebuild: "built s \<Longrightarrow> rebuildAllChains s = Some (Inr s') \<Longrightarrow> built s'"

definition demo_target :: config where
  "demo_target = cfg_setTargetPos x_axis default_config"

definition demo_scene :: solver where
  "demo_scene = demo_skeleton\<lparr>s_configs := [(3, demo_target), (4, demo_target)]\<rparr>"

text \<open>Every chain of \<open>mChainMap\<close> is non-empty and starts at the joint it is keyed by.\<close>

definition chains_ok :: "solver \<Rightarrow> bool" where
  "chains_ok s \<longleftrightarrow> (\<forall>(k, c) \<in> set (s_chains s). c \<noteq> [] \<and> hd c = k)"

lemma single_active_child_loop_filter:
  "single_active_child_loop s cs acc =
     (case acc of
        None \<Rightarrow> (case filter (sk_active s) cs of [c] \<Rightarrow> Some c | _ \<Rightarrow> None)
      | Some a \<Rightarrow> (if filter (sk_active s) cs = [] then Some a else None))"
proof (induction s cs acc rule: single_active_child_loop.induct)
  case (1 s acc)
  then show ?case by (simp split: option.split)
next
  case (2 s c cs acc)
  then show ?case by (cases acc) (auto split: list.split)
qed

text \<open>C18: \<open>getSingleActiveChild\<close> returns the only active child when there is exactly one,
  and nothing otherwise: it equals the filter-based reference definition.\<close>

lemma getSingleActiveChild_eq:
  "getSingleActiveChild s j = (case active_children s j of [c] \<Rightarrow> Some c | _ \<Rightarrow> None)"
  by (simp add: getSingleActiveChild_def active_children_def single_active_child_loop_filter)

named_theorems shape_intros "operations on a joint that keep its parent, id and children"

lemma keeps_shapeI [intro]:
  "(\<And>j. j_parent (f j) = j_parent j) \<Longrightarrow> (\<And>j. j_id (f j) = j_id j) \<Longrightarrow>
   (\<And>j. j_children (f j) = j_children j) \<Longrightarrow> keeps_shape f"
  by (simp add: keeps_shape_def)

lemma keeps_shape_ops [shape_intros]:
  "keeps_shape activate" "keeps_shape resetFlags" "keeps_shape (setConfig k c)"
  "keeps_shape (lockLocalRot q)" "keeps_shape (setLocalPos p)" "keeps_shape (setLocalScale v)"
  "keeps_shape flagForHarvest"
  by (auto simp: activate_def resetFlags_def setConfig_def lockLocalRot_def Let_def setLocalPos_def
      setLocalScale_def flagForHarvest_def)

lemma keeps_shape_comp [shape_intros]: "keeps_shape f \<Longrightarrow> keeps_shape g \<Longrightarrow> keeps_shape (f \<circ> g)"
  by (simp add: keeps_shape_def)

lemma skel_shape_sk_modify:
  "keeps_shape f \<Longrightarrow> skel_shape (sk_modify k f s) = skel_shape s"
  by (induction "s_skeleton s" arbitrary: s)
     (auto simp: skel_shape_def sk_modify_def omap_modify_def keeps_shape_def)

lemma keeps_tree_addChild: "keeps_tree (addChild k)"
  by (simp add: keeps_tree_def addChild_def)

lemma skel_tree_sk_modify:
  "keeps_tree f \<Longrightarrow> skel_tree (sk_modify k f s) = skel_tree s"
  by (induction "s_skeleton s" arbitrary: s)
     (auto simp: skel_tree_def sk_modify_def omap_modify_def keeps_tree_def)

lemma skel_tree_of_shape: "skel_tree s = map (\<lambda>(k, t, cs). (k, t)) (skel_shape s)"
  by (simp add: skel_tree_def skel_shape_def comp_def split_def)

lemma skel_tree_shape: "skel_shape s' = skel_shape s \<Longrightarrow> skel_tree s' = skel_tree s"
  by (simp add: skel_tree_of_shape)

lemma skel_shape_fold_sk_modify:
  "keeps_shape f \<Longrightarrow> skel_shape (fold (\<lambda>k. sk_modify k f) ks s) = skel_shape s"
  by (induction ks arbitrary: s) (simp_all add: skel_shape_sk_modify)

lemma skel_shape_other_fields [simp]:
  "skel_shape (s\<lparr>s_chains := c\<rparr>) = skel_shape s"
  "skel_shape (s\<lparr>s_configs := cf\<rparr>) = skel_shape s"
  "skel_shape (s\<lparr>s_active_roots := r\<rparr>) = skel_shape s"
  "skel_shape (s\<lparr>s_active_joints := a\<rparr>) = skel_shape s"
  "skel_shape (s\<lparr>s_root_id := rid\<rparr>) = skel_shape s"
  "skel_shape (s\<lparr>s_sub_base_ids := ids\<rparr>) = skel_shape s"
  "skel_shape (s\<lparr>s_sub_root_ids := ids\<rparr>) = skel_shape s"
  "skel_shape (s\<lparr>s_wrist_joints := w\<rparr>) = skel_shape s"
  by (simp_all add: skel_shape_def)

lemma map_of_skel_tree:
  "map_of (skel_tree s) k = map_option (\<lambda>j. (j_parent j, j_id j)) (sk_get s k)"
  using map_of_map [of "\<lambda>j. (j_parent j, j_id j)" "s_skeleton s"]
  by (simp add: skel_tree_def sk_get_def)

lemma sk_get_tree:
  "skel_tree s' = skel_tree s \<Longrightarrow>
   map_option (\<lambda>j. (j_parent j, j_id j)) (sk_get s' k) = map_option (\<lambda>j. (j_parent j, j_id j)) (sk_get s k)"
  by (metis map_of_skel_tree)

lemma depth_fuel_tree:
  "skel_tree s' = skel_tree s \<Longrightarrow> depth_fuel s' n k = depth_fuel s n k"
proof (induction n arbitrary: k)
  case 0
  then show ?case by simp
next
  case (Suc n)
  have "map_option (\<lambda>j. (j_parent j, j_id j)) (sk_get s' k) = map_option (\<lambda>j. (j_parent j, j_id j)) (sk_get s k)"
    using Suc.prems by (rule sk_get_tree)
  then show ?case using Suc
    by (cases "sk_get s k"; cases "sk_get s' k") (auto split: option.split)
qed

lemma length_skel_tree: "length (skel_tree s) = length (s_skeleton s)"
  by (simp add: skel_tree_def)

lemma length_skel_shape: "length (skel_shape s) = length (s_skeleton s)"
  by (simp add: skel_shape_def)

lemma joint_depth_tree:
  assumes "skel_tree s' = skel_tree s"
  shows "joint_depth s' k = joint_depth s k"
proof -
  have "length (skel_tree s') = length (skel_tree s)"
    using assms by simp
  then have "length (s_skeleton s') = length (s_skeleton s)"
    by (simp only: length_skel_tree)
  then show ?thesis by (simp add: joint_depth_def depth_fuel_tree [OF assms])
qed

lemma joint_depth_shape:
  assumes "skel_shape s' = skel_shape s"
  shows "joint_depth s' k = joint_depth s k"
  by (rule joint_depth_tree [OF skel_tree_shape [OF assms]])

lemma map_fst_skel_tree: "map fst (skel_tree s) = map fst (s_skeleton s)"
  by (simp add: skel_tree_def comp_def split_def)

lemma ball_skel_tree:
  "(\<forall>(k, p, i) \<in> set (skel_tree s). i = k \<and> joint_depth s k \<noteq> None)
   = (\<forall>(k, j) \<in> set (s_skeleton s). j_id j = k \<and> joint_depth s k \<noteq> None)"
  by (simp add: skel_tree_def split_def)

lemma skel_wf_alt:
  "skel_wf s \<longleftrightarrow> sorted_wrt (<) (map fst (skel_tree s))
     \<and> (\<forall>(k, p, i) \<in> set (skel_tree s). i = k \<and> joint_depth s k \<noteq> None)"
  by (simp only: skel_wf_def omap_wf_def map_fst_skel_tree ball_skel_tree)

lemma skel_wf_tree:
  assumes "skel_tree s' = skel_tree s"
  shows "skel_wf s' = skel_wf s"
  unfolding skel_wf_alt assms by (simp add: joint_depth_tree [OF assms])

lemma skel_wf_shape:
  assumes "skel_shape s' = skel_shape s"
  shows "skel_wf s' = skel_wf s"
  by (rule skel_wf_tree [OF skel_tree_shape [OF assms]])

lemma depth_fuel_bound: "depth_fuel s n k = Some d \<Longrightarrow> d < n"
  by (induction s n k arbitrary: d rule: depth_fuel.induct) (auto split: option.splits)

lemma depth_fuel_Suc: "depth_fuel s n k = Some d \<Longrightarrow> depth_fuel s (Suc n) k = Some d"
proof (induction n arbitrary: k d)
  case 0
  then show ?case by simp
next
  case (Suc n)
  then obtain j where j: "sk_get s k = Some j" by (auto split: option.splits)
  show ?case
  proof (cases "j_parent j")
    case None
    with Suc.prems j show ?thesis by simp
  next
    case (Some p)
    with Suc.prems j obtain d' where "depth_fuel s n p = Some d'" "d = Suc d'" by auto
    moreover from this(1) have "depth_fuel s (Suc n) p = Some d'" by (rule Suc.IH)
    ultimately show ?thesis
      by (subst depth_fuel.simps(2)) (simp del: depth_fuel.simps add: j Some)
  qed
qed

lemma depth_fuel_parent:
  assumes "depth_fuel s n k = Some d" "sk_get s k = Some j" "j_parent j = Some p"
  shows "\<exists>d'. depth_fuel s n p = Some d' \<and> d = Suc d'"
proof (cases n)
  case 0
  with assms show ?thesis by simp
next
  case (Suc m)
  with assms obtain d' where "depth_fuel s m p = Some d'" "d = Suc d'" by auto
  with Suc show ?thesis by (auto dest: depth_fuel_Suc)
qed

lemma is_walk_None [simp]: "is_walk s None ks \<longleftrightarrow> ks = []"
  by (cases ks) auto

lemma is_walk_depth:
  "is_walk s (Some p) ks \<Longrightarrow> depth_fuel s n p = Some d \<Longrightarrow> x \<in> set ks \<Longrightarrow>
   \<exists>d'. depth_fuel s n x = Some d' \<and> d' \<le> d"
proof (induction ks arbitrary: p d)
  case Nil
  then show ?case by simp
next
  case (Cons k ks)
  then obtain j where k: "p = k" "sk_get s k = Some j" "is_walk s (j_parent j) ks"
    by (auto split: option.splits)
  show ?case
  proof (cases "x = k")
    case True
    with Cons.prems(2) k(1) show ?thesis by blast
  next
    case False
    with Cons.prems have x: "x \<in> set ks" by simp
    then obtain q where q: "j_parent j = Some q"
      using k(3) by (cases "j_parent j") auto
    have "depth_fuel s n k = Some d" using Cons.prems(2) k(1) by simp
    from depth_fuel_parent [OF this k(2) q] obtain d' where d': "depth_fuel s n q = Some d'" "d = Suc d'"
      by blast
    have "is_walk s (Some q) ks" using k(3) q by simp
    from Cons.IH [OF this d'(1) x] obtain d'' where "depth_fuel s n x = Some d''" "d'' \<le> d'"
      by blast
    with d'(2) show ?thesis by (intro exI [of _ d'']) simp
  qed
qed


lemma skel_shape_activate_all: "skel_shape (activate_all ks s) = skel_shape s"
  by (simp add: skel_shape_fold_sk_modify shape_intros)

lemma buildChain_walk:
  assumes "buildChain k sb n s = (s', chain, sb')"
  shows "\<exists>ks. s' = activate_all (k # ks) s \<and> is_walk s (case sk_get s k of None \<Rightarrow> None | Some j \<Rightarrow> j_parent j) ks
           \<and> set sb' \<subseteq> set sb \<union> key_ids s ks"
proof -
  let ?s1 = "sk_modify k activate s"
  have "build_chain_loop ?s1 (case sk_get s k of None \<Rightarrow> None | Some j \<Rightarrow> j_parent j) [k] sb n = (s', chain, sb')"
    using assms by (simp add: buildChain_def)
  from build_chain_loop_walk [OF this] obtain ks where ks: "s' = activate_all ks ?s1"
      "is_walk ?s1 (case sk_get s k of None \<Rightarrow> None | Some j \<Rightarrow> j_parent j) ks"
      "set sb' \<subseteq> set sb \<union> key_ids ?s1 ks"
    by blast
  have e: "?s1 = activate_all [k] s" by simp
  show ?thesis
    using ks unfolding e is_walk_activate_all key_ids_activate_all by auto
qed

lemma key_ids_iff: "q \<in> key_ids s ks \<longleftrightarrow> (\<exists>x \<in> set ks. map_option j_id (sk_get s x) = Some q)"
  by (induction ks) (auto simp: key_ids_def map_filter_simps split: option.splits)

lemma skel_wf_key_id: "skel_wf s \<Longrightarrow> sk_get s x = Some j \<Longrightarrow> j_id j = x"
  by (auto simp: skel_wf_def sk_get_def dest!: map_of_SomeD)

lemma skel_wf_depth: "skel_wf s \<Longrightarrow> sk_get s x = Some j \<Longrightarrow> \<exists>d. joint_depth s x = Some d"
  by (auto simp: skel_wf_def sk_get_def dest!: map_of_SomeD)

text \<open>A sub-base queued by \<open>buildChain k\<close> is a strict ancestor of \<open>k\<close>.\<close>

lemma buildChain_sub_bases:
  assumes wf: "skel_wf s" and bc: "buildChain k sb n s = (s', chain, sb')"
    and q: "q \<in> set sb'" "q \<notin> set sb"
  shows "\<exists>j d d'. sk_get s k = Some j \<and> joint_depth s k = Some d \<and> joint_depth s q = Some d' \<and> d' < d"
proof -
  obtain ks where ks: "is_walk s (case sk_get s k of None \<Rightarrow> None | Some j \<Rightarrow> j_parent j) ks"
      "set sb' \<subseteq> set sb \<union> key_ids s ks"
    using buildChain_walk [OF bc] by blast
  have "q \<in> key_ids s ks" using q ks(2) by blast
  then obtain x where "x \<in> set ks" "map_option j_id (sk_get s x) = Some q"
    unfolding key_ids_iff by blast
  then obtain jx where x: "x \<in> set ks" "sk_get s x = Some jx" "q = j_id jx"
    by (cases "sk_get s x") auto
  then have qx: "q = x" using skel_wf_key_id [OF wf] by simp
  obtain j where j0: "sk_get s k = Some j"
    using ks(1) x(1) by (cases "sk_get s k") auto
  then obtain p where "j_parent j = Some p"
    using ks(1) x(1) by (cases "j_parent j") auto
  with j0 have j: "sk_get s k = Some j" "j_parent j = Some p" by auto
  obtain d where d: "joint_depth s k = Some d"
    using skel_wf_depth [OF wf j(1)] by blast
  from depth_fuel_parent [OF d [unfolded joint_depth_def] j] obtain dp
    where dp: "depth_fuel s (length (s_skeleton s)) p = Some dp" "d = Suc dp" by blast
  have "is_walk s (Some p) ks" using ks(1) j by simp
  from is_walk_depth [OF this dp(1) x(1)] obtain d' where
    "depth_fuel s (length (s_skeleton s)) x = Some d'" "d' \<le> dp" by blast
  with j d dp(2) qx show ?thesis by (auto simp: joint_depth_def)
qed


lemma depths_below_shape:
  assumes "skel_shape s' = skel_shape s"
  shows "depths_below s' ks m = depths_below s ks m"
  by (simp add: depths_below_def joint_depth_shape [OF assms])

lemma depths_below_Nil [simp]: "depths_below s [] m"
  by (simp add: depths_below_def)

lemma add_chain_shape:
  assumes "add_chain k n (s, sb) = (s', sb')"
  shows "skel_shape s' = skel_shape s"
proof -
  obtain s1 chain sb1 where bc: "buildChain k sb n s = (s1, chain, sb1)" by (metis prod_cases3)
  with assms have "s' = s1\<lparr>s_chains := omap_update k chain (s_chains s1)\<rparr>"
    by (simp add: add_chain_def)
  moreover obtain ks where "s1 = activate_all (k # ks) s"
    using buildChain_walk [OF bc] by blast
  ultimately show ?thesis by (simp only: skel_shape_other_fields skel_shape_activate_all)
qed

lemma add_chain_sub_bases:
  assumes wf: "skel_wf s" and ac: "add_chain k n (s, sb) = (s', sb')"
    and q: "q \<in> set sb'" "q \<notin> set sb"
  shows "\<exists>j d d'. sk_get s k = Some j \<and> joint_depth s k = Some d \<and> joint_depth s q = Some d' \<and> d' < d"
proof -
  obtain s1 chain sb1 where bc: "buildChain k sb n s = (s1, chain, sb1)" by (metis prod_cases3)
  with ac have "sb' = sb1" by (simp add: add_chain_def)
  with buildChain_sub_bases [OF wf bc] q show ?thesis by blast
qed

lemma sub_base_gen_shape:
  "sub_base_gen ks (s, new) = Inr (s', new') \<Longrightarrow> skel_shape s' = skel_shape s"
proof (induction ks arbitrary: s new)
  case Nil
  then show ?case by simp
next
  case (Cons k ks)
  obtain s1 new1 where ac: "add_chain k 255 (s, new) = (s1, new1)" by fastforce
  with Cons.prems have "sub_base_gen ks (s1, new1) = Inr (s', new')" by (simp split: if_splits)
  with Cons.IH add_chain_shape [OF ac] show ?case by simp
qed

lemma sub_base_gen_depths:
  assumes "skel_wf s" "depths_below s ks (Suc m)" "depths_below s new m"
    and "sub_base_gen ks (s, new) = Inr (s', new')"
  shows "depths_below s new' m"
  using assms
proof (induction ks arbitrary: s new)
  case Nil
  then show ?case by simp
next
  case (Cons k ks)
  obtain s1 new1 where ac: "add_chain k 255 (s, new) = (s1, new1)" by fastforce
  with Cons.prems(4) have rec: "sub_base_gen ks (s1, new1) = Inr (s', new')" by (simp split: if_splits)
  have sh: "skel_shape s1 = skel_shape s" by (rule add_chain_shape [OF ac])
  obtain dk where dk: "joint_depth s k = Some dk" "dk < Suc m"
    using Cons.prems(2) by (auto simp: depths_below_def)
  have "depths_below s new1 m"
    unfolding depths_below_def
  proof
    fix q assume "q \<in> set new1"
    show "\<exists>d. joint_depth s q = Some d \<and> d < m"
    proof (cases "q \<in> set new")
      case True
      with Cons.prems(3) show ?thesis by (auto simp: depths_below_def)
    next
      case False
      from add_chain_sub_bases [OF Cons.prems(1) ac \<open>q \<in> set new1\<close> False] dk show ?thesis
        by auto
    qed
  qed
  moreover have "depths_below s ks (Suc m)"
    using Cons.prems(2) by (simp add: depths_below_def)
  moreover have "skel_wf s1" using Cons.prems(1) by (simp add: skel_wf_shape [OF sh])
  ultimately have "depths_below s1 new' m"
    using Cons.IH [of s1 new1] rec by (simp add: depths_below_shape [OF sh])
  then show ?case by (simp add: depths_below_shape [OF sh])
qed


lemma depths_below_0: "depths_below s ks 0 \<longleftrightarrow> ks = []"
  by (cases ks) (auto simp: depths_below_def)

lemma sub_base_loop_shape:
  "sub_base_loop n s sb = Some (Inr s') \<Longrightarrow> skel_shape s' = skel_shape s"
proof (induction n s sb rule: sub_base_loop.induct)
  case (1 s sub_bases)
  then show ?case by (simp split: if_splits)
next
  case (2 n s sub_bases)
  show ?case
  proof (cases "sub_bases = []")
    case True
    with "2.prems" show ?thesis by simp
  next
    case False
    then obtain s1 new where g: "sub_base_gen sub_bases (s, []) = Inr (s1, new)"
      and r: "sub_base_loop n s1 new = Some (Inr s')"
      using "2.prems" by (auto split: sum.splits)
    from "2.IH" [OF False g refl r] sub_base_gen_shape [OF g] show ?thesis by simp
  qed
qed

text \<open>Enough fuel: when every queued sub-base has depth below \<open>m\<close>, \<open>m + 1\<close>
  generations drain the worklist.\<close>

lemma sub_base_loop_returns:
  "skel_wf s \<Longrightarrow> depths_below s sb m \<Longrightarrow> sub_base_loop (Suc m) s sb \<noteq> None"
proof (induction m arbitrary: s sb)
  case 0
  then show ?case by (simp add: depths_below_0)
next
  case (Suc m)
  show ?case
  proof (cases "sub_base_gen sb (s, [])")
    case (Inl e)
    then show ?thesis by (simp split: if_splits)
  next
    case (Inr r)
    obtain s1 new where g: "sub_base_gen sb (s, []) = Inr (s1, new)"
      using Inr by (cases r) auto
    have sh: "skel_shape s1 = skel_shape s" by (rule sub_base_gen_shape [OF g])
    have "depths_below s new m"
      by (rule sub_base_gen_depths [OF Suc.prems(1,2) depths_below_Nil g])
    then have "sub_base_loop (Suc m) s1 new \<noteq> None"
      using Suc.IH [of s1 new] Suc.prems(1)
      by (simp add: skel_wf_shape [OF sh] depths_below_shape [OF sh])
    with g show ?thesis by simp
  qed
qed


lemma queue_ok_shape:
  assumes "skel_shape s' = skel_shape s"
  shows "queue_ok s' sb = queue_ok s sb"
proof -
  have "length (s_skeleton s') = length (s_skeleton s)"
    using assms length_skel_shape by metis
  then show ?thesis
    by (simp add: queue_ok_def skel_wf_shape [OF assms] depths_below_shape [OF assms])
qed

lemma queue_ok_sk_modify [simp]: "keeps_shape f \<Longrightarrow> queue_ok (sk_modify k f s) sb = queue_ok s sb"
  by (rule queue_ok_shape) (rule skel_shape_sk_modify)

lemma add_chain_queue_ok:
  assumes q: "queue_ok s sb" and ac: "add_chain k n (s, sb) = (s', sb')"
  shows "queue_ok s' sb' \<and> skel_shape s' = skel_shape s"
proof -
  have sh: "skel_shape s' = skel_shape s" by (rule add_chain_shape [OF ac])
  have wf: "skel_wf s" using q by (simp add: queue_ok_def)
  have "depths_below s sb' (length (s_skeleton s))"
    unfolding depths_below_def
  proof
    fix x assume x: "x \<in> set sb'"
    show "\<exists>d. joint_depth s x = Some d \<and> d < length (s_skeleton s)"
    proof (cases "x \<in> set sb")
      case True
      with q show ?thesis by (auto simp: queue_ok_def depths_below_def)
    next
      case False
      from add_chain_sub_bases [OF wf ac x False] obtain d d' where
        "joint_depth s k = Some d" "joint_depth s x = Some d'" "d' < d" by blast
      moreover from this(1) have "d < length (s_skeleton s)"
        by (simp add: joint_depth_def depth_fuel_bound)
      ultimately show ?thesis by auto
    qed
  qed
  with wf have "queue_ok s sb'" by (simp add: queue_ok_def)
  with sh show ?thesis by (simp add: queue_ok_shape [OF sh])
qed


lemma queue_ok_fields [simp]:
  "queue_ok (s\<lparr>s_chains := c\<rparr>) sb = queue_ok s sb"
  "queue_ok (s\<lparr>s_configs := cf\<rparr>) sb = queue_ok s sb"
  "queue_ok (s\<lparr>s_active_roots := r\<rparr>) sb = queue_ok s sb"
  by (rule queue_ok_shape, simp)+

lemma skel_shape_apply_root_config [simp]: "skel_shape (apply_root_config k c s) = skel_shape s"
  by (simp add: apply_root_config_def Let_def skel_shape_sk_modify shape_intros)

lemma sequential_fixup_shape:
  "sequential_fixup k c s = Inr s' \<Longrightarrow> skel_shape s' = skel_shape s"
  by (auto simp: sequential_fixup_def joint_setTargetPos_def Let_def
      split: option.splits if_splits sum.splits)

lemma apply_targets_effect:
  assumes r: "(if hasTargetPos c then
               (let (s3, sb3) = add_chain k n (s2, sb)
                in case sequential_fixup k c s3 of Inl e \<Rightarrow> Inl e | Inr s4 \<Rightarrow> Inr (s4, sb3))
             else if hasTargetRot c then Inr (add_chain k n (s2, sb))
             else Inr (s2, sb)) = Inr (s5, sb5)"
  shows "skel_shape s5 = skel_shape s2 \<and> (sb5 = sb \<or> (\<exists>s3. add_chain k n (s2, sb) = (s3, sb5)))"
proof -
  obtain s3 sb3 where ac: "add_chain k n (s2, sb) = (s3, sb3)" by fastforce
  note a = add_chain_shape [OF ac]
  show ?thesis
  proof (cases "hasTargetPos c")
    case True
    with r ac have "sequential_fixup k c s3 = Inr s5" "sb5 = sb3"
      by (auto split: sum.splits)
    with a ac sequential_fixup_shape [of k c s3 s5] show ?thesis by simp
  next
    case False
    with r ac a show ?thesis by (auto split: if_splits)
  qed
qed

lemma apply_config_effect:
  assumes r: "apply_config k (s, sb) = Inr (s', sb')"
  shows "skel_shape s' = skel_shape s
         \<and> (sb' = sb \<or> (\<exists>s2 s3 n. skel_shape s2 = skel_shape s \<and> add_chain k n (s2, sb) = (s3, sb')))"
proof (cases "map_of (s_configs s) k = None \<or> sk_get s k = None")
  case True
  with r show ?thesis by (auto simp: apply_config_def split: option.splits)
next
  case False
  then obtain c j where cj: "map_of (s_configs s) k = Some c" "sk_get s k = Some j" by auto
  define s1 where "s1 = sk_modify k (setConfig k c) s"
  define s2 where "s2 = (if hasLocalRot c then sk_modify k (lockLocalRot (cfg_local_rot c)) s1 else s1)"
  define R where "R = (if hasTargetPos c then
               (let (s3, sb3) = add_chain k (unat (cfg_chain_limit c)) (s2, sb)
                in case sequential_fixup k c s3 of Inl e \<Rightarrow> Inl e | Inr s4 \<Rightarrow> Inr (s4, sb3))
             else if hasTargetRot c then Inr (add_chain k (unat (cfg_chain_limit c)) (s2, sb))
             else Inr (s2, sb))"
  define fin where "fin s5 = (if hasLocalScale c
      then sk_modify k (activate \<circ> setLocalScale (cfg_local_scale c))
             (if hasLocalPos c then sk_modify k (activate \<circ> setLocalPos (cfg_local_pos c)) s5 else s5)
      else if hasLocalPos c then sk_modify k (activate \<circ> setLocalPos (cfg_local_pos c)) s5 else s5)" for s5
  have sh: "skel_shape s2 = skel_shape s" "skel_shape s1 = skel_shape s" "skel_shape (fin x) = skel_shape x" for x
    by (simp_all add: s2_def s1_def fin_def skel_shape_sk_modify shape_intros)
  have eq: "apply_config k (s, sb) =
      (if j_id j = s_root_id s then Inr (apply_root_config k c s1, sb)
       else if hasDelegated c then Inr (s2, sb)
       else case R of Inl e \<Rightarrow> Inl e | Inr (s5, sb5) \<Rightarrow> Inr (fin s5, sb5))"
    unfolding apply_config_def fin_def using cj by (simp add: Let_def s1_def s2_def R_def)
  consider (root) "j_id j = s_root_id s" | (del) "j_id j \<noteq> s_root_id s" "hasDelegated c"
    | (chain) "j_id j \<noteq> s_root_id s" "\<not> hasDelegated c" by blast
  then show ?thesis
  proof cases
    case root
    with r eq sh(2) show ?thesis by auto
  next
    case del
    with r eq sh(1) show ?thesis by auto
  next
    case chain
    with r eq obtain s5 where r5: "R = Inr (s5, sb')" and s': "s' = fin s5"
      by (auto split: sum.splits)
    from apply_targets_effect [OF r5 [unfolded R_def]] s' sh(1) sh(3) [of s5] show ?thesis
      by auto
  qed
qed

lemma apply_config_queue_ok:
  assumes q: "queue_ok s sb" and r: "apply_config k (s, sb) = Inr (s', sb')"
  shows "queue_ok s' sb' \<and> skel_shape s' = skel_shape s"
proof -
  note e = apply_config_effect [OF r]
  have "queue_ok s' sb'"
  proof (cases "sb' = sb")
    case True
    with q e show ?thesis by (simp add: queue_ok_shape [of s' s])
  next
    case False
    with e obtain s2 s3 n where s2: "skel_shape s2 = skel_shape s" "add_chain k n (s2, sb) = (s3, sb')"
      by blast
    have "queue_ok s2 sb" using q by (simp add: queue_ok_shape [OF s2(1)])
    from add_chain_queue_ok [OF this s2(2)] e s2(1) show ?thesis
      by (simp add: queue_ok_shape [of s' s3])
  qed
  with e show ?thesis by simp
qed

lemma apply_configs_queue_ok:
  "queue_ok s sb \<Longrightarrow> apply_configs ks (s, sb) = Inr (s', sb') \<Longrightarrow>
   queue_ok s' sb' \<and> skel_shape s' = skel_shape s"
proof (induction ks arbitrary: s sb)
  case Nil
  then show ?case by simp
next
  case (Cons k ks)
  then obtain s1 sb1 where a: "apply_config k (s, sb) = Inr (s1, sb1)"
    and r: "apply_configs ks (s1, sb1) = Inr (s', sb')"
    by (auto split: sum.splits)
  from apply_config_queue_ok [OF Cons.prems(1) a] Cons.IH [of s1 sb1] r show ?case by simp
qed

lemma skel_shape_clear_chains [simp]: "skel_shape (clear_chains s) = skel_shape s"
  by (simp add: clear_chains_def Let_def skel_shape_fold_sk_modify shape_intros)

lemma length_skeleton_shape: "skel_shape s' = skel_shape s \<Longrightarrow> length (s_skeleton s') = length (s_skeleton s)"
  by (metis length_skel_shape)

lemma make_joins_shape:
  "make_joins s = Inr s' \<Longrightarrow> skel_shape s' = skel_shape s"
proof -
  have "join_all is s = Inr s' \<Longrightarrow> skel_shape s' = skel_shape s" for "is" s
    by (induction "is" s rule: join_all.induct)
       (auto simp: join_one_def split: sum.splits option.splits prod.splits)
  then show "make_joins s = Inr s' \<Longrightarrow> skel_shape s' = skel_shape s"
    by (simp add: make_joins_def)
qed

lemma skel_shape_collect [simp]:
  "skel_shape (collect_active_roots s) = skel_shape s"
  "skel_shape (collect_active_joints s) = skel_shape s"
proof -
  have "skel_shape (fold (\<lambda>(k, chain) s'. if chain \<noteq> [] \<and> chain_base_is_root s' (last chain)
                          then s'\<lparr>s_active_roots := oset_insert (last chain) (s_active_roots s')\<rparr>
                          else s') cs s) = skel_shape s" for cs s
    by (induction cs arbitrary: s) auto
  then show "skel_shape (collect_active_roots s) = skel_shape s"
    by (simp add: collect_active_roots_def)
  show "skel_shape (collect_active_joints s) = skel_shape s"
    by (simp add: collect_active_joints_def Let_def skel_shape_fold_sk_modify shape_intros)
qed


text \<open>The fuel \<open>length skeleton + 1\<close> of the sub-base loop is enough on a well-formed
  skeleton.\<close>

lemma rebuildAllChains_some:
  assumes "skel_wf s"
  shows "\<exists>r. rebuildAllChains s = Some r"
proof -
  let ?s0 = "clear_chains s"
  have q0: "queue_ok ?s0 []"
    using assms by (simp add: queue_ok_def skel_wf_shape [of ?s0 s])
  show ?thesis
  proof (cases "apply_configs (map fst (s_configs ?s0)) (?s0, [])")
    case (Inl e)
    then show ?thesis by (simp add: rebuildAllChains_def Let_def)
  next
    case (Inr r)
    then obtain s1 sb where a: "apply_configs (map fst (s_configs ?s0)) (?s0, []) = Inr (s1, sb)"
      by (cases r) auto
    from apply_configs_queue_ok [OF q0 a] have "queue_ok s1 sb" by simp
    then have "sub_base_loop (Suc (length (s_skeleton s1))) s1 sb \<noteq> None"
      by (intro sub_base_loop_returns) (simp_all add: queue_ok_def)
    then obtain r where "sub_base_loop (Suc (length (s_skeleton s1))) s1 sb = Some r" by blast
    then show ?thesis using a
      by (cases r) (auto simp: rebuildAllChains_def Let_def split: sum.splits simp del: sub_base_loop.simps)
  qed
qed

text \<open>C2: on a well-formed skeleton (ids match keys, every parent walk reaches a root) the
  rebuild always returns: the fuel \<open>length skeleton + 1\<close> of the sub-base loop is enough.\<close>

theorem rebuildAllChains_returns:
  assumes "skel_wf s"
  shows "rebuildAllChains s \<noteq> None"
  using rebuildAllChains_some [OF assms] by auto

text \<open>The rebuild never changes the tree: keys, parents and ids stay those of the input.\<close>

lemma rebuildAllChains_shape:
  assumes "rebuildAllChains s = Some (Inr s')"
  shows "skel_shape s' = skel_shape s"
proof -
  obtain s1 sb s2 s3 where
    a: "apply_configs (map fst (s_configs (clear_chains s))) (clear_chains s, []) = Inr (s1, sb)"
    and l: "sub_base_loop (Suc (length (s_skeleton s1))) s1 sb = Some (Inr s2)"
    and j: "make_joins s2 = Inr s3"
    and r: "s' = collect_active_joints (collect_active_roots s3)"
    using assms
    by (auto simp: rebuildAllChains_def Let_def split: option.splits sum.splits simp del: sub_base_loop.simps)
  have "skel_shape s1 = skel_shape (clear_chains s)"
  proof -
    have "apply_configs ks (s0, sb0) = Inr (s1', sb1') \<Longrightarrow> skel_shape s1' = skel_shape s0"
      for ks s0 sb0 s1' sb1'
    proof (induction ks arbitrary: s0 sb0)
      case Nil
      then show ?case by simp
    next
      case (Cons k ks)
      then obtain sa sba where "apply_config k (s0, sb0) = Inr (sa, sba)"
        "apply_configs ks (sa, sba) = Inr (s1', sb1')" by (auto split: sum.splits)
      with Cons.IH apply_config_effect show ?case by metis
    qed
    with a show ?thesis by blast
  qed
  with sub_base_loop_shape [OF l] make_joins_shape [OF j] r show ?thesis by simp
qed


section \<open>Well-formedness of the solvers the API builds\<close>

lemma length_omap_update_new:
  "k \<notin> fst ` set m \<Longrightarrow> length (omap_update k v m) = Suc (length m)"
  by (induction k v m rule: omap_update.induct) auto

lemma depth_fuel_extend:
  assumes "\<And>y. y \<noteq> k \<Longrightarrow> sk_get s' y = sk_get s y" "sk_get s k = None"
  shows "depth_fuel s n x = Some d \<Longrightarrow> depth_fuel s' n x = Some d"
proof (induction n arbitrary: x d)
  case 0
  then show ?case by simp
next
  case (Suc n)
  then obtain j where j: "sk_get s x = Some j" by (auto split: option.splits)
  with assms(2) have "x \<noteq> k" by auto
  with assms(1) j have j': "sk_get s' x = Some j" by simp
  show ?case
  proof (cases "j_parent j")
    case None
    with Suc.prems j j' show ?thesis by simp
  next
    case (Some p)
    with Suc.prems j obtain d' where "depth_fuel s n p = Some d'" "d = Suc d'" by auto
    with Suc.IH j' Some show ?thesis by simp
  qed
qed

lemma depth_fuel_mono: "depth_fuel s n x = Some d \<Longrightarrow> n \<le> m \<Longrightarrow> depth_fuel s m x = Some d"
  by (induction m) (auto simp: le_Suc_eq dest: depth_fuel_Suc simp del: depth_fuel.simps)


lemma omap_wf_map_of_iff: "omap_wf m \<Longrightarrow> (x, j) \<in> set m \<longleftrightarrow> map_of m x = Some j"
  by (auto simp: omap_wf_def strict_sorted_iff intro: map_of_is_SomeI dest: map_of_SomeD)

lemma omap_ball_map_of:
  "omap_wf m \<Longrightarrow> (\<forall>(x, j) \<in> set m. P x j) \<longleftrightarrow> (\<forall>x j. map_of m x = Some j \<longrightarrow> P x j)"
  by (auto dest: map_of_SomeD simp: omap_wf_map_of_iff [symmetric])

lemma skel_wf_iff:
  "skel_wf s \<longleftrightarrow> omap_wf (s_skeleton s)
     \<and> (\<forall>x j. sk_get s x = Some j \<longrightarrow> j_id j = x \<and> joint_depth s x \<noteq> None)"
proof (cases "omap_wf (s_skeleton s)")
  case True
  show ?thesis
    unfolding skel_wf_def sk_get_def
    using omap_ball_map_of [OF True, of "\<lambda>k j. j_id j = k \<and> joint_depth s k \<noteq> None"] True
    by simp
next
  case False
  then show ?thesis by (simp add: skel_wf_def)
qed

lemma sk_get_None_keys: "sk_get s k = None \<longleftrightarrow> k \<notin> fst ` set (s_skeleton s)"
  by (simp add: sk_get_def map_of_eq_None_iff)

lemma skel_wf_insert:
  assumes wf: "skel_wf s" and new: "sk_get s k = None" and jid: "j_id J = k"
    and par: "case j_parent J of None \<Rightarrow> True | Some p \<Rightarrow> sk_get s p \<noteq> None"
  shows "skel_wf (s\<lparr>s_skeleton := omap_update k J (s_skeleton s)\<rparr>)"
proof -
  let ?s' = "s\<lparr>s_skeleton := omap_update k J (s_skeleton s)\<rparr>"
  let ?L = "length (s_skeleton s)"
  have get: "sk_get ?s' y = ((sk_get s)(k \<mapsto> J)) y" for y
    by (simp add: sk_get_def map_of_omap_update)
  have len: "length (s_skeleton ?s') = Suc ?L"
    using new by (simp add: sk_get_None_keys length_omap_update_new)
  have ext: "depth_fuel s n x = Some d \<Longrightarrow> depth_fuel ?s' n x = Some d" for n x d
    by (rule depth_fuel_extend [of k ?s' s]) (simp_all add: get new)
  have old: "joint_depth ?s' x \<noteq> None" if "sk_get s x = Some j" for x j
  proof -
    from wf that obtain d where "depth_fuel s ?L x = Some d"
      by (auto simp: skel_wf_iff joint_depth_def)
    then have "depth_fuel ?s' (Suc ?L) x = Some d" by (intro ext depth_fuel_Suc)
    then show ?thesis unfolding joint_depth_def len by (simp del: depth_fuel.simps)
  qed
  have fresh: "joint_depth ?s' k \<noteq> None"
  proof (cases "j_parent J")
    case None
    then show ?thesis unfolding joint_depth_def len by (simp add: get)
  next
    case (Some p)
    with par obtain jp where "sk_get s p = Some jp" by auto
    with wf obtain dp where "depth_fuel s ?L p = Some dp"
      by (auto simp: skel_wf_iff joint_depth_def)
    then have "depth_fuel ?s' ?L p = Some dp" by (rule ext)
    with Some show ?thesis unfolding joint_depth_def len by (simp add: get)
  qed
  have "omap_wf (s_skeleton ?s')" using wf by (simp add: skel_wf_def omap_wf_update)
  moreover have "j_id j = x \<and> joint_depth ?s' x \<noteq> None" if "sk_get ?s' x = Some j" for x j
  proof (cases "x = k")
    case True
    with that get have "j = J" by simp
    with True jid fresh show ?thesis by simp
  next
    case False
    with that get have "sk_get s x = Some j" by simp
    with skel_wf_key_id [OF wf] old show ?thesis by blast
  qed
  ultimately show ?thesis unfolding skel_wf_iff by blast
qed


lemma new_joint_fields [simp]:
  "j_id (setConstraint c (setParent par (new_joint info))) = info_joint_num info"
  "j_parent (setConstraint c (setParent par (new_joint info))) = map_option fst par"
  by (simp_all add: setConstraint_def setParent_def new_joint_def reset_from_parent_def resetFromInfo_def
      Let_def split: option.split)

lemma skel_wf_addJoint:
  assumes wf: "skel_wf s" and k: "info_joint_num info = k"
  shows "skel_wf (addJoint k p info c s)"
proof (cases "k < 0 \<or> sk_get s k \<noteq> None")
  case True
  with wf show ?thesis by (auto simp: addJoint_def)
next
  case False
  then have new: "sk_get s k = None" "\<not> k < 0" by auto
  show ?thesis
  proof (cases "sk_get s p")
    case None
    with new wf k show ?thesis
      by (auto simp: addJoint_def intro!: skel_wf_insert)
  next
    case (Some pj)
    let ?s1 = "sk_modify p (addChild k) s"
    have sh: "skel_tree ?s1 = skel_tree s" by (simp add: skel_tree_sk_modify keeps_tree_addChild)
    have wf1: "skel_wf ?s1" using wf by (simp add: skel_wf_tree [OF sh])
    have "p \<noteq> k" using Some new by auto
    then have "sk_get ?s1 k = None" "sk_get ?s1 p \<noteq> None"
      using new Some by (simp_all add: sk_get_sk_modify)
    with wf1 k have "skel_wf (?s1\<lparr>s_skeleton := omap_update k
        (setConstraint c (setParent (Some (p, pj)) (new_joint info))) (s_skeleton ?s1)\<rparr>)"
      by (intro skel_wf_insert) simp_all
    with new Some show ?thesis by (simp add: addJoint_def Let_def)
  qed
qed

lemma skel_wf_of_built: "built s \<Longrightarrow> skel_wf s"
proof (induction rule: built.induct)
  case built_new
  then show ?case by (simp add: skel_wf_def new_solver_def omap_wf_def)
next
  case (built_root s r)
  then show ?case by (simp add: setRootID_def skel_wf_shape [of "s\<lparr>s_root_id := r\<rparr>" s])
next
  case (built_add s info k p c)
  then show ?case by (simp add: skel_wf_addJoint)
next
  case (built_sub_bases s ids)
  then show ?case by (simp add: setSubBaseIds_def skel_wf_shape [of "s\<lparr>s_sub_base_ids := ids\<rparr>" s])
next
  case (built_sub_roots s ids)
  then show ?case by (simp add: setSubRootIds_def skel_wf_shape [of "s\<lparr>s_sub_root_ids := ids\<rparr>" s])
next
  case (built_wrist s k)
  then show ?case
    by (simp add: addWristID_def skel_wf_shape [of "s\<lparr>s_wrist_joints := s_wrist_joints s @ [k]\<rparr>" s])
next
  case (built_configs s cs)
  then show ?case by (simp add: skel_wf_shape [of "s\<lparr>s_configs := cs\<rparr>" s])
next
  case (built_rebuild s s')
  then show ?case by (simp add: skel_wf_shape [OF rebuildAllChains_shape])
qed

text \<open>C3: every solver the API can build has a well-formed skeleton: the map is ordered,
  each joint's id is its key, and every parent walk reaches a root.\<close>

theorem built_skel_wf: "built s \<Longrightarrow> skel_wf s"
  by (rule skel_wf_of_built)


section \<open>Concrete scenario\<close>

lemmas rebuild_eval_defs = rebuildAllChains_def clear_chains_def apply_config_def sk_get_def sk_modify_def
  add_chain_def buildChain_def sequential_fixup_def make_joins_def find_joins_def join_one_def
  collect_active_roots_def collect_active_joints_def chain_base_is_root_def sk_active_def
  getSingleActiveChild_def inner_end_is_def isSubRoot_def isSubBase_def
  hasPosTarget_def hasTargetPos_def hasTargetRot_def hasLocalRot_def hasDelegated_def hasLocalPos_def
  hasLocalScale_def isActive_def activate_def setConfig_def resetFlags_def flagForHarvest_def flag_defs
  has_flag_bits bit_or_iff build_chain_loop.simps demo_target_def cfg_setTargetPos_def default_config_def oset_insert_def

lemma demo_scene_rebuild:
  "map_option (case_sum Inl (\<lambda>s. Inr (s_chains s, s_active_roots s))) (rebuildAllChains demo_scene)
     = Some (Inr ([(2, [2, 1, 0]), (3, [3, 2]), (4, [4, 2])], [0]))"
  by (simp add: demo_scene_def demo_defs rebuild_eval_defs)

text \<open>The specification's sub-base split: on the skeleton \<open>0 - 1 - 2\<close> with children \<open>3\<close>
  and \<open>4\<close> of \<open>2\<close>, position targets on \<open>3\<close> and \<open>4\<close> give exactly the chains
  \<open>[3, 2]\<close>, \<open>[4, 2]\<close> and \<open>[2, 1, 0]\<close>, and the single active root \<open>0\<close>.\<close>

lemma rebuild_sub_base_split:
  "\<exists>s'. rebuildAllChains demo_scene = Some (Inr s')
     \<and> s_chains s' = [(2, [2, 1, 0]), (3, [3, 2]), (4, [4, 2])] \<and> s_active_roots s' = [0]"
proof (cases "rebuildAllChains demo_scene")
  case None
  with demo_scene_rebuild show ?thesis by simp
next
  case (Some r)
  with demo_scene_rebuild show ?thesis by (cases r) auto
qed

lemma demo_scene_wf: "skel_wf demo_scene"
  by (simp add: demo_scene_def demo_defs skel_wf_def joint_depth_def omap_wf_def)

lemma built_demo_scene: "built demo_scene"
  unfolding demo_scene_def demo_skeleton_def
  by (simp only: fold_simps split) (intro built.intros; simp add: demo_info_def)


lemma rebuildAllChains_returns_witness:
  "skel_wf demo_scene \<and> rebuildAllChains demo_scene \<noteq> None"
  using rebuildAllChains_returns [OF demo_scene_wf] demo_scene_wf by simp

lemma built_skel_wf_witness: "built demo_scene \<and> skel_wf demo_scene"
  using built_skel_wf [OF built_demo_scene] built_demo_scene by simp

section \<open>The chains of a rebuild\<close>

lemma s_chains_sk_modify [simp]: "s_chains (sk_modify k f s) = s_chains s"
  by (simp add: sk_modify_def)

lemma chains_ok_fields [simp]:
  "chains_ok (sk_modify k f s) = chains_ok s"
  "chains_ok (s\<lparr>s_configs := cf\<rparr>) = chains_ok s"
  "chains_ok (s\<lparr>s_active_roots := r\<rparr>) = chains_ok s"
  "chains_ok (s\<lparr>s_active_joints := a\<rparr>) = chains_ok s"
  "chains_ok (fold (\<lambda>k. sk_modify k f) ks s) = chains_ok s"
  by (simp_all add: chains_ok_def sk_modify_def fold_sk_modify_state)

lemma buildChain_hd:
  "buildChain k sb n s = (s', chain, sb') \<Longrightarrow> chain \<noteq> [] \<and> hd chain = k"
  unfolding buildChain_def by (auto dest!: build_chain_loop_walk)

lemma add_chain_chains_ok:
  assumes "add_chain k n (s, sb) = (s', sb')" "chains_ok s"
  shows "chains_ok s'"
proof -
  obtain s1 chain sb1 where bc: "buildChain k sb n s = (s1, chain, sb1)" by (metis prod_cases3)
  with assms(1) have s': "s' = s1\<lparr>s_chains := omap_update k chain (s_chains s1)\<rparr>"
    by (simp add: add_chain_def)
  obtain ks where "s1 = activate_all (k # ks) s"
    using buildChain_walk [OF bc] by blast
  then have "s_chains s1 = s_chains s" by simp
  with s' assms(2) buildChain_hd [OF bc] set_omap_update_sub [of k chain "s_chains s"] show ?thesis
    by (fastforce simp: chains_ok_def)
qed

lemma chains_ok_clear_chains: "chains_ok (clear_chains s)"
  by (simp add: clear_chains_def chains_ok_def Let_def)

lemma sequential_fixup_chains:
  "sequential_fixup k c s = Inr s' \<Longrightarrow> s_chains s' = s_chains s"
  by (auto simp: sequential_fixup_def joint_setTargetPos_def Let_def
      split: option.splits if_splits sum.splits)

lemma sequential_fixup_chains_ok:
  "sequential_fixup k c s = Inr s' \<Longrightarrow> chains_ok s' = chains_ok s"
  by (simp add: chains_ok_def sequential_fixup_chains)

lemma apply_config_chains_ok:
  assumes "chains_ok s" "apply_config k (s, sb) = Inr (s', sb')"
  shows "chains_ok s'"
  using assms
  by (auto simp: apply_config_def apply_root_config_def Let_def
      split: option.splits if_splits sum.splits prod.splits
      dest!: add_chain_chains_ok sequential_fixup_chains_ok)


lemma apply_configs_chains_ok:
  "apply_configs ks (s, sb) = Inr (s', sb') \<Longrightarrow> chains_ok s \<Longrightarrow> chains_ok s'"
proof (induction ks arbitrary: s sb)
  case (Cons k ks)
  then obtain s1 sb1 where "apply_config k (s, sb) = Inr (s1, sb1)" "apply_configs ks (s1, sb1) = Inr (s', sb')"
    by (auto split: sum.splits)
  with Cons.IH Cons.prems(2) apply_config_chains_ok show ?case by blast
qed simp

lemma sub_base_gen_chains_ok:
  "sub_base_gen ks (s, new) = Inr (s', new') \<Longrightarrow> chains_ok s \<Longrightarrow> chains_ok s'"
proof (induction ks arbitrary: s new)
  case (Cons k ks)
  obtain s1 new1 where ac: "add_chain k 255 (s, new) = (s1, new1)" by fastforce
  with Cons.prems(1) have "sub_base_gen ks (s1, new1) = Inr (s', new')" by (simp split: if_splits)
  with Cons.IH add_chain_chains_ok [OF ac Cons.prems(2)] show ?case by blast
qed simp

lemma sub_base_loop_chains_ok:
  "sub_base_loop n s sb = Some (Inr s') \<Longrightarrow> chains_ok s \<Longrightarrow> chains_ok s'"
  by (induction n s sb rule: sub_base_loop.induct)
     (auto split: if_splits sum.splits prod.splits dest: sub_base_gen_chains_ok)

lemma join_one_chains_ok:
  assumes "join_one i s = Inr s'" "chains_ok s"
  shows "chains_ok s'"
proof (cases "find (\<lambda>(k, chain). inner_end_is s i chain) (s_chains s)")
  case (Some r)
  then obtain rk recipient where f: "find (\<lambda>(k, chain). inner_end_is s i chain) (s_chains s) = Some (rk, recipient)"
    by (cases r) auto
  then have "(rk, recipient) \<in> set (s_chains s)" "recipient \<noteq> []"
    by (auto simp: find_Some_iff inner_end_is_def) (metis nth_mem)
  moreover obtain donor where "s' = s\<lparr>s_chains := omap_delete i (omap_update rk (recipient @ tl donor) (s_chains s))\<rparr>"
    using assms(1) f by (auto simp: join_one_def split: option.splits)
  ultimately show ?thesis
    using assms(2) set_omap_delete_sub set_omap_update_sub [of rk "recipient @ tl donor" "s_chains s"]
    by (fastforce simp: chains_ok_def)
qed (use assms in \<open>simp add: join_one_def\<close>)

lemma make_joins_chains_ok:
  "make_joins s = Inr s' \<Longrightarrow> chains_ok s \<Longrightarrow> chains_ok s'"
proof -
  have "join_all is s = Inr s' \<Longrightarrow> chains_ok s \<Longrightarrow> chains_ok s'" for "is" s
    by (induction "is" s rule: join_all.induct) (auto split: sum.splits dest: join_one_chains_ok)
  then show "make_joins s = Inr s' \<Longrightarrow> chains_ok s \<Longrightarrow> chains_ok s'"
    by (simp add: make_joins_def)
qed

lemma chains_ok_collect [simp]:
  "chains_ok (collect_active_roots s) = chains_ok s"
  "chains_ok (collect_active_joints s) = chains_ok s"
proof -
  have "s_chains (fold (\<lambda>(k, chain) s'. if chain \<noteq> [] \<and> chain_base_is_root s' (last chain)
                          then s'\<lparr>s_active_roots := oset_insert (last chain) (s_active_roots s')\<rparr>
                          else s') cs s) = s_chains s" for cs :: "(joint_id \<times> joint_id list) list" and s
    by (induction cs arbitrary: s) auto
  then show "chains_ok (collect_active_roots s) = chains_ok s"
    by (simp add: collect_active_roots_def chains_ok_def)
  show "chains_ok (collect_active_joints s) = chains_ok s"
    by (simp add: collect_active_joints_def Let_def)
qed

lemma rebuildAllChains_chains_ok:
  assumes "rebuildAllChains s = Some (Inr s')"
  shows "chains_ok s'"
proof -
  obtain s1 sb s2 s3 where
    a: "apply_configs (map fst (s_configs (clear_chains s))) (clear_chains s, []) = Inr (s1, sb)"
    and l: "sub_base_loop (Suc (length (s_skeleton s1))) s1 sb = Some (Inr s2)"
    and j: "make_joins s2 = Inr s3"
    and r: "s' = collect_active_joints (collect_active_roots s3)"
    using assms
    by (auto simp: rebuildAllChains_def Let_def split: option.splits sum.splits simp del: sub_base_loop.simps)
  have "chains_ok s1" using apply_configs_chains_ok [OF a chains_ok_clear_chains] .
  then have "chains_ok s2" using sub_base_loop_chains_ok [OF l] by blast
  then have "chains_ok s3" using make_joins_chains_ok [OF j] by blast
  with r show ?thesis by simp
qed

end
