(* ===== verification/IK_Solve.thy ===== *)
theory IK_Solve
  imports IK_Rebuild
begin

text \<open>The solve entry points of \<open>LLIK::Solver\<close>: the change test on new joint configurations
  (\<open>updateJointConfigs\<close>), the error measure (\<open>measureMaxError\<close>), the relaxation toward the
  reset pose (\<open>Joint::relaxRot\<close>, \<open>Joint::relaxRotationsRecursively\<close>) and the iteration loop of
  \<open>solve\<close>/\<open>solveOnce\<close>. The FABRIK pass (\<open>executeFabrikPass\<close>) is a parameter \<open>pass\<close> of the
  loop: the loop's properties hold for every pass.\<close>

section \<open>Change test on the joint configurations\<close>

text \<open>The field comparisons of one old/new pair, in the order of the code: flags first, then the
  target position, target rotation, local position and local rotation of the old mask.\<close>

definition config_differs :: "real \<Rightarrow> config \<Rightarrow> config \<Rightarrow> bool" where
  "config_differs err old new \<longleftrightarrow>
     (let mask = cfg_flags old in
      mask \<noteq> cfg_flags new
      \<or> (has_flag mask CONFIG_FLAG_TARGET_POS
          \<and> err < \<bar>dist_vec (cfg_target_pos old) (cfg_target_pos new)\<bar>)
      \<or> (has_flag mask CONFIG_FLAG_TARGET_ROT
          \<and> \<not> q_almost_equal (cfg_target_rot old) (cfg_target_rot new))
      \<or> (has_flag mask CONFIG_FLAG_LOCAL_POS
          \<and> err < \<bar>dist_vec (cfg_local_pos old) (cfg_local_pos new)\<bar>)
      \<or> (has_flag mask CONFIG_FLAG_LOCAL_ROT
          \<and> \<not> q_almost_equal (cfg_local_rot old) (cfg_local_rot new)))"

text \<open>The loop over the old map \<open>mJointConfigs\<close>, breaking at the first change: a key missing
  from the new map is a change.\<close>

fun configs_changed_loop :: "real \<Rightarrow> (joint_id, config) omap \<Rightarrow> (joint_id, config) omap \<Rightarrow> bool" where
  "configs_changed_loop err new [] = False"
| "configs_changed_loop err new ((k, old) # rest) =
     (case map_of new k of
        None \<Rightarrow> True
      | Some nc \<Rightarrow> (if config_differs err old nc then True else configs_changed_loop err new rest))"

definition updateJointConfigs :: "(joint_id, config) omap \<Rightarrow> solver \<Rightarrow> bool \<times> solver" where
  "updateJointConfigs configs s =
     (let changed =
        (if length configs = length (s_configs s)
         then configs_changed_loop (s_acceptable_error s) configs (s_configs s)
         else True)
      in (changed, if changed then s\<lparr>s_configs := configs\<rparr> else s))"

section \<open>Error measure\<close>

text \<open>The loop of \<open>measureMaxError\<close> over \<open>mJointConfigs\<close>, carrying \<open>max_error\<close>: the root's
  config is skipped; a config with a target position that is not delegated reads
  \<open>mSkeleton[joint_id]\<close>, a null dereference when the joint is absent.\<close>

fun measure_loop :: "solver \<Rightarrow> real \<Rightarrow> (joint_id, config) omap \<Rightarrow> ik_error + real" where
  "measure_loop s m [] = Inr m"
| "measure_loop s m ((k, c) # rest) =
     (if k = s_root_id s then measure_loop s m rest
      else if hasTargetPos c \<and> \<not> hasDelegated c then
        (case sk_get s k of
           None \<Rightarrow> Inl (NullDeref k)
         | Some j \<Rightarrow>
             (let d = dist_vec (computeWorldEndPos j) (cfg_target_pos c)
              in measure_loop s (if m < d then d else m) rest))
      else measure_loop s m rest)"

definition measureMaxError :: "solver \<Rightarrow> ik_error + real" where
  "measureMaxError s = measure_loop s 0 (s_configs s)"

section \<open>Relaxation toward the reset pose\<close>

text \<open>\<open>Joint::relaxRot\<close>: blend the local rotation toward identity unless it is locked, then
  recompute the world transform from the parent (already relaxed) or from the local one.\<close>

definition relaxRot :: "real \<Rightarrow> joint option \<Rightarrow> joint \<Rightarrow> joint" where
  "relaxRot b par j =
     (let j1 = (if \<not> localRotLocked j then j\<lparr>j_local_rot := q_lerp b (j_local_rot j) q_identity\<rparr>
                else j)
      in case par of
           Some p \<Rightarrow> j1\<lparr>j_rot := q_normalize (q_mul (j_local_rot j1) (j_rot p)),
                       j_pos := v_add (j_pos p) (v_rot (j_local_pos j1) (j_rot p))\<rparr>
         | None \<Rightarrow> j1\<lparr>j_rot := j_local_rot j1, j_pos := j_local_pos j1\<rparr>)"

definition clamp_blend :: "real \<Rightarrow> real" where
  "clamp_blend b = min (max b 0) 1"

text \<open>\<open>Joint::relaxRotationsRecursively\<close> on the joint with key \<open>k\<close>, then on its active
  children in order. The recursion follows the child pointers, which the model bounds by a fuel
  (\<open>None\<close> when exhausted); the blend factor is clamped at each call, as in the code.
  Joint pointers of the code are keys of the skeleton here: a key without a joint is a null
  dereference.\<close>

fun relax_rec :: "nat \<Rightarrow> real \<Rightarrow> joint_id \<Rightarrow> solver \<Rightarrow> (ik_error + solver) option"
and relax_children :: "nat \<Rightarrow> real \<Rightarrow> joint_id list \<Rightarrow> solver \<Rightarrow> (ik_error + solver) option" where
  "relax_rec 0 b k s = None"
| "relax_rec (Suc n) b k s =
     (case sk_get s k of
        None \<Rightarrow> Some (Inl (NullDeref k))
      | Some j \<Rightarrow>
          (let b' = clamp_blend b in
           case j_parent j of
             None \<Rightarrow> relax_children n b' (j_children j) (sk_modify k (relaxRot b' None) s)
           | Some p \<Rightarrow>
               (case sk_get s p of
                  None \<Rightarrow> Some (Inl (NullDeref p))
                | Some pj \<Rightarrow> relax_children n b' (j_children j) (sk_modify k (relaxRot b' (Some pj)) s))))"
| "relax_children n b [] s = Some (Inr s)"
| "relax_children n b (c # cs) s =
     (case sk_get s c of
        None \<Rightarrow> Some (Inl (NullDeref c))
      | Some jc \<Rightarrow>
          (if isActive jc then
             (case relax_rec n b c s of
                None \<Rightarrow> None
              | Some (Inl e) \<Rightarrow> Some (Inl e)
              | Some (Inr s') \<Rightarrow> relax_children n b cs s')
           else relax_children n b cs s))"

text \<open>The active roots relaxed in turn by \<open>solve\<close>, with \<open>INITIAL_RELAXATION_FACTOR\<close>.\<close>

definition INITIAL_RELAXATION_FACTOR :: real where
  "INITIAL_RELAXATION_FACTOR = 1 / 4"

fun relax_roots :: "nat \<Rightarrow> joint_id list \<Rightarrow> solver \<Rightarrow> (ik_error + solver) option" where
  "relax_roots n [] s = Some (Inr s)"
| "relax_roots n (r # rs) s =
     (case relax_rec n INITIAL_RELAXATION_FACTOR r s of
        None \<Rightarrow> None
      | Some (Inl e) \<Rightarrow> Some (Inl e)
      | Some (Inr s') \<Rightarrow> relax_roots n rs s')"

section \<open>The solve loop\<close>

text \<open>\<open>solveOnce\<close>: one pass, then the error measure. The pass (\<open>executeFabrikPass(true)\<close>) is the
  parameter \<open>pass\<close>.\<close>

definition solveOnce :: "(solver \<Rightarrow> ik_error + solver) \<Rightarrow> solver \<Rightarrow> ik_error + solver \<times> real" where
  "solveOnce pass s =
     (case pass s of
        Inl e \<Rightarrow> Inl e
      | Inr s' \<Rightarrow> (case measureMaxError s' of Inl e \<Rightarrow> Inl e | Inr m \<Rightarrow> Inr (s', m)))"

definition MIN_SOLVER_ITERATIONS :: nat where "MIN_SOLVER_ITERATIONS = 4"
definition MAX_SOLVER_ITERATIONS :: nat where "MAX_SOLVER_ITERATIONS = 16"

text \<open>\<open>std::numeric_limits<F32>::max()\<close>, the initial \<open>max_error\<close>.\<close>

definition F32_MAX :: real where "F32_MAX = (2 - 1 / 2 ^ 23) * 2 ^ 127"

text \<open>The loop \<open>for (loop = 0; loop < MIN || (loop < MAX && max_error > mAcceptableError); ++loop)
  max_error = solveOnce();\<close>, returning the pose, the last \<open>max_error\<close> and the final value of
  \<open>loop\<close>. The guard reads \<open>mAcceptableError\<close> of the current state at every test.\<close>

function solve_loop ::
  "(solver \<Rightarrow> ik_error + solver) \<Rightarrow> nat \<Rightarrow> real \<Rightarrow> solver \<Rightarrow> ik_error + solver \<times> real \<times> nat" where
  "solve_loop pass loop m s =
     (if loop < MIN_SOLVER_ITERATIONS \<or> (loop < MAX_SOLVER_ITERATIONS \<and> s_acceptable_error s < m) then
        (case solveOnce pass s of
           Inl e \<Rightarrow> Inl e
         | Inr (s', m') \<Rightarrow> solve_loop pass (Suc loop) m' s')
      else Inr (s, m, loop))"
  by pat_completeness auto
termination
  by (relation "measure (\<lambda>(pass, loop, m, s). MAX_SOLVER_ITERATIONS - loop)")
     (auto simp: MIN_SOLVER_ITERATIONS_def MAX_SOLVER_ITERATIONS_def)

declare solve_loop.simps [simp del]

text \<open>\<open>Solver::solve\<close>: rebuild the chains, relax every active root, iterate, and store the
  last error in \<open>mLastError\<close>. The relaxation recursion gets one unit of fuel per joint beyond
  the skeleton's size.\<close>

definition solve :: "(solver \<Rightarrow> ik_error + solver) \<Rightarrow> solver \<Rightarrow> (ik_error + solver \<times> real) option" where
  "solve pass s =
     (case rebuildAllChains s of
        None \<Rightarrow> None
      | Some (Inl e) \<Rightarrow> Some (Inl e)
      | Some (Inr s1) \<Rightarrow>
          (case relax_roots (Suc (length (s_skeleton s1))) (s_active_roots s1) s1 of
             None \<Rightarrow> None
           | Some (Inl e) \<Rightarrow> Some (Inl e)
           | Some (Inr s2) \<Rightarrow>
               Some (case solve_loop pass 0 F32_MAX s2 of
                       Inl e \<Rightarrow> Inl e
                     | Inr (s3, m, loop) \<Rightarrow> Inr (s3\<lparr>s_last_error := m\<rparr>, m))))"

section \<open>Specification predicates\<close>

text \<open>Child pointers and parent pointers agree: every child of a joint is a joint of the
  skeleton whose parent is that joint.\<close>

definition links_ok :: "solver \<Rightarrow> bool" where
  "links_ok s \<longleftrightarrow>
     (\<forall>(k, j) \<in> set (s_skeleton s). \<forall>c \<in> set (j_children j).
        \<exists>jc. sk_get s c = Some jc \<and> j_parent jc = Some k)"

definition skel_children :: "solver \<Rightarrow> (joint_id \<times> joint_id list) list" where
  "skel_children s = map (\<lambda>(k, j). (k, j_children j)) (s_skeleton s)"

text \<open>The reference value of \<open>measureMaxError\<close>: the largest distance between a targeted,
  non-delegated, non-root joint's end and its target, or 0.\<close>

definition target_errors :: "solver \<Rightarrow> real list" where
  "target_errors s =
     [dist_vec (computeWorldEndPos j) (cfg_target_pos c).
        (k, c) \<leftarrow> s_configs s, k \<noteq> s_root_id s \<and> hasTargetPos c \<and> \<not> hasDelegated c,
        j \<leftarrow> (case sk_get s k of None \<Rightarrow> [] | Some j \<Rightarrow> [j])]"

definition missing_target :: "solver \<Rightarrow> (joint_id \<times> config) option" where
  "missing_target s =
     find (\<lambda>(k, c). k \<noteq> s_root_id s \<and> hasTargetPos c \<and> \<not> hasDelegated c \<and> sk_get s k = None)
       (s_configs s)"

text \<open>A solver holding one position-targeted config, for the scenarios.\<close>

definition one_config_solver :: solver where
  "one_config_solver = new_solver\<lparr>s_configs := [(1, cfg_setTargetPos x_axis default_config)]\<rparr>"

section \<open>The change test\<close>

lemma dist_vec_self [simp]: "dist_vec a a = 0"
  by (simp add: dist_vec_def v_sub_def v_length_def v_dot_def)

lemma q_almost_equal_refl [simp]: "q_almost_equal a a"
  by (simp add: q_almost_equal_def q_close_def f_approximately_zero_def)

lemma config_differs_refl: "0 \<le> err \<Longrightarrow> \<not> config_differs err c c"
  by (simp add: config_differs_def Let_def)

lemma configs_changed_loop_iff:
  "configs_changed_loop err new old \<longleftrightarrow>
     (\<exists>(k, oc) \<in> set old. case map_of new k of None \<Rightarrow> True | Some nc \<Rightarrow> config_differs err oc nc)"
  by (induction err new old rule: configs_changed_loop.induct) (auto split: option.split)

lemma sorted_keys_eq:
  assumes "sorted_wrt (<) (xs :: 'a::linorder list)" "sorted_wrt (<) ys"
    "set xs \<subseteq> set ys" "length xs = length ys"
  shows "xs = ys"
proof -
  have d: "distinct xs" "distinct ys" "sorted xs" "sorted ys"
    using assms(1,2) by (simp_all add: strict_sorted_iff)
  then have "card (set xs) = card (set ys)" using assms(4) by (simp add: distinct_card)
  then have "set xs = set ys" using assms(3) by (simp add: card_subset_eq)
  with d show ?thesis by (simp add: sorted_distinct_set_unique)
qed

text \<open>C26: submitting the stored configurations again is not a change when the tolerance is
  not negative: the solver is left as it is.\<close>

theorem updateJointConfigs_unchanged:
  assumes "omap_wf (s_configs s)" "0 \<le> s_acceptable_error s"
  shows "updateJointConfigs (s_configs s) s = (False, s)"
proof -
  have "\<not> configs_changed_loop (s_acceptable_error s) (s_configs s) (s_configs s)"
    using assms by (auto simp: configs_changed_loop_iff omap_wf_map_of_iff config_differs_refl)
  then show ?thesis by (simp add: updateJointConfigs_def)
qed

text \<open>C27: when \<open>updateJointConfigs\<close> reports no change, the new map has exactly the stored
  keys, and every stored config agrees with its new one in its flags and, within tolerance,
  in the positions and rotations its flags select.\<close>

theorem updateJointConfigs_no_change:
  assumes "omap_wf cs" "omap_wf (s_configs s)" "updateJointConfigs cs s = (False, s')"
  shows "s' = s \<and> map fst cs = map fst (s_configs s)
    \<and> (\<forall>k oc nc. map_of (s_configs s) k = Some oc \<longrightarrow> map_of cs k = Some nc
         \<longrightarrow> \<not> config_differs (s_acceptable_error s) oc nc)"
proof -
  have len: "length cs = length (s_configs s)"
    and nc: "\<not> configs_changed_loop (s_acceptable_error s) cs (s_configs s)" and s': "s' = s"
    using assms(3) by (auto simp: updateJointConfigs_def Let_def split: if_splits)
  have "set (map fst (s_configs s)) \<subseteq> set (map fst cs)"
  proof
    fix k assume "k \<in> set (map fst (s_configs s))"
    then obtain oc where "(k, oc) \<in> set (s_configs s)" by auto
    with nc have "map_of cs k \<noteq> None"
      unfolding configs_changed_loop_iff by (fastforce split: option.splits)
    then show "k \<in> set (map fst cs)" by (simp add: map_of_eq_None_iff)
  qed
  then have "map fst (s_configs s) = map fst cs"
    using assms(1,2) len by (intro sorted_keys_eq) (simp_all add: omap_wf_def)
  moreover have "\<forall>k oc nc. map_of (s_configs s) k = Some oc \<longrightarrow> map_of cs k = Some nc
         \<longrightarrow> \<not> config_differs (s_acceptable_error s) oc nc"
    using nc by (force simp: configs_changed_loop_iff dest: map_of_SomeD)
  ultimately show ?thesis using s' by simp
qed

section \<open>Relaxation keeps the tree and returns\<close>

lemma keeps_shape_relaxRot [shape_intros]: "keeps_shape (relaxRot b par)"
  by (auto simp: relaxRot_def Let_def split: option.split)

lemma map_of_skel_shape:
  "map_of (skel_shape s) k = map_option (\<lambda>j. ((j_parent j, j_id j), j_children j)) (sk_get s k)"
  using map_of_map [of "\<lambda>j. ((j_parent j, j_id j), j_children j)" "s_skeleton s"]
  by (simp add: skel_shape_def sk_get_def)

lemma links_ok_alt:
  "links_ok s \<longleftrightarrow>
     (\<forall>(k, t, cs) \<in> set (skel_shape s). \<forall>c \<in> set cs.
        \<exists>i ccs. map_of (skel_shape s) c = Some ((Some k, i), ccs))"
  by (auto simp: links_ok_def skel_shape_def map_of_skel_shape [unfolded skel_shape_def])

lemma links_ok_shape:
  assumes "skel_shape s' = skel_shape s"
  shows "links_ok s' = links_ok s"
  unfolding links_ok_alt assms ..

lemma relax_shape:
  shows "relax_rec n b k s = Some (Inr s') \<Longrightarrow> skel_shape s' = skel_shape s"
    and "relax_children n b cs s = Some (Inr s') \<Longrightarrow> skel_shape s' = skel_shape s"
proof (induction n b k s and n b cs s arbitrary: s' and s' rule: relax_rec_relax_children.induct)
  case (2 n b k s)
  then show ?case
    by (auto simp: Let_def skel_shape_sk_modify shape_intros split: option.splits)
next
  case (4 n b c cs s)
  then show ?case by (auto split: option.splits sum.splits if_splits)
qed simp_all

lemma joint_depth_get: "joint_depth s k = Some d \<Longrightarrow> \<exists>j. sk_get s k = Some j"
  by (cases "length (s_skeleton s)") (auto simp: joint_depth_def split: option.splits)

lemma joint_depth_less: "joint_depth s k = Some d \<Longrightarrow> d < length (s_skeleton s)"
  by (simp add: joint_depth_def depth_fuel_bound)

text \<open>A child of a joint at depth \<open>d\<close> is a joint at depth \<open>d + 1\<close>.\<close>

lemma child_depth:
  assumes wf: "skel_wf s" and l: "links_ok s" and j: "sk_get s k = Some j"
    and d: "joint_depth s k = Some d" and c: "c \<in> set (j_children j)"
  shows "\<exists>jc. sk_get s c = Some jc \<and> joint_depth s c = Some (Suc d)"
proof -
  from l j c obtain jc where jc: "sk_get s c = Some jc" "j_parent jc = Some k"
    by (force simp: links_ok_def sk_get_def dest: map_of_SomeD)
  from skel_wf_depth [OF wf jc(1)] obtain dc where dc: "joint_depth s c = Some dc" by blast
  from depth_fuel_parent [OF dc [unfolded joint_depth_def] jc] d show ?thesis
    using jc dc by (auto simp: joint_depth_def)
qed

lemma relax_rec_returns_depth:
  "skel_wf s \<Longrightarrow> links_ok s \<Longrightarrow> joint_depth s k = Some d \<Longrightarrow> length (s_skeleton s) \<le> d + n
   \<Longrightarrow> relax_rec n b k s \<noteq> None"
proof (induction n arbitrary: k d s b)
  case 0
  then show ?case using joint_depth_less [OF "0.prems"(3)] by simp
next
  case (Suc n)
  obtain j where j: "sk_get s k = Some j" using joint_depth_get [OF Suc.prems(3)] by blast
  have kids: "relax_children n b' cs s1 \<noteq> None"
    if "skel_shape s1 = skel_shape s" "set cs \<subseteq> set (j_children j)" for b' cs s1
    using that
  proof (induction cs arbitrary: s1)
    case Nil
    then show ?case by simp
  next
    case (Cons c cs)
    note sh = Cons.prems(1)
    from child_depth [OF Suc.prems(1,2) j Suc.prems(3)] Cons.prems(2) obtain jc
      where "sk_get s c = Some jc" and dc: "joint_depth s c = Some (Suc d)" by auto
    have wf1: "skel_wf s1" "links_ok s1" "joint_depth s1 c = Some (Suc d)"
      "length (s_skeleton s1) \<le> Suc d + n"
      using Suc.prems dc by (simp_all add: skel_wf_shape [OF sh] links_ok_shape [OF sh]
          joint_depth_shape [OF sh] length_skeleton_shape [OF sh])
    have "relax_rec n b' c s1 \<noteq> None" by (rule Suc.IH [OF wf1])
    moreover have "relax_children n b' cs s1 \<noteq> None"
      using sh Cons.prems(2) by (intro Cons.IH) auto
    moreover have "relax_children n b' cs s' \<noteq> None" if "relax_rec n b' c s1 = Some (Inr s')" for s'
      using relax_shape(1) [OF that] sh Cons.prems(2) by (intro Cons.IH) auto
    ultimately show ?case by (auto split: option.splits sum.splits)
  qed
  have "relax_children n (clamp_blend b) (j_children j) (sk_modify k (relaxRot (clamp_blend b) par) s) \<noteq> None"
    for par by (rule kids) (simp_all add: skel_shape_sk_modify shape_intros)
  with j show ?case by (simp add: Let_def split: option.split)
qed

lemma relax_rec_returns:
  assumes "skel_wf s" "links_ok s"
  shows "relax_rec (Suc (length (s_skeleton s))) b k s \<noteq> None"
proof (cases "sk_get s k")
  case None
  then show ?thesis by simp
next
  case (Some j)
  from skel_wf_depth [OF assms(1) Some] obtain d where d: "joint_depth s k = Some d" by blast
  have "length (s_skeleton s) \<le> d + Suc (length (s_skeleton s))" by simp
  from relax_rec_returns_depth [OF assms d this] show ?thesis .
qed

lemma relax_roots_shape:
  "relax_roots n rs s = Some (Inr s') \<Longrightarrow> skel_shape s' = skel_shape s"
  by (induction n rs s rule: relax_roots.induct)
     (auto split: option.splits sum.splits dest!: relax_shape(1))

lemma relax_roots_returns:
  "skel_wf s \<Longrightarrow> links_ok s \<Longrightarrow> relax_roots (Suc (length (s_skeleton s))) rs s \<noteq> None"
proof (induction rs arbitrary: s)
  case Nil
  then show ?case by simp
next
  case (Cons r rs)
  have "relax_roots (Suc (length (s_skeleton s))) rs s' \<noteq> None"
    if "relax_rec (Suc (length (s_skeleton s))) INITIAL_RELAXATION_FACTOR r s = Some (Inr s')" for s'
  proof -
    note sh = relax_shape(1) [OF that]
    have "skel_wf s'" "links_ok s'"
      using Cons.prems by (simp_all add: skel_wf_shape [OF sh] links_ok_shape [OF sh])
    from Cons.IH [OF this] show ?thesis by (simp add: length_skeleton_shape [OF sh])
  qed
  with relax_rec_returns [OF Cons.prems, of INITIAL_RELAXATION_FACTOR r] show ?case
    by (auto split: option.splits sum.splits)
qed

section \<open>Child links of the solvers the API builds\<close>

lemma links_ok_fields [simp]:
  "links_ok (s\<lparr>s_configs := cf\<rparr>) = links_ok s"
  "links_ok (s\<lparr>s_root_id := rid\<rparr>) = links_ok s"
  "links_ok (s\<lparr>s_sub_base_ids := ids\<rparr>) = links_ok s"
  "links_ok (s\<lparr>s_sub_root_ids := ids\<rparr>) = links_ok s"
  "links_ok (s\<lparr>s_wrist_joints := w\<rparr>) = links_ok s"
  by (simp_all add: links_ok_def sk_get_def)

lemma new_joint_children [simp]: "j_children (setConstraint c (setParent par (new_joint info))) = []"
  by (simp add: setConstraint_def setParent_def new_joint_def reset_from_parent_def resetFromInfo_def
      Let_def split: option.split)

lemma links_ok_addJoint:
  assumes l: "links_ok s"
  shows "links_ok (addJoint k p info c s)"
proof (cases "k < 0 \<or> sk_get s k \<noteq> None")
  case True
  with l show ?thesis by (auto simp: addJoint_def)
next
  case False
  then have new: "k \<notin> fst ` set (s_skeleton s)" by (simp add: sk_get_None_keys)
  show ?thesis
  proof (cases "sk_get s p")
    case None
    let ?J = "setConstraint c (setParent None (new_joint info))"
    have get: "sk_get (s\<lparr>s_skeleton := omap_update k ?J (s_skeleton s)\<rparr>) y = ((sk_get s)(k \<mapsto> ?J)) y" for y
      by (simp add: sk_get_def map_of_omap_update)
    have "links_ok (s\<lparr>s_skeleton := omap_update k ?J (s_skeleton s)\<rparr>)"
      unfolding links_ok_def get
    proof (intro ballI, clarify)
      fix x jx cc assume x: "(x, jx) \<in> set (s_skeleton (s\<lparr>s_skeleton := omap_update k ?J (s_skeleton s)\<rparr>))"
        and cc: "cc \<in> set (j_children jx)"
      have "(x, jx) = (k, ?J) \<or> (x, jx) \<in> set (s_skeleton s)"
        using x new by (simp add: set_omap_update_fresh)
      with cc have "(x, jx) \<in> set (s_skeleton s)" by auto
      with l cc obtain jc where jc: "sk_get s cc = Some jc" "j_parent jc = Some x"
        unfolding links_ok_def by blast
      then have "cc \<noteq> k" using new by (metis sk_get_None_keys option.distinct(1))
      with jc show "\<exists>jc. ((sk_get s)(k \<mapsto> ?J)) cc = Some jc \<and> j_parent jc = Some x" by simp
    qed
    with False None l show ?thesis by (simp add: addJoint_def)
  next
    case (Some pj)
    let ?s1 = "sk_modify p (addChild k) s"
    let ?J = "setConstraint c (setParent (Some (p, pj)) (new_joint info))"
    have pk: "p \<noteq> k" using Some False by auto
    have get: "sk_get (?s1\<lparr>s_skeleton := omap_update k ?J (s_skeleton ?s1)\<rparr>) y
        = (if y = k then Some ?J else if y = p then Some (addChild k pj) else sk_get s y)" for y
      using Some by (simp add: sk_get_def map_of_omap_update map_of_omap_modify sk_modify_def)
    have new1: "k \<notin> fst ` set (s_skeleton ?s1)"
      using new by (simp add: sk_modify_def image_iff set_omap_modify split_def) (force split: if_splits)
    have "links_ok (?s1\<lparr>s_skeleton := omap_update k ?J (s_skeleton ?s1)\<rparr>)"
      unfolding links_ok_def get
    proof (intro ballI, clarify)
      fix x jx cc assume x: "(x, jx) \<in> set (s_skeleton (?s1\<lparr>s_skeleton := omap_update k ?J (s_skeleton ?s1)\<rparr>))"
        and cc: "cc \<in> set (j_children jx)"
      show "\<exists>jc. (if cc = k then Some ?J else if cc = p then Some (addChild k pj) else sk_get s cc) = Some jc
                 \<and> j_parent jc = Some x"
      proof -
        have "x = k \<and> jx = ?J \<or> (\<exists>j0. (x, j0) \<in> set (s_skeleton s) \<and> jx = (if x = p then addChild k j0 else j0))"
          using x new1 by (auto simp: set_omap_update_fresh sk_modify_def set_omap_modify split: if_splits)
        then show ?thesis
        proof
          assume "x = k \<and> jx = ?J"
          with cc show ?thesis by simp
        next
          assume "\<exists>j0. (x, j0) \<in> set (s_skeleton s) \<and> jx = (if x = p then addChild k j0 else j0)"
          then obtain j0 where j0: "(x, j0) \<in> set (s_skeleton s)" "jx = (if x = p then addChild k j0 else j0)"
            by blast
          show ?thesis
          proof (cases "cc \<in> set (j_children j0)")
            case True
            with l j0(1) obtain jc where jc: "sk_get s cc = Some jc" "j_parent jc = Some x"
              unfolding links_ok_def by fastforce
            then have "cc \<noteq> k" using new by (metis sk_get_None_keys option.distinct(1))
            with jc Some show ?thesis by (auto simp: addChild_def)
          next
            case False
            with cc j0(2) have "x = p" "cc = k" by (auto simp: addChild_def split: if_splits)
            then show ?thesis by simp
          qed
        qed
      qed
    qed
    with False Some show ?thesis by (simp add: addJoint_def Let_def)
  qed
qed


lemma links_ok_of_built: "built s \<Longrightarrow> links_ok s"
proof (induction rule: built.induct)
  case built_new
  then show ?case by (simp add: links_ok_def new_solver_def)
next
  case (built_add s info k p c)
  then show ?case by (simp add: links_ok_addJoint)
next
  case (built_rebuild s s')
  then show ?case by (simp add: links_ok_shape [OF rebuildAllChains_shape])
qed (simp_all add: setRootID_def setSubBaseIds_def setSubRootIds_def addWristID_def)

text \<open>C33: in every solver the API builds, child and parent pointers agree: each child of a
  joint is a joint of the skeleton whose parent is that joint.\<close>

theorem built_links_ok: "built s \<Longrightarrow> links_ok s"
  by (rule links_ok_of_built)

section \<open>The error measure\<close>

lemma measure_loop_eq:
  "measure_loop s m cs =
     (case find (\<lambda>(k, c). k \<noteq> s_root_id s \<and> hasTargetPos c \<and> \<not> hasDelegated c \<and> sk_get s k = None) cs of
        Some (k, c) \<Rightarrow> Inl (NullDeref k)
      | None \<Rightarrow> Inr (fold max
          [dist_vec (computeWorldEndPos j) (cfg_target_pos c).
             (k, c) \<leftarrow> cs, k \<noteq> s_root_id s \<and> hasTargetPos c \<and> \<not> hasDelegated c,
             j \<leftarrow> (case sk_get s k of None \<Rightarrow> [] | Some j \<Rightarrow> [j])] m))"
  by (induction s m cs rule: measure_loop.induct) (auto simp: Let_def max_def split: option.split)

lemma measureMaxError_last_error [simp]:
  "measureMaxError (s\<lparr>s_last_error := x\<rparr>) = measureMaxError s"
proof -
  have "measure_loop (s\<lparr>s_last_error := x\<rparr>) m cs = measure_loop s m cs" for m cs
    by (induction s m cs rule: measure_loop.induct) (auto simp: sk_get_def Let_def split: option.split)
  then show ?thesis by (simp add: measureMaxError_def)
qed

text \<open>C29: \<open>measureMaxError\<close> fails with a null dereference at the first targeted,
  non-delegated, non-root config whose joint is absent, and otherwise returns the largest
  end-to-target distance of those joints, or 0 when there is none.\<close>

theorem measureMaxError_eq:
  "measureMaxError s =
     (case missing_target s of
        Some (k, c) \<Rightarrow> Inl (NullDeref k)
      | None \<Rightarrow> Inr (Max (set (0 # target_errors s))))"
  unfolding measureMaxError_def measure_loop_eq missing_target_def Max.set_eq_fold target_errors_def ..

lemma measureMaxError_Inr:
  "measureMaxError s = Inr e \<Longrightarrow> e = Max (set (0 # target_errors s))"
  by (simp only: measureMaxError_def measure_loop_eq missing_target_def Max.set_eq_fold)
     (simp add: target_errors_def split: option.splits prod.splits)

section \<open>The solve loop\<close>

lemma solveOnce_Inr:
  "solveOnce pass s = Inr (s', m) \<Longrightarrow> pass s = Inr s' \<and> measureMaxError s' = Inr m"
  by (auto simp: solveOnce_def split: sum.splits)

lemma solve_loop_exit:
  "solve_loop pass loop m s = Inr (s', m', n) \<Longrightarrow> loop \<le> MAX_SOLVER_ITERATIONS \<Longrightarrow>
   loop \<le> n \<and> MIN_SOLVER_ITERATIONS \<le> n \<and> n \<le> MAX_SOLVER_ITERATIONS
   \<and> (n < MAX_SOLVER_ITERATIONS \<longrightarrow> m' \<le> s_acceptable_error s')
   \<and> (n = loop \<longrightarrow> s' = s \<and> m' = m)
   \<and> (loop < n \<longrightarrow> measureMaxError s' = Inr m')"
proof (induction pass loop m s arbitrary: s' m' n rule: solve_loop.induct)
  case (1 pass loop m s)
  show ?case
  proof (cases "loop < MIN_SOLVER_ITERATIONS \<or> (loop < MAX_SOLVER_ITERATIONS \<and> s_acceptable_error s < m)")
    case False
    have "solve_loop pass loop m s = Inr (s, m, loop)"
      by (subst solve_loop.simps) (rule if_not_P [OF False])
    with "1.prems"(1) have "s' = s" "m' = m" "n = loop" by simp_all
    with False "1.prems"(2) show ?thesis by auto
  next
    case True
    then have lt: "Suc loop \<le> MAX_SOLVER_ITERATIONS"
      by (auto simp: MIN_SOLVER_ITERATIONS_def MAX_SOLVER_ITERATIONS_def)
    from True "1.prems"(1) obtain s1 m1 where so: "solveOnce pass s = Inr (s1, m1)"
      and rec: "solve_loop pass (Suc loop) m1 s1 = Inr (s', m', n)"
      by (subst (asm) solve_loop.simps) (auto split: sum.splits)
    note ih = "1.IH" [OF True so refl rec lt]
    show ?thesis
    proof (cases "n = Suc loop")
      case True
      with ih solveOnce_Inr [OF so] show ?thesis by auto
    next
      case False
      with ih show ?thesis by auto
    qed
  qed
qed

text \<open>C30: the solve loop runs at least \<open>MIN_SOLVER_ITERATIONS\<close> and at most
  \<open>MAX_SOLVER_ITERATIONS\<close> passes; it stops before the maximum only when the error is within
  \<open>mAcceptableError\<close>, and the error it returns is the measure of the final pose.\<close>

theorem solve_loop_bounds:
  assumes "solve_loop pass 0 F32_MAX s = Inr (s', m, n)"
  shows "MIN_SOLVER_ITERATIONS \<le> n \<and> n \<le> MAX_SOLVER_ITERATIONS
    \<and> (n < MAX_SOLVER_ITERATIONS \<longrightarrow> m \<le> s_acceptable_error s') \<and> measureMaxError s' = Inr m"
proof -
  have "0 < MIN_SOLVER_ITERATIONS" by (simp add: MIN_SOLVER_ITERATIONS_def)
  with solve_loop_exit [OF assms] show ?thesis by auto
qed


text \<open>C31: a solve that completes stores its result in \<open>mLastError\<close>, and that result is the
  measured error of the pose it leaves.\<close>

theorem solve_result:
  assumes "solve pass s = Some (Inr (s', m))"
  shows "s_last_error s' = m \<and> measureMaxError s' = Inr m"
proof -
  obtain s2 s3 n where l: "solve_loop pass 0 F32_MAX s2 = Inr (s3, m, n)" and s': "s' = s3\<lparr>s_last_error := m\<rparr>"
    using assms by (auto simp: solve_def split: option.splits sum.splits prod.splits)
  have "0 < MIN_SOLVER_ITERATIONS" by (simp add: MIN_SOLVER_ITERATIONS_def)
  with solve_loop_exit [OF l] s' show ?thesis by auto
qed

lemma solve_some:
  assumes "skel_wf s" "links_ok s"
  shows "solve pass s \<noteq> None"
proof -
  obtain r where r: "rebuildAllChains s = Some r" using rebuildAllChains_some [OF assms(1)] by blast
  show ?thesis
  proof (cases r)
    case (Inl e)
    with r show ?thesis by (simp add: solve_def)
  next
    case (Inr s1)
    note sh = rebuildAllChains_shape [OF r [unfolded Inr]]
    have "skel_wf s1" "links_ok s1"
      using assms by (simp_all add: skel_wf_shape [OF sh] links_ok_shape [OF sh])
    from relax_roots_returns [OF this, of "s_active_roots s1"] obtain r2
      where r2: "relax_roots (Suc (length (s_skeleton s1))) (s_active_roots s1) s1 = Some r2" by blast
    from r Inr show ?thesis
      by (cases r2) (simp_all add: solve_def r2 split: sum.split prod.split)
  qed
qed

text \<open>C32: on a well-formed skeleton whose child and parent pointers agree, \<open>solve\<close> returns
  for every pass: the rebuild's sub-base loop and the relaxation recursion both have enough
  fuel, and the iteration loop is bounded.\<close>

theorem solve_returns:
  assumes "skel_wf s" "links_ok s"
  shows "solve pass s \<noteq> None"
  using assms by (rule solve_some)

section \<open>Scenarios\<close>

lemma solve_loop_converged:
  "solve_loop Inr 0 F32_MAX new_solver = Inr (new_solver, 0, 4)"
  by (simp add: solve_loop.simps solveOnce_def measureMaxError_def MIN_SOLVER_ITERATIONS_def
      MAX_SOLVER_ITERATIONS_def F32_MAX_def new_solver_def IK_DEFAULT_ACCEPTABLE_ERROR_def)

lemma solve_loop_bounds_witness:
  "solve_loop Inr 0 F32_MAX new_solver = Inr (new_solver, 0, 4)
   \<and> MIN_SOLVER_ITERATIONS \<le> 4 \<and> measureMaxError new_solver = Inr 0"
  using solve_loop_bounds [OF solve_loop_converged] solve_loop_converged by simp


lemma map_of_map_keyed:
  "map_of (map (\<lambda>(k, v). (k, f k v)) xs) k = map_option (f k) (map_of xs k)"
  by (induction xs) auto

text \<open>C28: the change test compares neither the local scale nor the chain limit: when the
  stored configurations are submitted again with any new scales and chain limits (the flags
  unchanged), \<open>updateJointConfigs\<close> reports no change and keeps the stored configurations,
  so the new values are lost.\<close>

theorem updateJointConfigs_ignores_scale:
  assumes "omap_wf (s_configs s)" "0 \<le> s_acceptable_error s"
  shows "updateJointConfigs
           (map (\<lambda>(k, c). (k, c\<lparr>cfg_local_scale := sc k, cfg_chain_limit := cl k\<rparr>)) (s_configs s)) s
         = (False, s)"
proof -
  let ?cs = "map (\<lambda>(k, c). (k, c\<lparr>cfg_local_scale := sc k, cfg_chain_limit := cl k\<rparr>)) (s_configs s)"
  have "map_of ?cs k = map_option (\<lambda>c. c\<lparr>cfg_local_scale := sc k, cfg_chain_limit := cl k\<rparr>)
      (map_of (s_configs s) k)" for k
    by (rule map_of_map_keyed)
  then have "\<not> configs_changed_loop (s_acceptable_error s) ?cs (s_configs s)"
    using assms by (auto simp: configs_changed_loop_iff omap_wf_map_of_iff config_differs_def Let_def)
  then show ?thesis by (simp add: updateJointConfigs_def)
qed

lemma updateJointConfigs_ignores_scale_witness:
  "updateJointConfigs [(1, (cfg_setTargetPos x_axis default_config)\<lparr>cfg_local_scale := x_axis,
       cfg_chain_limit := 3\<rparr>)] one_config_solver = (False, one_config_solver)"
  using updateJointConfigs_ignores_scale [where s = one_config_solver and sc = "\<lambda>_. x_axis"
      and cl = "\<lambda>_. 3"]
  by (simp add: one_config_solver_def new_solver_def omap_wf_def IK_DEFAULT_ACCEPTABLE_ERROR_def)

lemma updateJointConfigs_unchanged_witness:
  "omap_wf (s_configs one_config_solver) \<and> 0 \<le> s_acceptable_error one_config_solver
   \<and> updateJointConfigs (s_configs one_config_solver) one_config_solver = (False, one_config_solver)"
  using updateJointConfigs_unchanged [of one_config_solver]
  by (simp add: one_config_solver_def new_solver_def omap_wf_def IK_DEFAULT_ACCEPTABLE_ERROR_def)

lemma one_config_unchanged:
  "updateJointConfigs (s_configs one_config_solver) one_config_solver = (False, one_config_solver)"
  by (simp add: updateJointConfigs_def one_config_solver_def config_differs_def Let_def new_solver_def
      IK_DEFAULT_ACCEPTABLE_ERROR_def)

lemma updateJointConfigs_no_change_witness:
  "map fst (s_configs one_config_solver) = [1]
   \<and> \<not> config_differs (s_acceptable_error one_config_solver)
        (cfg_setTargetPos x_axis default_config) (cfg_setTargetPos x_axis default_config)"
  using updateJointConfigs_no_change [OF _ _ one_config_unchanged]
  by (simp add: one_config_solver_def new_solver_def omap_wf_def)

lemma measureMaxError_new_solver: "measureMaxError new_solver = Inr 0"
  by (simp add: measureMaxError_def new_solver_def)

lemma links_ok_demo_scene: "links_ok demo_scene"
  by (simp add: links_ok_def demo_scene_def demo_defs)

lemma solve_returns_witness:
  "skel_wf demo_scene \<and> links_ok demo_scene \<and> solve Inr demo_scene \<noteq> None"
  using solve_returns [OF demo_scene_wf links_ok_demo_scene] demo_scene_wf links_ok_demo_scene by simp

lemma built_links_ok_witness: "built demo_scene \<and> links_ok demo_scene"
  using built_links_ok [OF built_demo_scene] built_demo_scene by simp

lemma rebuild_new_solver: "rebuildAllChains new_solver = Some (Inr new_solver)"
  by (simp add: rebuild_eval_defs new_solver_def)

lemma solve_new_solver: "solve Inr new_solver = Some (Inr (new_solver, 0))"
proof -
  have "s_active_roots new_solver = []" "new_solver\<lparr>s_last_error := 0\<rparr> = new_solver"
    by (simp_all add: new_solver_def)
  then show ?thesis by (simp add: solve_def rebuild_new_solver solve_loop_converged)
qed

lemma solve_result_witness:
  "solve Inr new_solver = Some (Inr (new_solver, 0)) \<and> s_last_error new_solver = 0"
  using solve_result [OF solve_new_solver] solve_new_solver by simp

lemma solve_loop_reaches_min:
  assumes conv: "\<And>s. \<exists>s' m. pass s = Inr s' \<and> measureMaxError s' = Inr m \<and> m \<le> s_acceptable_error s'"
  shows "MIN_SOLVER_ITERATIONS - loop = n \<Longrightarrow> loop \<le> MIN_SOLVER_ITERATIONS
    \<Longrightarrow> (0 < loop \<Longrightarrow> m \<le> s_acceptable_error s)
    \<Longrightarrow> \<exists>s' m'. solve_loop pass loop m s = Inr (s', m', MIN_SOLVER_ITERATIONS)"
proof (induction n arbitrary: loop m s)
  case 0
  then have l: "loop = MIN_SOLVER_ITERATIONS" by simp
  then have "m \<le> s_acceptable_error s" using "0.prems"(3) by (simp add: MIN_SOLVER_ITERATIONS_def)
  with l have "\<not> (loop < MIN_SOLVER_ITERATIONS \<or> (loop < MAX_SOLVER_ITERATIONS \<and> s_acceptable_error s < m))"
    by simp
  then have "solve_loop pass loop m s = Inr (s, m, loop)"
    by (subst solve_loop.simps) (rule if_not_P)
  with l show ?case by blast
next
  case (Suc n)
  then have lt: "loop < MIN_SOLVER_ITERATIONS" by simp
  obtain s1 m1 where p: "pass s = Inr s1" "measureMaxError s1 = Inr m1" "m1 \<le> s_acceptable_error s1"
    using conv by blast
  then have "solve_loop pass loop m s = solve_loop pass (Suc loop) m1 s1"
    using lt by (subst solve_loop.simps) (simp add: solveOnce_def)
  moreover have "\<exists>s' m'. solve_loop pass (Suc loop) m1 s1 = Inr (s', m', MIN_SOLVER_ITERATIONS)"
    using Suc.prems lt p(3) by (intro Suc.IH) simp_all
  ultimately show ?case by simp
qed

text \<open>C8: the solve loop makes progress to its exit: when every pass succeeds with an error
  within \<open>mAcceptableError\<close>, the loop stops after exactly \<open>MIN_SOLVER_ITERATIONS\<close> passes.\<close>

theorem solve_loop_converges:
  assumes "\<And>s. \<exists>s' m. pass s = Inr s' \<and> measureMaxError s' = Inr m \<and> m \<le> s_acceptable_error s'"
  shows "\<exists>s' m. solve_loop pass 0 F32_MAX s = Inr (s', m, MIN_SOLVER_ITERATIONS)"
  using solve_loop_reaches_min [OF assms refl] by simp

lemma solve_loop_converges_witness:
  "(\<forall>s. \<exists>s' m. (\<lambda>_. Inr new_solver :: ik_error + solver) s = Inr s' \<and> measureMaxError s' = Inr m
        \<and> m \<le> s_acceptable_error s')
   \<and> (\<exists>s' m. solve_loop (\<lambda>_. Inr new_solver) 0 F32_MAX new_solver = Inr (s', m, MIN_SOLVER_ITERATIONS))"
proof -
  have c: "\<exists>s' m. (\<lambda>_. Inr new_solver :: ik_error + solver) s = Inr s' \<and> measureMaxError s' = Inr m
        \<and> m \<le> s_acceptable_error s'" for s
    by (simp add: measureMaxError_def new_solver_def IK_DEFAULT_ACCEPTABLE_ERROR_def)
  show ?thesis using c solve_loop_converges [of "\<lambda>_. Inr new_solver", OF c] by blast
qed

end
