(* ===== verification/IK_Fabrik.thy ===== *)
theory IK_Fabrik
  imports IK_Solve
begin

text \<open>
  The FABRIK pass of \<open>llik.cpp\<close>: the joint updates it is made of
  (\<open>Joint::updateLocalRot\<close>, \<open>applyLocalRot\<close>, \<open>updatePosAndRotFromParent\<close>,
  \<open>updateEndInward\<close>, \<open>updateInward\<close>, \<open>updateOutward\<close>, \<open>updateEndOutward\<close>,
  \<open>updateChildLocalRots\<close>, \<open>collectTargetPositions\<close>, \<open>enforceConstraint\<close>) and the
  solver's drivers (\<open>executeFabrikInward\<close>, \<open>executeFabrikOutward\<close>,
  \<open>executeFabrikPass\<close>). A joint's update reads its parent and children through the
  skeleton map, so each operation takes the joint's key and the solver. The virtual
  \<open>Constraint::enforce\<close> is the parameter \<open>enf\<close>: the base implementation, for the
  constraints that do not override it, is \<open>default_enforce\<close> over the constraint's
  \<open>computeAdjustedLocalRot\<close>; the per-constraint projections, the \<open>ElbowConstraint\<close> and
  \<open>KneeConstraint\<close> overrides and the dispatch that instantiates \<open>enf\<close> are in
  \<open>IK_Enforce\<close>. Reading the first joint of an empty chain is \<open>EmptyChain\<close>.
\<close>

section \<open>Access through pointers\<close>

definition get_joint :: "solver \<Rightarrow> joint_id \<Rightarrow> ik_error + joint" where
  "get_joint s k = (case sk_get s k of None \<Rightarrow> Inl (NullDeref k) | Some j \<Rightarrow> Inr j)"

text \<open>\<open>mParent->...\<close> of the joint \<open>k\<close>: a null parent pointer is a null dereference.\<close>

definition get_parent :: "solver \<Rightarrow> joint_id \<Rightarrow> joint \<Rightarrow> ik_error + joint" where
  "get_parent s k j = (case j_parent j of None \<Rightarrow> Inl (NullDeref k) | Some p \<Rightarrow> get_joint s p)"

text \<open>The passes write a joint's position and its world and local rotations through its
  pointer: \<open>set_joint k j'\<close> stores those fields of \<open>j'\<close> in the joint \<open>k\<close>.\<close>

definition set_joint :: "joint_id \<Rightarrow> joint \<Rightarrow> solver \<Rightarrow> solver" where
  "set_joint k j' s =
     sk_modify k (\<lambda>j. j\<lparr>j_pos := j_pos j', j_rot := j_rot j', j_local_rot := j_local_rot j'\<rparr>) s"

section \<open>Local and world frames\<close>

text \<open>\<open>Constraint::enforce\<close> of the base class: replace the local rotation by the adjusted one
  when they differ; the world rotation is left to the caller.\<close>

definition default_enforce ::
  "(constraint \<Rightarrow> quat \<Rightarrow> quat) \<Rightarrow> constraint \<Rightarrow> joint_id \<Rightarrow> solver \<Rightarrow> ik_error + bool \<times> solver" where
  "default_enforce adjust c k s =
     sum_bind (get_joint s k) (\<lambda>j.
       let a = adjust c (j_local_rot j) in
       if \<not> q_almost_equal a (j_local_rot j) then Inr (True, sk_modify k (setLocalRot a) s)
       else Inr (False, s))"

definition enforceConstraint ::
  "(constraint \<Rightarrow> joint_id \<Rightarrow> solver \<Rightarrow> ik_error + bool \<times> solver) \<Rightarrow> joint_id \<Rightarrow> joint \<Rightarrow> solver \<Rightarrow> ik_error + bool \<times> solver" where
  "enforceConstraint enf k j s =
     (if \<not> localRotLocked j \<and> \<not> hasDisabledConstraint j then
        (case j_constraint j of None \<Rightarrow> Inr (False, s) | Some c \<Rightarrow> enf c k s)
      else Inr (False, s))"

text \<open>\<open>Joint::updateLocalRot\<close>: the local rotation implied by the world rotations of the joint
  and its parent; when it differs from the stored one, a locked joint reports a violation
  and an unlocked one takes it and, if asked, enforces its constraint.\<close>

definition updateLocalRot ::
  "(constraint \<Rightarrow> joint_id \<Rightarrow> solver \<Rightarrow> ik_error + bool \<times> solver) \<Rightarrow> bool \<Rightarrow> joint_id \<Rightarrow> solver
   \<Rightarrow> ik_error + bool \<times> solver" where
  "updateLocalRot enf enforce k s =
     sum_bind (get_joint s k) (\<lambda>j. sum_bind (get_parent s k j) (\<lambda>pj.
       let new_local_rot = q_normalize (q_mul (j_rot j) (q_conj (j_rot pj))) in
       if \<not> q_almost_equal new_local_rot (j_local_rot j) then
         (if localRotLocked j then Inr (True, s)
          else
            let j1 = j\<lparr>j_local_rot := new_local_rot\<rparr>;
                s1 = set_joint k j1 s
            in if enforce then enforceConstraint enf k j1 s1 else Inr (False, s1))
       else Inr (False, s)))"

text \<open>\<open>Joint::applyLocalRot\<close>: push the local rotation into the world rotation; a joint with
  a rotation target is pulled halfway toward it and its local rotation recomputed.\<close>

definition WORLD_ROT_TARGET_BACKPRESSURE_COEF :: real where
  "WORLD_ROT_TARGET_BACKPRESSURE_COEF = 1 / 2"

definition applyLocalRot :: "joint_id \<Rightarrow> solver \<Rightarrow> ik_error + solver" where
  "applyLocalRot k s =
     sum_bind (get_joint s k) (\<lambda>j.
       case j_parent j of
         None \<Rightarrow> Inr (set_joint k (j\<lparr>j_rot := j_local_rot j\<rparr>) s)
       | Some p \<Rightarrow> sum_bind (get_joint s p) (\<lambda>pj.
           if hasRotTarget j then
             sum_bind (joint_config s j) (\<lambda>c.
               let new_rot = q_mul (j_local_rot j) (j_rot pj);
                   r = q_lerp WORLD_ROT_TARGET_BACKPRESSURE_COEF (cfg_target_rot c) new_rot;
                   l = q_normalize (q_mul r (q_conj (j_rot pj)))
               in Inr (set_joint k (j\<lparr>j_rot := r, j_local_rot := l\<rparr>) s))
           else Inr (set_joint k (j\<lparr>j_rot := q_normalize (q_mul (j_local_rot j) (j_rot pj))\<rparr>) s)))"

text \<open>\<open>Joint::updatePosAndRotFromParent\<close>: the world transform from the parent's.\<close>

definition updatePosAndRotFromParent :: "joint_id \<Rightarrow> solver \<Rightarrow> ik_error + solver" where
  "updatePosAndRotFromParent k s =
     sum_bind (get_joint s k) (\<lambda>j.
       case j_parent j of
         None \<Rightarrow> Inr s
       | Some p \<Rightarrow> sum_bind (get_joint s p) (\<lambda>pj.
           Inr (set_joint k (j\<lparr>j_pos := v_add (j_pos pj) (v_rot (j_local_pos j) (j_rot pj)),
                               j_rot := q_normalize (q_mul (j_local_rot j) (j_rot pj))\<rparr>) s)))"

section \<open>Targets\<close>

text \<open>\<open>collectTargetPositions\<close>: the joint's own target (bone end), or else the local and
  world positions of its active children.\<close>

fun collect_children :: "solver \<Rightarrow> joint_id list \<Rightarrow> ik_error + (vec3 \<times> vec3) list" where
  "collect_children s [] = Inr []"
| "collect_children s (c # cs) =
     sum_bind (get_joint s c) (\<lambda>jc. sum_bind (collect_children s cs) (\<lambda>rest.
       Inr (if isActive jc then (j_local_pos jc, j_pos jc) # rest else rest)))"

definition collectTargetPositions :: "solver \<Rightarrow> joint \<Rightarrow> ik_error + (vec3 \<times> vec3) list" where
  "collectTargetPositions s j =
     (if hasPosTarget j then sum_bind (joint_config s j) (\<lambda>c. Inr [(j_bone j, cfg_target_pos c)])
      else collect_children s (j_children j))"

text \<open>Averaging of quaternions on one hemisphere: a summand with a negative real part is
  subtracted.\<close>

definition avg_add :: "quat \<Rightarrow> quat \<Rightarrow> quat" where
  "avg_add acc q = (if qw q < 0 then q_sub acc q else q_add acc q)"

definition q_zero :: quat where
  "q_zero = \<lparr>qx = 0, qy = 0, qz = 0, qw = 0\<rparr>"

section \<open>The joint updates of the passes\<close>

text \<open>The children's local rotations after the joint's world rotation moved, in the order of
  \<open>mChildren\<close>; the result says whether some constraint was enforced.\<close>

fun update_children_local_rots ::
  "(constraint \<Rightarrow> joint_id \<Rightarrow> solver \<Rightarrow> ik_error + bool \<times> solver) \<Rightarrow> bool \<Rightarrow> joint_id list \<Rightarrow> bool \<Rightarrow> solver
   \<Rightarrow> ik_error + bool \<times> solver" where
  "update_children_local_rots enf enforce [] changed s = Inr (changed, s)"
| "update_children_local_rots enf enforce (c # cs) changed s =
     sum_bind (get_joint s c) (\<lambda>jc.
       if isActive jc then
         sum_bind (updateLocalRot enf enforce c s) (\<lambda>(b, s1).
           update_children_local_rots enf enforce cs (b \<or> changed) s1)
       else update_children_local_rots enf enforce cs changed s)"

text \<open>The world rotation recovered from every child (\<open>child->mLocalRot\<close> inverted, times
  \<open>child->mRot\<close>), averaged with the accumulator renormalised after each child.\<close>

fun children_avg_rot :: "solver \<Rightarrow> joint_id list \<Rightarrow> quat \<Rightarrow> ik_error + quat" where
  "children_avg_rot s [] acc = Inr acc"
| "children_avg_rot s (c # cs) acc =
     sum_bind (get_joint s c) (\<lambda>jc.
       children_avg_rot s cs (q_normalize (avg_add acc (q_mul (q_conj (j_local_rot jc)) (j_rot jc)))))"

text \<open>The outer end's new position and rotation from its targets, inward pass. With no
  targets the code divides by zero (\<open>new_pos /= 0\<close>, a NaN position); here \<open>1 / 0 = 0\<close>
  and the position is the zero vector.\<close>

definition end_inward_targets :: "joint \<Rightarrow> bool \<Rightarrow> (vec3 \<times> vec3) list \<Rightarrow> vec3 \<times> quat" where
  "end_inward_targets j parent_active ts =
     (if length ts = 1 then
        (let (lt, wt) = hd ts;
             bone_dir = v_normalize (v_sub wt (j_pos j));
             pos = v_sub wt (v_smul (v_length lt) bone_dir);
             adjustment = q_shortest_arc (v_rot lt (j_rot j)) bone_dir
         in (pos, q_normalize (q_mul (j_rot j) adjustment)))
      else
        (let new_bones = map (\<lambda>(lt, wt). v_smul (v_length lt) (v_normalize (v_sub wt (j_pos j)))) ts;
             new_pos = fold v_add (map2 (\<lambda>(lt, wt) nb. v_sub wt nb) ts new_bones) v_zero;
             avg = fold (\<lambda>((lt, wt), nb) acc. avg_add acc (q_shortest_arc (v_rot lt (j_rot j)) nb))
                     (zip ts new_bones) q_zero;
             pos = (if parent_active then v_smul (1 / real (length ts)) new_pos else j_pos j)
         in (pos, q_normalize (q_mul (j_rot j) (q_normalize avg)))))"

text \<open>\<open>Joint::updateEndInward\<close>.\<close>

definition updateEndInward ::
  "(constraint \<Rightarrow> joint_id \<Rightarrow> solver \<Rightarrow> ik_error + bool \<times> solver) \<Rightarrow> bool \<Rightarrow> joint_id \<Rightarrow> solver \<Rightarrow> ik_error + solver" where
  "updateEndInward enf enforce k s =
     sum_bind (get_joint s k) (\<lambda>j.
       sum_bind
         (if hasRotTarget j then
            sum_bind (joint_config s j) (\<lambda>c.
              let r = cfg_target_rot c in
              Inr (j\<lparr>j_rot := r,
                     j_pos := (if hasPosTarget j then v_sub (cfg_target_pos c) (v_rot (j_bone j) r)
                               else j_pos j)\<rparr>))
          else
            sum_bind (collectTargetPositions s j) (\<lambda>ts.
              let parent_active = (case j_parent j of None \<Rightarrow> False | Some p \<Rightarrow> sk_active s p);
                  (pos, rot) = end_inward_targets j parent_active ts
              in Inr (j\<lparr>j_pos := pos, j_rot := rot\<rparr>)))
         (\<lambda>j1.
           let s1 = set_joint k j1 s in
           sum_bind (update_children_local_rots enf enforce (j_children j1) False s1) (\<lambda>(changed, s2).
             if changed then
               sum_bind (children_avg_rot s2 (j_children j1) q_zero) (\<lambda>r.
                 if j_children j1 = [] then Inr s2
                 else sum_bind (get_joint s2 k) (\<lambda>j2. Inr (set_joint k (j2\<lparr>j_rot := r\<rparr>) s2)))
             else Inr s2)))"

text \<open>\<open>Joint::updateInward(child)\<close>: move toward the child, rotate onto it, and when the
  child's constraint was enforced take the world transform the child now implies.\<close>

definition updateInward ::
  "(constraint \<Rightarrow> joint_id \<Rightarrow> solver \<Rightarrow> ik_error + bool \<times> solver) \<Rightarrow> bool \<Rightarrow> joint_id \<Rightarrow> joint_id \<Rightarrow> solver
   \<Rightarrow> ik_error + solver" where
  "updateInward enf enforce k child s =
     sum_bind (get_joint s k) (\<lambda>j. sum_bind (get_joint s child) (\<lambda>cj.
       let bone_dir = v_normalize (v_sub (j_pos cj) (j_pos j));
           pos = v_sub (j_pos cj) (v_smul (j_local_pos_length cj) bone_dir);
           old_bone = v_rot (j_local_pos cj) (j_rot j);
           rot = q_normalize (q_mul (j_rot j) (q_shortest_arc old_bone bone_dir));
           s1 = set_joint k (j\<lparr>j_pos := pos, j_rot := rot\<rparr>) s
       in sum_bind (updateLocalRot enf enforce child s1) (\<lambda>(b, s2).
            if b then
              sum_bind (get_joint s2 child) (\<lambda>cj2. sum_bind (get_joint s2 k) (\<lambda>j2.
                let rot2 = q_normalize (q_mul (q_conj (j_local_rot cj2)) (j_rot cj2));
                    pos2 = v_sub (j_pos cj2) (v_rot (j_local_pos cj2) rot2)
                in Inr (set_joint k (j2\<lparr>j_rot := rot2, j_pos := pos2\<rparr>) s2)))
            else Inr s2)))"

text \<open>\<open>Joint::updateOutward\<close>: follow the parent and rotate the bone onto the old end.\<close>

definition updateOutward ::
  "(constraint \<Rightarrow> joint_id \<Rightarrow> solver \<Rightarrow> ik_error + bool \<times> solver) \<Rightarrow> bool \<Rightarrow> joint_id \<Rightarrow> solver \<Rightarrow> ik_error + solver" where
  "updateOutward enf enforce k s =
     sum_bind (get_joint s k) (\<lambda>j. sum_bind (get_parent s k j) (\<lambda>pj.
       let old_end_pos = v_add (j_pos j) (v_rot (j_bone j) (j_rot j));
           pos = v_add (j_pos pj) (v_rot (j_local_pos j) (j_rot pj));
           new_bone = v_sub old_end_pos pos;
           old_bone = v_rot (j_bone j) (j_rot j);
           rot = q_normalize (q_mul (j_rot j) (q_shortest_arc old_bone new_bone));
           s1 = set_joint k (j\<lparr>j_pos := pos, j_rot := rot\<rparr>) s
       in sum_bind (updateLocalRot enf enforce k s1) (\<lambda>(b, s2).
            if b then applyLocalRot k s2 else Inr s2)))"

text \<open>The outer end's new rotation from its targets, outward pass.\<close>

definition end_outward_targets :: "vec3 \<Rightarrow> quat \<Rightarrow> (vec3 \<times> vec3) list \<Rightarrow> quat" where
  "end_outward_targets pos rot ts =
     (if length ts = 1 then
        (let (lt, wt) = hd ts in q_normalize (q_mul rot (q_shortest_arc (v_rot lt rot) (v_sub wt pos))))
      else
        (let avg = fold (\<lambda>(lt, wt) acc. avg_add acc (q_shortest_arc (v_rot lt rot) (v_sub wt pos))) ts q_zero
         in q_normalize (q_mul rot (q_normalize avg))))"

text \<open>\<open>Joint::updateEndOutward\<close>.\<close>

definition updateEndOutward ::
  "(constraint \<Rightarrow> joint_id \<Rightarrow> solver \<Rightarrow> ik_error + bool \<times> solver) \<Rightarrow> bool \<Rightarrow> joint_id \<Rightarrow> solver \<Rightarrow> ik_error + solver" where
  "updateEndOutward enf enforce k s =
     sum_bind (get_joint s k) (\<lambda>j. sum_bind (get_parent s k j) (\<lambda>pj.
       let pos = v_add (j_pos pj) (v_rot (j_local_pos j) (j_rot pj)) in
       if localRotLocked j then Inr (set_joint k (j\<lparr>j_pos := pos, j_rot := q_mul (j_local_rot j) (j_rot pj)\<rparr>) s)
       else
         sum_bind
           (if hasRotTarget j then
              sum_bind (joint_config s j) (\<lambda>c.
                let r = cfg_target_rot c in
                Inr (j\<lparr>j_rot := r,
                       j_pos := (if hasPosTarget j then v_sub (cfg_target_pos c) (v_rot (j_bone j) r) else pos)\<rparr>))
            else
              sum_bind (collectTargetPositions s j) (\<lambda>ts.
                Inr (j\<lparr>j_pos := pos, j_rot := end_outward_targets pos (j_rot j) ts\<rparr>)))
           (\<lambda>j1. sum_bind (updateLocalRot enf enforce k (set_joint k j1 s)) (\<lambda>(b, s2).
              if b then applyLocalRot k s2 else Inr s2))))"

text \<open>\<open>Joint::updateChildLocalRots\<close>: the active children's local rotations, constraints not
  enforced.\<close>

definition updateChildLocalRots ::
  "(constraint \<Rightarrow> joint_id \<Rightarrow> solver \<Rightarrow> ik_error + bool \<times> solver) \<Rightarrow> joint_id \<Rightarrow> solver \<Rightarrow> ik_error + solver" where
  "updateChildLocalRots enf k s =
     sum_bind (get_joint s k) (\<lambda>j.
       sum_bind (update_children_local_rots enf False (j_children j) False s) (\<lambda>(b, s1). Inr s1))"


section \<open>The solver's passes\<close>

text \<open>The loop of \<open>executeFabrikInward\<close>: \<open>chain[i]->updateInward(chain[i-1])\<close> for
  \<open>1 <= i < last_index\<close>.\<close>

function fabrik_inward_loop ::
  "(constraint \<Rightarrow> joint_id \<Rightarrow> solver \<Rightarrow> ik_error + bool \<times> solver) \<Rightarrow> bool \<Rightarrow> joint_id list \<Rightarrow> nat \<Rightarrow> solver
   \<Rightarrow> ik_error + solver" where
  "fabrik_inward_loop enf enforce chain i s =
     (if i + 1 < length chain then
        sum_bind (updateInward enf enforce (chain ! i) (chain ! (i - 1)) s)
          (fabrik_inward_loop enf enforce chain (Suc i))
      else Inr s)"
  by pat_completeness auto
termination
  by (relation "measure (\<lambda>(enf, enforce, chain, i, s). length chain - i)") auto

declare fabrik_inward_loop.simps [simp del]

definition executeFabrikInward ::
  "(constraint \<Rightarrow> joint_id \<Rightarrow> solver \<Rightarrow> ik_error + bool \<times> solver) \<Rightarrow> bool \<Rightarrow> joint_id \<Rightarrow> joint_id list \<Rightarrow> solver
   \<Rightarrow> ik_error + solver" where
  "executeFabrikInward enf enforce k chain s =
     (case chain of
        [] \<Rightarrow> Inl (EmptyChain k)
      | c0 # _ \<Rightarrow> sum_bind (updateEndInward enf enforce c0 s) (fabrik_inward_loop enf enforce chain 1))"

text \<open>The loop of \<open>executeFabrikOutward\<close>: \<open>chain[i]->updateOutward()\<close> for
  \<open>i = last_index - 1\<close> down to \<open>1\<close>.\<close>

fun fabrik_outward_loop ::
  "(constraint \<Rightarrow> joint_id \<Rightarrow> solver \<Rightarrow> ik_error + bool \<times> solver) \<Rightarrow> bool \<Rightarrow> joint_id list \<Rightarrow> nat \<Rightarrow> solver
   \<Rightarrow> ik_error + solver" where
  "fabrik_outward_loop enf enforce chain 0 s = Inr s"
| "fabrik_outward_loop enf enforce chain (Suc i) s =
     sum_bind (updateOutward enf enforce (chain ! Suc i) s) (fabrik_outward_loop enf enforce chain i)"

definition executeFabrikOutward ::
  "(constraint \<Rightarrow> joint_id \<Rightarrow> solver \<Rightarrow> ik_error + bool \<times> solver) \<Rightarrow> bool \<Rightarrow> joint_id \<Rightarrow> joint_id list \<Rightarrow> solver
   \<Rightarrow> ik_error + solver" where
  "executeFabrikOutward enf enforce k chain s =
     sum_bind (fabrik_outward_loop enf enforce chain (length chain - 2) s) (\<lambda>s1.
       case chain of [] \<Rightarrow> Inl (EmptyChain k) | c0 # _ \<Rightarrow> updateEndOutward enf enforce c0 s1)"

fun fold_chains ::
  "(joint_id \<Rightarrow> joint_id list \<Rightarrow> solver \<Rightarrow> ik_error + solver) \<Rightarrow> (joint_id \<times> joint_id list) list \<Rightarrow> solver
   \<Rightarrow> ik_error + solver" where
  "fold_chains f [] s = Inr s"
| "fold_chains f ((k, chain) # cs) s = sum_bind (f k chain s) (fold_chains f cs)"

fun fold_roots :: "(joint_id \<Rightarrow> solver \<Rightarrow> ik_error + solver) \<Rightarrow> joint_id list \<Rightarrow> solver \<Rightarrow> ik_error + solver" where
  "fold_roots f [] s = Inr s"
| "fold_roots f (r # rs) s = sum_bind (f r s) (fold_roots f rs)"

text \<open>\<open>Solver::executeFabrikPass\<close>: the chains inward in descending order of their outer
  end, the active roots' children, then the chains outward in ascending order.\<close>

definition executeFabrikPass ::
  "(constraint \<Rightarrow> joint_id \<Rightarrow> solver \<Rightarrow> ik_error + bool \<times> solver) \<Rightarrow> bool \<Rightarrow> solver \<Rightarrow> ik_error + solver" where
  "executeFabrikPass enf enforce s =
     sum_bind (fold_chains (executeFabrikInward enf enforce) (rev (s_chains s)) s) (\<lambda>s1.
     sum_bind (fold_roots (updateChildLocalRots enf) (s_active_roots s) s1) (\<lambda>s2.
       fold_chains (executeFabrikOutward enf enforce) (s_chains s) s2))"

section \<open>The pass as the specification orders it\<close>

text \<open>The joint updates of a FABRIK pass as the specification lists them (section 4.5): per
  chain inward, \<open>update_end_inward\<close> on \<open>chain[0]\<close> and \<open>update_inward(chain[i-1])\<close> on
  the joints strictly between the two ends; per active root, \<open>update_child_local_rots\<close>;
  per chain outward, \<open>update_outward\<close> on the joints strictly between the ends from the
  inner side, then \<open>update_end_outward\<close> on \<open>chain[0]\<close>.\<close>

datatype fabrik_op =
  OpEndInward joint_id | OpInward joint_id joint_id | OpChildLocalRots joint_id
| OpOutward joint_id | OpEndOutward joint_id

definition inward_ops :: "joint_id list \<Rightarrow> fabrik_op list" where
  "inward_ops c = OpEndInward (hd c) # map (\<lambda>(child, j). OpInward j child) (zip (butlast c) (tl (butlast c)))"

definition outward_ops :: "joint_id list \<Rightarrow> fabrik_op list" where
  "outward_ops c = map OpOutward (rev (tl (butlast c))) @ [OpEndOutward (hd c)]"

definition fabrik_schedule :: "(joint_id \<times> joint_id list) list \<Rightarrow> joint_id list \<Rightarrow> fabrik_op list" where
  "fabrik_schedule cm roots =
     concat (map (inward_ops \<circ> snd) (rev cm)) @ map OpChildLocalRots roots
     @ concat (map (outward_ops \<circ> snd) cm)"

fun run_op ::
  "(constraint \<Rightarrow> joint_id \<Rightarrow> solver \<Rightarrow> ik_error + bool \<times> solver) \<Rightarrow> bool \<Rightarrow> fabrik_op \<Rightarrow> solver \<Rightarrow> ik_error + solver" where
  "run_op enf enforce (OpEndInward k) s = updateEndInward enf enforce k s"
| "run_op enf enforce (OpInward k child) s = updateInward enf enforce k child s"
| "run_op enf enforce (OpChildLocalRots k) s = updateChildLocalRots enf k s"
| "run_op enf enforce (OpOutward k) s = updateOutward enf enforce k s"
| "run_op enf enforce (OpEndOutward k) s = updateEndOutward enf enforce k s"

fun run_ops ::
  "(constraint \<Rightarrow> joint_id \<Rightarrow> solver \<Rightarrow> ik_error + bool \<times> solver) \<Rightarrow> bool \<Rightarrow> fabrik_op list \<Rightarrow> solver \<Rightarrow> ik_error + solver" where
  "run_ops enf enforce [] s = Inr s"
| "run_ops enf enforce (op # ops) s = sum_bind (run_op enf enforce op s) (run_ops enf enforce ops)"


section \<open>Frame of a pass\<close>

text \<open>The joint updates of a pass write only the kinematic fields of joints: the skeleton's
  keys, parents, ids and children, and every other field of the solver, stay as they were.\<close>

definition moves_joints :: "solver \<Rightarrow> solver \<Rightarrow> bool" where
  "moves_joints s s' \<longleftrightarrow> skel_shape s' = skel_shape s \<and> s'\<lparr>s_skeleton := s_skeleton s\<rparr> = s"

text \<open>An enforcement that keeps the frame.\<close>

definition enf_moves :: "(constraint \<Rightarrow> joint_id \<Rightarrow> solver \<Rightarrow> ik_error + bool \<times> solver) \<Rightarrow> bool" where
  "enf_moves enf \<longleftrightarrow> (\<forall>c k s b s'. enf c k s = Inr (b, s') \<longrightarrow> moves_joints s s')"

text \<open>A scene for the rotation round trip: the demo skeleton with joint 1 turned half a
  revolution about z in the world frame.\<close>

definition rot_scene :: solver where
  "rot_scene = sk_modify 1 (\<lambda>j. j\<lparr>j_rot := \<lparr>qx = 0, qy = 0, qz = 1, qw = 0\<rparr>\<rparr>) demo_scene"

section \<open>The pass is the specification's schedule\<close>

lemma run_ops_append:
  "run_ops enf e (xs @ ys) s = sum_bind (run_ops enf e xs s) (run_ops enf e ys)"
  by (induction xs arbitrary: s) (simp_all add: sum_bind_assoc cong: sum_bind_cong)

lemma fold_chains_run_ops:
  assumes "\<And>k c s. (k, c) \<in> set cs \<Longrightarrow> f k c s = run_ops enf e (g c) s"
  shows "fold_chains f cs s = run_ops enf e (concat (map (g \<circ> snd) cs)) s"
  using assms by (induction cs arbitrary: s) (auto simp: run_ops_append cong: sum_bind_cong)

lemma fold_roots_run_ops:
  "fold_roots (updateChildLocalRots enf) rs s = run_ops enf e (map OpChildLocalRots rs) s"
  by (induction rs arbitrary: s) (simp_all cong: sum_bind_cong)

lemma fabrik_inward_loop_ops:
  "0 < i \<Longrightarrow> fabrik_inward_loop enf e c i s
     = run_ops enf e (map (\<lambda>m. OpInward (c ! Suc m) (c ! m)) [i - 1..<length c - 2]) s"
proof (induction enf e c i s rule: fabrik_inward_loop.induct)
  case (1 enf e c i s)
  show ?case
  proof (cases "i + 1 < length c")
    case True
    then have "[i - 1..<length c - 2] = (i - 1) # [Suc i - 1..<length c - 2]"
      using "1.prems" by (simp add: upt_conv_Cons)
    with True "1.prems" "1.IH" [OF True] show ?thesis
      by (subst fabrik_inward_loop.simps) (simp cong: sum_bind_cong)
  next
    case False
    then show ?thesis by (subst fabrik_inward_loop.simps) simp
  qed
qed

lemma zip_butlast_pairs:
  "map (\<lambda>(child, j). OpInward j child) (zip (butlast c) (tl (butlast c)))
   = map (\<lambda>m. OpInward (c ! Suc m) (c ! m)) [0..<length c - 2]"
  by (rule nth_equalityI) (auto simp: nth_butlast nth_tl)

lemma executeFabrikInward_ops:
  "c \<noteq> [] \<Longrightarrow> executeFabrikInward enf e k c s = run_ops enf e (inward_ops c) s"
  by (cases c) (simp_all add: executeFabrikInward_def inward_ops_def fabrik_inward_loop_ops
      zip_butlast_pairs [of "x # xs" for x xs, simplified] cong: sum_bind_cong)

lemma fabrik_outward_loop_ops:
  "fabrik_outward_loop enf e c i s = run_ops enf e (map (\<lambda>m. OpOutward (c ! m)) (rev [1..<Suc i])) s"
  by (induction i arbitrary: s) (simp_all cong: sum_bind_cong)

lemma tl_butlast_nth: "tl (butlast c) = map (nth c) [1..<length c - 1]"
  by (rule nth_equalityI) (auto simp: nth_butlast nth_tl)

lemma executeFabrikOutward_ops:
  assumes c: "c \<noteq> []"
  shows "executeFabrikOutward enf e k c s = run_ops enf e (outward_ops c) s"
proof -
  have idx: "[1..<Suc (length c - 2)] = [1..<length c - 1]"
  proof (cases "2 \<le> length c")
    case True
    then have "Suc (length c - 2) = length c - 1" by arith
    then show ?thesis by simp
  qed simp
  have ops: "map OpOutward (rev (tl (butlast c)))
      = map (\<lambda>m. OpOutward (c ! m)) (rev [1..<Suc (length c - 2)])"
    by (simp only: idx tl_butlast_nth rev_map map_map comp_def)
  have "executeFabrikOutward enf e k c s
      = sum_bind (fabrik_outward_loop enf e c (length c - 2) s) (updateEndOutward enf e (hd c))"
    using c by (cases c) (simp_all add: executeFabrikOutward_def)
  then show ?thesis
    by (simp add: outward_ops_def ops run_ops_append fabrik_outward_loop_ops cong: sum_bind_cong)
qed

lemma executeFabrikPass_schedule:
  assumes "\<forall>(k, c) \<in> set (s_chains s). c \<noteq> []"
  shows "executeFabrikPass enf e s = run_ops enf e (fabrik_schedule (s_chains s) (s_active_roots s)) s"
proof -
  have "fold_chains (executeFabrikInward enf e) (rev (s_chains s)) s0
      = run_ops enf e (concat (map (inward_ops \<circ> snd) (rev (s_chains s)))) s0" for s0
    using assms by (intro fold_chains_run_ops) (auto simp: executeFabrikInward_ops)
  moreover have "fold_chains (executeFabrikOutward enf e) (s_chains s) s0
      = run_ops enf e (concat (map (outward_ops \<circ> snd) (s_chains s))) s0" for s0
    using assms by (intro fold_chains_run_ops) (auto simp: executeFabrikOutward_ops)
  ultimately show ?thesis
    by (simp add: executeFabrikPass_def fabrik_schedule_def run_ops_append fold_roots_run_ops [where e = e]
        sum_bind_assoc cong: sum_bind_cong)
qed



section \<open>Every step keeps the frame\<close>

lemma moves_joints_refl [simp]: "moves_joints s s"
  by (simp add: moves_joints_def)

lemma moves_joints_trans: "moves_joints s s1 \<Longrightarrow> moves_joints s1 s2 \<Longrightarrow> moves_joints s s2"
  unfolding moves_joints_def by (metis solver.update_convs(1) solver.surjective)

lemma moves_joints_fields:
  assumes "moves_joints s s'"
  shows "s_configs s' = s_configs s" "s_chains s' = s_chains s" "s_active_roots s' = s_active_roots s"
    "s_root_id s' = s_root_id s" "s_acceptable_error s' = s_acceptable_error s"
  using assms unfolding moves_joints_def by (metis solver.select_convs(2,3,6,9,11) solver.surjective solver.update_convs(1))+

lemma moves_joints_set_joint [simp]: "moves_joints s (set_joint k j' s)"
  unfolding moves_joints_def set_joint_def
  by (simp add: skel_shape_sk_modify keeps_shape_def) (simp add: sk_modify_def)

lemma moves_joints_set_jointI: "moves_joints (set_joint k j' s) s' \<Longrightarrow> moves_joints s s'"
  using moves_joints_set_joint moves_joints_trans by blast

lemma sk_get_set_joint:
  "sk_get (set_joint k j' s) k' =
     (if k' = k then map_option (\<lambda>j. j\<lparr>j_pos := j_pos j', j_rot := j_rot j', j_local_rot := j_local_rot j'\<rparr>) (sk_get s k)
      else sk_get s k')"
  by (simp add: set_joint_def sk_get_sk_modify)


lemma moves_joints_sk_modify:
  "keeps_shape f \<Longrightarrow> moves_joints s (sk_modify k f s)"
  unfolding moves_joints_def by (simp add: skel_shape_sk_modify) (simp add: sk_modify_def)

lemma keeps_shape_setLocalRot [shape_intros]: "keeps_shape (setLocalRot q)"
  by (simp add: keeps_shape_def setLocalRot_def)

lemma default_enforce_moves: "enf_moves (default_enforce adjust)"
  by (auto simp: enf_moves_def default_enforce_def Let_def sum_bind_Inr_iff moves_joints_sk_modify
      shape_intros split: if_splits)

lemma enforceConstraint_moves:
  "enf_moves enf \<Longrightarrow> enforceConstraint enf k j s = Inr (b, s') \<Longrightarrow> moves_joints s s'"
  by (auto simp: enforceConstraint_def enf_moves_def split: option.splits if_splits)

lemma updateLocalRot_moves:
  assumes enf: "enf_moves enf"
    and r: "updateLocalRot enf e k s = Inr (b, s')"
  shows "moves_joints s s'"
proof -
  have ec: "enforceConstraint enf k' j' s1 = Inr (b', s2) \<Longrightarrow> moves_joints s1 s2" for k' j' s1 b' s2
    by (rule enforceConstraint_moves [OF enf])
  show ?thesis
    using r by (auto simp: updateLocalRot_def sum_bind_Inr_iff Let_def split: if_splits
        dest!: ec intro: moves_joints_set_jointI)
qed


lemma applyLocalRot_moves: "applyLocalRot k s = Inr s' \<Longrightarrow> moves_joints s s'"
  by (auto simp: applyLocalRot_def sum_bind_Inr_iff Let_def split: option.splits if_splits)

lemma update_children_local_rots_moves:
  assumes enf: "enf_moves enf"
  shows "update_children_local_rots enf e cs ch s = Inr (b, s') \<Longrightarrow> moves_joints s s'"
proof (induction cs arbitrary: ch s)
  case (Cons c cs)
  then show ?case
    by (auto simp: sum_bind_Inr_iff split: if_splits prod.splits
        intro: moves_joints_trans dest!: updateLocalRot_moves [OF enf])
qed simp

lemma updateOutward_moves:
  assumes enf: "enf_moves enf"
  shows "updateOutward enf e k s = Inr s' \<Longrightarrow> moves_joints s s'"
  by (auto simp: updateOutward_def sum_bind_Inr_iff Let_def split: if_splits prod.splits
      dest!: updateLocalRot_moves [OF enf] applyLocalRot_moves intro: moves_joints_set_jointI moves_joints_trans)

lemma updateInward_moves:
  assumes enf: "enf_moves enf"
  shows "updateInward enf e k child s = Inr s' \<Longrightarrow> moves_joints s s'"
  by (auto simp: updateInward_def sum_bind_Inr_iff Let_def split: if_splits prod.splits
      dest!: updateLocalRot_moves [OF enf] intro: moves_joints_set_jointI moves_joints_trans)

lemma updateChildLocalRots_moves:
  assumes enf: "enf_moves enf"
  shows "updateChildLocalRots enf k s = Inr s' \<Longrightarrow> moves_joints s s'"
  by (auto simp: updateChildLocalRots_def sum_bind_Inr_iff split: prod.splits
      dest!: update_children_local_rots_moves [OF enf])


lemma updateEndInward_moves:
  assumes enf: "enf_moves enf"
  shows "updateEndInward enf e k s = Inr s' \<Longrightarrow> moves_joints s s'"
  by (auto simp: updateEndInward_def sum_bind_Inr_iff Let_def split: if_splits prod.splits
      dest!: update_children_local_rots_moves [OF enf] intro: moves_joints_set_jointI moves_joints_trans)

lemma updateEndOutward_moves:
  assumes enf: "enf_moves enf"
  shows "updateEndOutward enf e k s = Inr s' \<Longrightarrow> moves_joints s s'"
  by (auto simp: updateEndOutward_def sum_bind_Inr_iff Let_def split: if_splits prod.splits
      dest!: updateLocalRot_moves [OF enf] applyLocalRot_moves intro: moves_joints_set_jointI moves_joints_trans)

lemma run_op_moves:
  assumes enf: "enf_moves enf"
  shows "run_op enf e op s = Inr s' \<Longrightarrow> moves_joints s s'"
  by (cases op) (auto dest: updateEndInward_moves [OF enf] updateInward_moves [OF enf]
      updateChildLocalRots_moves [OF enf] updateOutward_moves [OF enf] updateEndOutward_moves [OF enf])

lemma run_ops_moves:
  assumes enf: "enf_moves enf"
  shows "run_ops enf e ops s = Inr s' \<Longrightarrow> moves_joints s s'"
  by (induction ops arbitrary: s)
     (auto simp: sum_bind_Inr_iff dest!: run_op_moves [OF enf] intro: moves_joints_trans)


lemma fold_chains_moves:
  assumes "fold_chains f cs s = Inr s'"
    and "\<And>k c s s'. f k c s = Inr s' \<Longrightarrow> moves_joints s s'"
  shows "moves_joints s s'"
  using assms
proof (induction f cs s rule: fold_chains.induct)
  case (2 f k c cs s)
  then obtain s1 where "f k c s = Inr s1" "fold_chains f cs s1 = Inr s'"
    by (auto simp: sum_bind_Inr_iff)
  with "2.prems"(2) "2.IH" show ?case by (blast intro: moves_joints_trans)
qed simp

lemma fold_roots_moves:
  assumes "fold_roots f rs s = Inr s'"
    and "\<And>k s s'. f k s = Inr s' \<Longrightarrow> moves_joints s s'"
  shows "moves_joints s s'"
  using assms
proof (induction f rs s rule: fold_roots.induct)
  case (2 f k rs s)
  then obtain s1 where "f k s = Inr s1" "fold_roots f rs s1 = Inr s'"
    by (auto simp: sum_bind_Inr_iff)
  with "2.prems"(2) "2.IH" show ?case by (blast intro: moves_joints_trans)
qed simp

lemma executeFabrikInward_moves:
  assumes enf: "enf_moves enf"
    and r: "executeFabrikInward enf e k c s = Inr s'"
  shows "moves_joints s s'"
proof (cases "c = []")
  case True
  with r show ?thesis by (simp add: executeFabrikInward_def)
next
  case False
  with r run_ops_moves [OF enf] show ?thesis by (simp add: executeFabrikInward_ops)
qed

lemma executeFabrikOutward_moves:
  assumes enf: "enf_moves enf"
    and r: "executeFabrikOutward enf e k c s = Inr s'"
  shows "moves_joints s s'"
proof (cases "c = []")
  case True
  with r show ?thesis by (simp add: executeFabrikOutward_def)
next
  case False
  with r run_ops_moves [OF enf] show ?thesis by (simp add: executeFabrikOutward_ops)
qed

lemma executeFabrikPass_moves_Inr:
  assumes enf: "enf_moves enf"
    and r: "executeFabrikPass enf e s = Inr s'"
  shows "moves_joints s s'"
proof -
  from r obtain s1 s2 where
    i: "fold_chains (executeFabrikInward enf e) (rev (s_chains s)) s = Inr s1" and
    m: "fold_roots (updateChildLocalRots enf) (s_active_roots s) s1 = Inr s2" and
    o: "fold_chains (executeFabrikOutward enf e) (s_chains s) s2 = Inr s'"
    by (auto simp: executeFabrikPass_def sum_bind_Inr_iff)
  have "moves_joints s s1"
    using i by (rule fold_chains_moves) (erule executeFabrikInward_moves [OF enf])
  moreover have "moves_joints s1 s2"
    using m by (rule fold_roots_moves) (erule updateChildLocalRots_moves [OF enf])
  moreover have "moves_joints s2 s'"
    using o by (rule fold_chains_moves) (erule executeFabrikOutward_moves [OF enf])
  ultimately show ?thesis by (blast intro: moves_joints_trans)
qed


text \<open>C6: a FABRIK pass writes only joint positions and rotations: for every constraint
  enforcement that does (as \<open>Constraint::enforce\<close> of the base class does), a pass that
  returns leaves the skeleton's keys, parents, ids and children, the chains, the active roots,
  the configurations and every other field of the solver as they were.\<close>

theorem executeFabrikPass_moves:
  assumes "enf_moves enf"
  shows "case executeFabrikPass enf e s of Inl _ \<Rightarrow> True | Inr s' \<Rightarrow> moves_joints s s'"
  using executeFabrikPass_moves_Inr [OF assms] by (simp split: sum.split)

lemma executeFabrikPass_moves_witness:
  "enf_moves (default_enforce (\<lambda>c q. q))
   \<and> (case executeFabrikPass (default_enforce (\<lambda>c q. q)) True demo_scene of
        Inl _ \<Rightarrow> True | Inr s' \<Rightarrow> moves_joints demo_scene s')"
  using executeFabrikPass_moves [OF default_enforce_moves] default_enforce_moves by blast

text \<open>C7: \<open>updateLocalRot\<close> then \<open>applyLocalRot\<close> is a round trip: for unit world rotations
  of a joint and its parent, when the joint is not locked, has no rotation target and its
  local rotation is out of date, recomputing the local rotation and pushing it back gives
  the joint its world rotation again.\<close>

lemma updateLocalRot_applyLocalRot:
  assumes j: "sk_get s k = Some j" and par: "j_parent j = Some p" "p \<noteq> k" "sk_get s p = Some pj"
    and unit: "q_norm2 (j_rot j) = 1" "q_norm2 (j_rot pj) = 1"
    and free: "\<not> localRotLocked j" "\<not> hasRotTarget j"
    and moved: "\<not> q_almost_equal (q_mul (j_rot j) (q_conj (j_rot pj))) (j_local_rot j)"
  shows "\<exists>s1 s2 j2. updateLocalRot enf False k s = Inr (False, s1) \<and> applyLocalRot k s1 = Inr s2
           \<and> sk_get s2 k = Some j2 \<and> j_rot j2 = j_rot j"
proof -
  define l where "l = q_mul (j_rot j) (q_conj (j_rot pj))"
  have n: "q_normalize l = l"
    using unit by (simp add: l_def kin_simps q_normalize_unit)
  have back_rot: "q_normalize (q_mul l (j_rot pj)) = j_rot j"
    using unit by (simp add: l_def kin_simps q_normalize_unit)
  define s1 where "s1 = set_joint k (j\<lparr>j_local_rot := l\<rparr>) s"
  have u: "updateLocalRot enf False k s = Inr (False, s1)"
    using j par moved free n
    by (simp add: updateLocalRot_def get_joint_def get_parent_def s1_def l_def)
  have "applyLocalRot k s1 = Inr (set_joint k (j\<lparr>j_local_rot := l, j_rot := j_rot j\<rparr>) s1)"
    using j par free back_rot
    by (simp add: applyLocalRot_def get_joint_def s1_def set_joint_def sk_get_sk_modify hasRotTarget_def)
  with u j show ?thesis
    by (simp add: set_joint_def sk_get_sk_modify s1_def)
qed

lemma updateLocalRot_applyLocalRot_witness:
  "\<exists>j pj. sk_get rot_scene 1 = Some j \<and> j_parent j = Some 0 \<and> (0::joint_id) \<noteq> 1
     \<and> sk_get rot_scene 0 = Some pj \<and> q_norm2 (j_rot j) = 1 \<and> q_norm2 (j_rot pj) = 1
     \<and> \<not> localRotLocked j \<and> \<not> hasRotTarget j
     \<and> \<not> q_almost_equal (q_mul (j_rot j) (q_conj (j_rot pj))) (j_local_rot j)
     \<and> (\<exists>s1 s2 j2. updateLocalRot (default_enforce (\<lambda>c q. q)) False 1 rot_scene = Inr (False, s1)
           \<and> applyLocalRot 1 s1 = Inr s2 \<and> sk_get s2 1 = Some j2 \<and> j_rot j2 = j_rot j)"
proof -
  obtain j pj where j: "sk_get rot_scene 1 = Some j" and pj: "sk_get rot_scene 0 = Some pj"
    by (simp add: rot_scene_def demo_scene_def demo_defs)
  have h: "j_parent j = Some 0" "q_norm2 (j_rot j) = 1" "q_norm2 (j_rot pj) = 1"
    "\<not> localRotLocked j" "\<not> hasRotTarget j"
    "\<not> q_almost_equal (q_mul (j_rot j) (q_conj (j_rot pj))) (j_local_rot j)"
    using j pj by (auto simp: rot_scene_def demo_scene_def demo_defs
        q_norm2_def q_mul_def q_conj_def q_identity_def localRotLocked_def hasRotTarget_def
        q_almost_equal_def q_close_def q_smul_def f_approximately_zero_def has_flag_def flag_defs)
  show ?thesis
    using updateLocalRot_applyLocalRot [OF j h(1) _ pj h(2-6)] j pj h by auto
qed

end
