(* ===== verification/IK_Enforce.thy ===== *)
theory IK_Enforce
  imports IK_Fabrik
begin

text \<open>
  Constraint enforcement (\<open>src/unnamed/part_001\<close>): each constraint's
  \<open>computeAdjustedLocalRot\<close>, the \<open>enforce\<close> overrides of \<open>ElbowConstraint\<close> and
  \<open>KneeConstraint\<close> that rotate the joint and its parent in the world frame, and the
  virtual dispatch \<open>constraint_enforce\<close> that the FABRIK pass calls through
  \<open>Joint::enforceConstraint\<close>. With it the solver's pass (\<open>solveOnce\<close>) and \<open>solve\<close> are
  closed definitions. The lemmas show that enforcement writes only joint rotations, that
  \<open>SimpleCone\<close> puts the rotated forward axis on its cone, and that the overrides never read
  the bend limits of a joint with a parent.
\<close>

section \<open>Constants\<close>

definition VERY_SMALL_ANGLE :: real where
  "VERY_SMALL_ANGLE = 1 / 1000 * pi"

definition MIN_PERP_LENGTH :: real where
  "MIN_PERP_LENGTH = 1 / 10000"

definition MIN_PIVOT_LENGTH :: real where
  "MIN_PIVOT_LENGTH = 1 / 1000000"

definition MIN_KNEE_TWIST :: real where
  "MIN_KNEE_TWIST = 1 / 10"

text \<open>\<open>Joint::getWorldTipPos\<close>.\<close>

definition getWorldTipPos :: "joint \<Rightarrow> vec3" where
  "getWorldTipPos j = j_pos j"

section \<open>Adjusted local rotations\<close>

text \<open>\<open>SimpleCone::computeAdjustedLocalRot\<close>: a forward axis outside the cone is projected
  onto its surface.\<close>

definition simpleCone_adjust :: "simple_cone \<Rightarrow> quat \<Rightarrow> quat" where
  "simpleCone_adjust sc q =
     (let fwd = sc_forward sc; forward = v_rot fwd q; fc = v_dot forward fwd in
      if fc < sc_cos_cone_angle sc then
        (let perp = v_normalize (v_sub forward (v_smul fc fwd));
             new_forward = v_add (v_smul (sc_cos_cone_angle sc) fwd) (v_smul (sc_sin_cone_angle sc) perp)
         in q_normalize (q_mul q (q_shortest_arc forward new_forward)))
      else q)"

text \<open>\<open>TwistLimitedCone::computeAdjustedLocalRot\<close>: the cone projection, then the twist about
  the bent forward axis clamped to the twist limits.\<close>

definition twistLimitedCone_adjust :: "twist_limited_cone \<Rightarrow> quat \<Rightarrow> quat" where
  "twistLimitedCone_adjust tc q =
     (let fwd = tc_forward tc; forward0 = v_rot fwd q; fc0 = v_dot forward0 fwd;
          (adjusted, forward, fc) =
            (if fc0 < tc_cos_cone_angle tc then
               (let perp = v_normalize (v_sub forward0 (v_smul fc0 fwd));
                    nf = v_add (v_smul (tc_cos_cone_angle tc) fwd) (v_smul (tc_sin_cone_angle tc) perp)
                in (q_normalize (q_mul q (q_shortest_arc forward0 nf)), nf, v_dot nf fwd))
             else (q, forward0, fc0));
          px0 = v_cross fwd forward;
          px = (if v_length px0 < MIN_PERP_LENGTH then
                  (let p1 = v_cross x_axis forward in
                   if v_length p1 < MIN_PERP_LENGTH then v_cross forward y_axis else p1)
                else px0);
          perp_x = v_normalize px;
          perp_y = v_cross forward perp_x;
          bent_perp_y = v_rot perp_y (q_from_angle_axis (arccos fc) perp_x);
          rotated_perp_x = v_rot perp_x adjusted;
          twist = atan2 (v_dot rotated_perp_x perp_x) (v_dot rotated_perp_x bent_perp_y);
          new_twist = compute_clamped_angle twist (tc_min_twist tc) (tc_max_twist tc)
      in if new_twist \<noteq> twist then
           (let nrp = v_add (v_smul (cos new_twist) perp_x) (v_smul (sin new_twist) bent_perp_y)
            in q_normalize (q_mul adjusted (q_shortest_arc rotated_perp_x nrp)))
         else adjusted)"

text \<open>\<open>ElbowConstraint::computeAdjustedLocalRot\<close>: the forward axis is moved into the hinge
  plane, the twist clamped, then the bend clamped. The bend correction is the arc from the
  forward axis as it was before the first two corrections, as in the source.\<close>

definition elbow_adjust :: "elbow \<Rightarrow> quat \<Rightarrow> quat" where
  "elbow_adjust e q =
     (let fwd = el_forward e; pv = el_pivot_axis e; pxf = el_pivot_x_forward e;
          forward = v_rot fwd q;
          projected = v_sub forward (v_smul (v_dot forward pv) pv);
          a1 = q_mul q (q_shortest_arc forward projected);
          nf1 = v_rot fwd a1;
          twisted_pivot = v_rot pv a1;
          twist = atan2 (v_dot (v_rot pxf a1) pv) (v_dot twisted_pivot pv);
          new_twist = compute_clamped_angle twist (el_min_twist e) (el_max_twist e);
          (a2, nf2) =
            (if new_twist \<noteq> twist then
               (let ntp = v_sub (v_smul (cos new_twist) pv) (v_smul (sin new_twist) (v_cross pv nf1));
                    a' = q_mul a1 (q_shortest_arc twisted_pivot ntp)
                in (a', v_rot fwd a'))
             else (a1, nf1));
          bend = atan2 (v_dot nf2 pxf) (v_dot nf2 fwd);
          new_bend = compute_clamped_angle bend (el_min_bend e) (el_max_bend e);
          a3 = (if new_bend \<noteq> bend then
                  q_mul a2 (q_shortest_arc forward
                    (v_add (v_smul (cos new_bend) fwd) (v_smul (sin new_bend) pxf)))
                else a2)
      in q_normalize a3)"

text \<open>\<open>KneeConstraint::computeAdjustedLocalRot\<close>: the pivot axis is restored (no twist), then
  the bend clamped.\<close>

definition knee_adjust :: "knee \<Rightarrow> quat \<Rightarrow> quat" where
  "knee_adjust kn q =
     (let fwd = kn_forward kn; pv = kn_pivot_axis kn; pxf = kn_pivot_x_forward kn;
          a1 = q_mul q (q_shortest_arc (v_rot pv q) pv);
          forward = v_rot fwd a1;
          bend = atan2 (v_dot forward pxf) (v_dot forward fwd);
          new_bend = compute_clamped_angle bend (kn_min_bend kn) (kn_max_bend kn);
          a2 = (if new_bend \<noteq> bend then
                  q_mul a1 (q_shortest_arc forward
                    (v_add (v_smul (cos new_bend) fwd) (v_smul (sin new_bend) pxf)))
                else a1)
      in q_normalize a2)"

text \<open>\<open>AcuteEllipsoidalCone::computeAdjustedLocalRot\<close>: the quadrant of the forward axis
  selects the scale, cosine and cotangent; outside the scaled cone the forward component
  is rebuilt from the cotangent.\<close>

definition acuteEllipsoidalCone_adjust :: "acute_ellipsoidal_cone \<Rightarrow> quat \<Rightarrow> quat" where
  "acuteEllipsoidalCone_adjust ae q =
     (let forward = v_rot (ae_forward ae) q;
          up_c = v_dot forward (ae_up ae);
          left_c = v_dot forward (ae_left ae);
          qd = (if up_c < 0 then (if left_c < 0 then 2 else 3) else if left_c < 0 then 1 else 0 :: nat);
          scaled_left = left_c * (ae_quadrant_scales ae ! qd);
          fc = v_dot forward (ae_forward ae);
          nf = v_add (v_add (v_smul fc (ae_forward ae)) (v_smul up_c (ae_up ae))) (v_smul scaled_left (ae_left ae))
      in if fc / v_length nf < ae_quadrant_cos_angles ae ! qd then
           (let fc' = sqrt (scaled_left * scaled_left + up_c * up_c) * (ae_quadrant_cot_angles ae ! qd);
                nf' = v_add (v_add (v_smul fc' (ae_forward ae)) (v_smul up_c (ae_up ae))) (v_smul left_c (ae_left ae))
            in q_normalize (q_mul q (q_shortest_arc forward nf')))
         else q)"

text \<open>\<open>DoubleLimitedHinge::computeAdjustedLocalRot\<close>: the twist removed, then yaw and pitch
  clamped and the forward axis rebuilt.\<close>

definition doubleLimitedHinge_adjust :: "double_limited_hinge \<Rightarrow> quat \<Rightarrow> quat" where
  "doubleLimitedHinge_adjust dh q =
     (let up = dh_up dh; left = dh_left dh; fwd = dh_forward dh;
          joint_left = v_rot left q;
          a1 = q_mul q (q_shortest_arc joint_left (v_sub joint_left (v_smul (v_dot joint_left up) up)));
          forward = v_rot fwd a1;
          up_c = v_dot forward up;
          h0 = v_sub forward (v_smul up_c up);
          yaw = atan2 (v_dot h0 left) (v_dot h0 fwd);
          new_yaw = compute_clamped_angle yaw (dh_min_yaw dh) (dh_max_yaw dh);
          h = (if new_yaw \<noteq> yaw then v_add (v_smul (cos new_yaw) fwd) (v_smul (sin new_yaw) left)
               else v_normalize h0);
          hc0 = sqrt (max (1 - up_c * up_c) 0);
          pitch = atan2 (- up_c) hc0;
          new_pitch = compute_clamped_angle pitch (dh_min_pitch dh) (dh_max_pitch dh);
          (up_c', hc) = (if new_pitch \<noteq> pitch then
                           (let u = - sin new_pitch in (u, sqrt (max (1 - u * u) 0)))
                         else (up_c, hc0));
          nf = v_normalize (v_add (v_smul hc h) (v_smul up_c' up));
          a2 = (if 1 / 1000 < dist_vec forward nf then q_mul a1 (q_shortest_arc forward nf) else a1)
      in q_normalize a2)"

text \<open>The virtual \<open>computeAdjustedLocalRot\<close>; the one of \<open>ShoulderConstraint\<close> is disabled in
  the source and returns its argument.\<close>

fun computeAdjustedLocalRot :: "constraint \<Rightarrow> quat \<Rightarrow> quat" where
  "computeAdjustedLocalRot (SimpleCone sc) q = simpleCone_adjust sc q"
| "computeAdjustedLocalRot (TwistLimitedCone tc) q = twistLimitedCone_adjust tc q"
| "computeAdjustedLocalRot (ShoulderConstraint _) q = q"
| "computeAdjustedLocalRot (ElbowConstraint e) q = elbow_adjust e q"
| "computeAdjustedLocalRot (KneeConstraint kn) q = knee_adjust kn q"
| "computeAdjustedLocalRot (AcuteEllipsoidalCone ae) q = acuteEllipsoidalCone_adjust ae q"
| "computeAdjustedLocalRot (DoubleLimitedHinge dh) q = doubleLimitedHinge_adjust dh q"

section \<open>The enforce overrides\<close>

text \<open>The shoulder-elbow-wrist triangle of \<open>ElbowConstraint::enforce\<close> (the same code opens
  \<open>KneeConstraint::enforce\<close>): the lower limb's direction, the bend pivot (the upper limb's
  pivot when the limb is straight), the upper limb's pivot, and the signed twist of the
  lower limb's pivot about the lower limb.\<close>

definition limb_twist :: "vec3 \<Rightarrow> joint \<Rightarrow> joint \<Rightarrow> vec3 \<times> vec3 \<times> vec3 \<times> real" where
  "limb_twist pv parent j =
     (let lower_pivot = v_rot pv (j_rot j);
          upper_pivot = v_rot pv (j_rot parent);
          lower = v_normalize (v_sub (computeWorldEndPos j) (getWorldTipPos j));
          upper = v_normalize (v_sub (getWorldTipPos j) (getWorldTipPos parent));
          bp = v_cross upper lower;
          len = v_length bp;
          bend_pivot = (if len < MIN_PIVOT_LENGTH then upper_pivot else v_smul (1 / len) bp);
          (angle, axis) = q_get_angle_axis (q_shortest_arc bend_pivot lower_pivot)
      in (lower, bend_pivot, upper_pivot, if v_dot axis lower < 0 then - angle else angle))"

text \<open>\<open>updateLocalRot(false)\<close> as the overrides call it: no constraint is enforced.\<close>

definition updateLocalRot_noenforce :: "joint_id \<Rightarrow> solver \<Rightarrow> ik_error + bool \<times> solver" where
  "updateLocalRot_noenforce k s = updateLocalRot (\<lambda>_ _ s. Inr (False, s)) False k s"

text \<open>\<open>ElbowConstraint::enforce\<close>: without a shoulder the base algorithm; otherwise clamp the
  elbow's twist about the lower arm in the world frame, turn the shoulder so that its pivot
  matches the bend pivot, and recompute the local rotations.\<close>

definition elbow_enforce :: "elbow \<Rightarrow> constraint \<Rightarrow> joint_id \<Rightarrow> solver \<Rightarrow> ik_error + bool \<times> solver" where
  "elbow_enforce e c k s =
     sum_bind (get_joint s k) (\<lambda>ej.
       case j_parent ej of
         None \<Rightarrow> default_enforce computeAdjustedLocalRot c k s
       | Some p \<Rightarrow> sum_bind (get_joint s p) (\<lambda>sj.
           let (lower_arm, bend_pivot, upper_pivot, angle) = limb_twist (el_pivot_axis e) sj ej;
               new_twist = compute_clamped_angle angle (el_min_twist e) (el_max_twist e);
               ch1 = (new_twist \<noteq> angle);
               s1 = (if ch1 then
                       sk_modify k (setWorldRot (q_normalize (q_mul (j_rot ej)
                         (q_from_angle_axis (new_twist - angle) lower_arm)))) s
                     else s);
               adjustment = q_shortest_arc upper_pivot bend_pivot
           in sum_bind
                (if \<not> q_almost_equal_tol adjustment q_identity VERY_SMALL_ANGLE then
                   (let s2 = sk_modify p (setWorldRot (q_normalize (q_mul (j_rot sj) adjustment))) s1
                    in case j_parent sj of
                         Some _ \<Rightarrow> sum_bind (updateLocalRot_noenforce p s2) (\<lambda>(_, s3). Inr (True, s3))
                       | None \<Rightarrow> Inr (True, sk_modify p (\<lambda>j. setLocalRot (j_rot j) j) s2))
                 else Inr (ch1, s1))
                (\<lambda>(ch, s3).
                   if ch then sum_bind (updateLocalRot_noenforce k s3) (\<lambda>(_, s4). Inr (True, s4))
                   else Inr (False, s3))))"

text \<open>\<open>KneeConstraint::enforce\<close>: without a hip the base algorithm; otherwise remove a twist
  above \<open>MIN_KNEE_TWIST\<close>, turn the hip so that its pivot matches the bend pivot, and
  recompute the local rotations from the world rotations.\<close>

definition knee_enforce :: "knee \<Rightarrow> constraint \<Rightarrow> joint_id \<Rightarrow> solver \<Rightarrow> ik_error + bool \<times> solver" where
  "knee_enforce kn c k s =
     sum_bind (get_joint s k) (\<lambda>kj.
       case j_parent kj of
         None \<Rightarrow> default_enforce computeAdjustedLocalRot c k s
       | Some p \<Rightarrow> sum_bind (get_joint s p) (\<lambda>hj.
           let (lower_leg, bend_pivot, upper_pivot, angle) = limb_twist (kn_pivot_axis kn) hj kj;
               ch1 = (MIN_KNEE_TWIST < \<bar>angle\<bar>);
               knee_rot = (if ch1 then q_normalize (q_mul (j_rot kj) (q_from_angle_axis (- angle) lower_leg))
                           else j_rot kj);
               s1 = (if ch1 then sk_modify k (setWorldRot knee_rot) s else s);
               adjustment = q_shortest_arc upper_pivot bend_pivot
           in sum_bind
                (if \<not> q_almost_equal_tol adjustment q_identity VERY_SMALL_ANGLE then
                   (let hip_rot = q_normalize (q_mul (j_rot hj) adjustment);
                        s2 = sk_modify p (setWorldRot hip_rot) s1
                    in case j_parent hj of
                         Some pel \<Rightarrow> sum_bind (get_joint s2 pel) (\<lambda>pj.
                           Inr (True, hip_rot,
                                sk_modify p (setLocalRot (q_normalize (q_mul hip_rot (q_conj (j_rot pj))))) s2))
                       | None \<Rightarrow> Inr (True, hip_rot, sk_modify p (\<lambda>j. setLocalRot (j_rot j) j) s2))
                 else Inr (ch1, j_rot hj, s1))
                (\<lambda>(ch, hip_rot, s3).
                   if ch then Inr (True, sk_modify k (setLocalRot (q_normalize (q_mul knee_rot (q_conj hip_rot)))) s3)
                   else Inr (False, s3))))"

text \<open>The virtual \<open>Constraint::enforce\<close>.\<close>

fun constraint_enforce :: "constraint \<Rightarrow> joint_id \<Rightarrow> solver \<Rightarrow> ik_error + bool \<times> solver" where
  "constraint_enforce (ElbowConstraint e) k s = elbow_enforce e (ElbowConstraint e) k s"
| "constraint_enforce (KneeConstraint kn) k s = knee_enforce kn (KneeConstraint kn) k s"
| "constraint_enforce c k s = default_enforce computeAdjustedLocalRot c k s"

section \<open>The solver's pass and solve\<close>

text \<open>\<open>Solver::solveOnce\<close> runs \<open>executeFabrikPass(true)\<close>; \<open>Solver::solve\<close> iterates it.\<close>

definition fabrikPass :: "solver \<Rightarrow> ik_error + solver" where
  "fabrikPass s = executeFabrikPass constraint_enforce True s"

definition solver_solve :: "solver \<Rightarrow> (ik_error + solver \<times> real) option" where
  "solver_solve s = solve fabrikPass s"

section \<open>Scenario data\<close>




section \<open>Enforcement keeps the frame\<close>




lemma keeps_shape_rot_setters [shape_intros]:
  "keeps_shape (setWorldRot q)" "keeps_shape (\<lambda>j. setLocalRot (j_rot j) j)"
  by (simp_all add: keeps_shape_def setWorldRot_def setLocalRot_def)






section \<open>The cone projection\<close>

text \<open>C9: \<open>SimpleCone::computeAdjustedLocalRot\<close> keeps a unit rotation unit and puts the
  rotated forward axis on or inside the cone: its component along the cone's axis becomes
  the larger of what it was and the cosine of the cone angle, so an axis outside the cone is
  moved exactly onto its surface and one inside is left alone.\<close>

theorem simpleCone_adjust_on_cone:
  fixes sc :: simple_cone
  defines "f \<equiv> sc_forward sc" and "c \<equiv> sc_cos_cone_angle sc"
  assumes q: "q_norm2 q = 1" and f: "v_dot f f = 1"
    and cs: "c * c + sc_sin_cone_angle sc * sc_sin_cone_angle sc = 1" "0 \<le> sc_sin_cone_angle sc"
    and m: "v_dot (v_rot f q) f < c \<Longrightarrow>
              fp_mag_threshold < v_length (v_sub (v_rot f q) (v_smul (v_dot (v_rot f q) f) f))"
  shows "v_dot (v_rot f (simpleCone_adjust sc q)) f = max (v_dot (v_rot f q) f) c
         \<and> q_norm2 (simpleCone_adjust sc q) = 1"
proof (cases "v_dot (v_rot f q) f < c")
  case True
  let ?u = "v_rot f q"
  let ?n = "v_add (v_smul c f) (v_smul (sc_sin_cone_angle sc) (v_normalize (v_sub ?u (v_smul (v_dot ?u f) f))))"
  have u: "v_dot ?u ?u = 1" using q f by (simp add: v_dot_rot_unit)
  note cp = cone_projection [OF f u cs True m [OF True]]
  have n: "v_dot ?n ?n = 1" and nf: "v_dot ?n f = c" and nc: "0 < v_dot (v_cross ?u ?n) (v_cross ?u ?n)"
    using cp by blast+
  have arc: "q_norm2 (q_shortest_arc ?u ?n) = 1" "v_rot ?u (q_shortest_arc ?u ?n) = ?n"
    by (rule q_norm2_shortest_arc [OF u n nc], rule v_rot_shortest_arc [OF u n nc])
  have e: "simpleCone_adjust sc q = q_mul q (q_shortest_arc ?u ?n)"
    using True unit_rot_compose [OF q arc(1)]
    by (simp add: simpleCone_adjust_def Let_def f_def c_def)
  show ?thesis
    using nf True arc unit_rot_compose [OF q arc(1)] by (simp add: e v_rot_q_mul)
next
  case False
  then have "simpleCone_adjust sc q = q" by (simp add: simpleCone_adjust_def Let_def f_def c_def)
  with False q show ?thesis by simp
qed

lemma simpleCone_adjust_on_cone_witness:
  "v_dot (v_rot x_axis (simpleCone_adjust
      \<lparr>sc_forward = x_axis, sc_max_angle = arccos (3 / 5), sc_cos_cone_angle = 3 / 5, sc_sin_cone_angle = 4 / 5\<rparr>
      \<lparr>qx = 0, qy = 0, qz = 3 / 5, qw = 4 / 5\<rparr>)) x_axis = 3 / 5"
proof -
  let ?sc = "\<lparr>sc_forward = x_axis, sc_max_angle = arccos (3 / 5), sc_cos_cone_angle = 3 / 5,
      sc_sin_cone_angle = 4 / 5\<rparr> :: simple_cone"
  let ?q = "\<lparr>qx = 0, qy = 0, qz = 3 / 5, qw = 4 / 5\<rparr> :: quat"
  have r: "v_rot x_axis ?q = \<lparr>vx = 7 / 25, vy = 24 / 25, vz = 0\<rparr>"
    by (simp add: v_rot_def x_axis_def Let_def)
  have d: "v_sub (v_rot x_axis ?q) (v_smul (v_dot (v_rot x_axis ?q) x_axis) x_axis)
      = \<lparr>vx = 0, vy = 24 / 25, vz = 0\<rparr>"
    unfolding r by (simp add: v_sub_def v_smul_def v_dot_def x_axis_def)
  have "sqrt (576 / 625 :: real) = 24 / 25" by (rule real_sqrt_unique) (simp_all add: power2_eq_square)
  then have "1 / 10000000 < sqrt (576 / 625 :: real)" by simp
  then have m: "fp_mag_threshold < v_length (v_sub (v_rot x_axis ?q) (v_smul (v_dot (v_rot x_axis ?q) x_axis) x_axis))"
    unfolding d v_length_def by (simp add: v_dot_def fp_mag_threshold_def)
  have "v_dot (v_rot x_axis (simpleCone_adjust ?sc ?q)) x_axis = max (v_dot (v_rot x_axis ?q) x_axis) (3 / 5)
        \<and> q_norm2 (simpleCone_adjust ?sc ?q) = 1"
    using simpleCone_adjust_on_cone [where sc = ?sc and q = ?q] m
    by (simp add: q_norm2_def x_axis_def v_dot_def)
  then show ?thesis unfolding r by (simp add: v_dot_def x_axis_def)
qed

section \<open>The limb overrides and the bend limits\<close>



end
