(* ===== verification/Lua_Manager.thy ===== *)
theory Lua_Manager
  imports Main
begin

text \<open>
  \<open>llluamanager.cpp\<close>: the viewer's Lua bindings (\<open>lua_printWarning\<close>, \<open>lua_avatar_sit\<close>,
  \<open>lua_avatar_stand\<close>, \<open>lua_nearby_chat_send\<close>, \<open>lua_wear_by_name\<close>,
  \<open>lua_open_floater\<close>, the \<open>sleep\<close> lambda), \<open>checkLua\<close>, \<open>initLUA\<close>, and the two script
  runners \<open>LLLUAmanager::runScriptFile\<close> and \<open>runScriptLine\<close>, each the body of the
  coroutine it launches.

  The Lua library itself is not in this repository; the part of it the file relies on is
  modelled from the Lua 5.4 reference manual: values, the globals table, \<open>lua_tostring\<close>
  (a string or an integer converts, anything else is \<open>NULL\<close>), \<open>lua_tonumber\<close>, the
  result count of a C function, and the status codes. A script is a list of statements
  that assign globals, call globals with literal arguments, or raise an error, a call and an
  error carrying their source line; a call of a
  Lua function runs its body with one unit of fuel less, and running out of fuel is
  \<open>None\<close>. Parsing is a parameter (\<open>parse\<close>) of \<open>runScriptLine\<close>; a file holds either a
  syntax error or a parsed chunk. The viewer objects the bindings act on (\<open>gAgent\<close>, the
  nearby-chat floater, \<open>LLAppearanceMgr\<close>, \<open>LLFloaterReg\<close>, the coroutine scheduler and
  the script's callback) are events appended to a trace. Undefined behaviour of the C++
  (a \<open>std::string\<close> built from \<open>NULL\<close>, a null floater, returning more results than the
  stack holds) is an \<open>Inl\<close> fault.
\<close>

section \<open>Lua values, statements and states\<close>

datatype builtin =
  B_print_warning | B_avatar_sit | B_avatar_stand | B_nearby_chat_send | B_wear_by_name
| B_open_floater | B_sleep

datatype lua_value =
  LNil | LBool bool | LInt int | LStr string | LCFun builtin | LClosure "lua_stmt list"
and lua_stmt =
  SSet string lua_value | SCall nat string "lua_value list" | SError nat lua_value

datatype lua_status = LUA_OK | LUA_YIELD | LUA_ERRRUN | LUA_ERRSYNTAX | LUA_ERRMEM | LUA_ERRERR | LUA_ERRFILE

record lua_state =
  l_globals :: "string \<Rightarrow> lua_value option"
  l_stack :: "lua_value list"

datatype event =
  Warn string | SitDown | StandUp | ChatSent string bool | WearOutfit string
| ShowFloater string bool | Suspend int | StateOpened | StateClosed | Callback string

record viewer =
  v_trace :: "event list"
  v_nearby_chat :: bool
  v_play_chat_anim :: bool
  v_files :: "string \<Rightarrow> (string + lua_stmt list) option"

datatype lua_fault = NullString | NullFloater | StackUnderflow

section \<open>The Lua C API\<close>

fun digits_of_nat :: "nat \<Rightarrow> string" where
  "digits_of_nat n =
     (if n < 10 then [char_of (48 + n)] else digits_of_nat (n div 10) @ [char_of (48 + n mod 10)])"

definition int_to_string :: "int \<Rightarrow> string" where
  "int_to_string i = (if i < 0 then CHR ''-'' # digits_of_nat (nat (- i)) else digits_of_nat (nat i))"

text \<open>\<open>lua_tostring\<close>: strings as they are, integers in decimal, \<open>NULL\<close> otherwise.\<close>

fun lua_tostring :: "lua_value \<Rightarrow> string option" where
  "lua_tostring (LStr s) = Some s"
| "lua_tostring (LInt i) = Some (int_to_string i)"
| "lua_tostring v = None"

definition is_digit :: "char \<Rightarrow> bool" where
  "is_digit c \<longleftrightarrow> 48 \<le> (of_char c :: nat) \<and> (of_char c :: nat) \<le> 57"

fun digits_value :: "string \<Rightarrow> nat option" where
  "digits_value [] = None"
| "digits_value [c] = (if is_digit c then Some (of_char c - 48) else None)"
| "digits_value (c # cs) =
     (if is_digit c then map_option (\<lambda>v. (of_char c - 48) * 10 ^ length cs + v) (digits_value cs)
      else None)"

text \<open>\<open>lua_tonumber\<close>: integers, and strings of decimal digits with an optional sign; 0 for
  anything else.\<close>

fun lua_tonumber :: "lua_value \<Rightarrow> int" where
  "lua_tonumber (LInt i) = i"
| "lua_tonumber (LStr (c # cs)) =
     (if c = CHR ''-'' then (case digits_value cs of Some n \<Rightarrow> - int n | None \<Rightarrow> 0)
      else (case digits_value (c # cs) of Some n \<Rightarrow> int n | None \<Rightarrow> 0))"
| "lua_tonumber v = 0"

text \<open>Stack index 1 of a C function is its first argument, index -1 the top; an index
  beyond the stack reads as no value.\<close>

definition arg1 :: "lua_value list \<Rightarrow> lua_value" where
  "arg1 args = (case args of [] \<Rightarrow> LNil | v # _ \<Rightarrow> v)"

definition stack_top :: "lua_value list \<Rightarrow> lua_value" where
  "stack_top st = (if st = [] then LNil else last st)"

text \<open>A C function returning \<open>n\<close> hands the top \<open>n\<close> values of its stack to the caller; more
  than the stack holds is outside the API.\<close>

definition lua_return :: "nat \<Rightarrow> lua_value list \<Rightarrow> lua_fault + lua_value list" where
  "lua_return n st = (if n \<le> length st then Inr (drop (length st - n) st) else Inl StackUnderflow)"

definition lua_register :: "string \<Rightarrow> builtin \<Rightarrow> lua_state \<Rightarrow> lua_state" where
  "lua_register name f L = L\<lparr>l_globals := (l_globals L)(name \<mapsto> LCFun f)\<rparr>"

definition luaL_newstate :: lua_state where
  "luaL_newstate = \<lparr>l_globals = Map.empty, l_stack = []\<rparr>"

definition lua_push :: "lua_value \<Rightarrow> lua_state \<Rightarrow> lua_state" where
  "lua_push v L = L\<lparr>l_stack := l_stack L @ [v]\<rparr>"

definition is_function :: "lua_value \<Rightarrow> bool" where
  "is_function v \<longleftrightarrow> (case v of LCFun _ \<Rightarrow> True | LClosure _ \<Rightarrow> True | _ \<Rightarrow> False)"

fun type_name :: "lua_value \<Rightarrow> string" where
  "type_name LNil = ''nil''"
| "type_name (LBool b) = ''boolean''"
| "type_name (LInt i) = ''number''"
| "type_name (LStr s) = ''string''"
| "type_name v = ''function''"

section \<open>The bindings\<close>

definition emit :: "event \<Rightarrow> viewer \<Rightarrow> viewer" where
  "emit e w = w\<lparr>v_trace := v_trace w @ [e]\<rparr>"

text \<open>The body of each binding, with its argument list, returning the count it returns.
  \<open>std::string msg(lua_tostring(L, 1))\<close> with a \<open>NULL\<close> argument is a fault.\<close>

definition with_string_arg :: "lua_value list \<Rightarrow> (string \<Rightarrow> lua_fault + viewer \<times> nat) \<Rightarrow> lua_fault + viewer \<times> nat" where
  "with_string_arg args k = (case lua_tostring (arg1 args) of None \<Rightarrow> Inl NullString | Some s \<Rightarrow> k s)"

fun call_binding :: "builtin \<Rightarrow> lua_value list \<Rightarrow> viewer \<Rightarrow> lua_fault + viewer \<times> nat" where
  "call_binding B_print_warning args w = with_string_arg args (\<lambda>msg. Inr (emit (Warn msg) w, 1))"
| "call_binding B_avatar_sit args w = Inr (emit SitDown w, 1)"
| "call_binding B_avatar_stand args w = Inr (emit StandUp w, 1)"
| "call_binding B_nearby_chat_send args w =
     with_string_arg args (\<lambda>msg.
       if v_nearby_chat w then Inr (emit (ChatSent msg (v_play_chat_anim w)) w, 1) else Inl NullFloater)"
| "call_binding B_wear_by_name args w = with_string_arg args (\<lambda>name. Inr (emit (WearOutfit name) w, 1))"
| "call_binding B_open_floater args w =
     with_string_arg args (\<lambda>name. Inr (emit (ShowFloater name (name = ''profile'')) w, 1))"
| "call_binding B_sleep args w = Inr (emit (Suspend (lua_tonumber (stack_top args))) w, 0)"

definition call_builtin :: "builtin \<Rightarrow> lua_value list \<Rightarrow> viewer \<Rightarrow> lua_fault + viewer \<times> lua_value list" where
  "call_builtin b args w =
     (case call_binding b args w of
        Inl e \<Rightarrow> Inl e
      | Inr (w', n) \<Rightarrow> (case lua_return n args of Inl e \<Rightarrow> Inl e | Inr res \<Rightarrow> Inr (w', res)))"

text \<open>\<open>initLUA\<close>: the six bindings, registered in the order of the code.\<close>

definition initLUA :: "lua_state \<Rightarrow> lua_state" where
  "initLUA L =
     lua_register ''open_floater'' B_open_floater
       (lua_register ''wear_by_name'' B_wear_by_name
         (lua_register ''nearby_chat_send'' B_nearby_chat_send
           (lua_register ''avatar_stand'' B_avatar_stand
             (lua_register ''avatar_sit'' B_avatar_sit
               (lua_register ''print_warning'' B_print_warning L)))))"


section \<open>Running a chunk\<close>

text \<open>\<open>luaO_chunkid\<close> (Lua 5.4, \<open>LUA_IDSIZE = 60\<close>): the name of a chunk in a message.
  A source starting with \<open>=\<close> is used as it is, one starting with \<open>@\<close> is a file name
  (the end of it, after \<open>...\<close>, if it is long), and anything else is source text,
  shown as \<open>[string "..."]\<close> up to its first newline and at most 45 characters.\<close>

definition LUA_IDSIZE :: nat where "LUA_IDSIZE = 60"

definition lua_chunkid :: "string \<Rightarrow> string" where
  "lua_chunkid source =
     (let srclen = length source;
          bufflen = LUA_IDSIZE - 15;
          line = takeWhile (\<lambda>c. c \<noteq> CHR 0x0A) source
      in if source \<noteq> [] \<and> hd source = CHR ''='' then
           (if srclen \<le> LUA_IDSIZE then tl source else take (LUA_IDSIZE - 1) (tl source))
         else if source \<noteq> [] \<and> hd source = CHR ''@'' then
           (if srclen \<le> LUA_IDSIZE then tl source
            else ''...'' @ drop (srclen - (LUA_IDSIZE - 4)) source)
         else ''[string '' @ [CHR 0x22]
           @ (if srclen < bufflen \<and> line = source then source else take bufflen line @ ''...'')
           @ [CHR 0x22, CHR '']''])"

text \<open>\<open>luaL_where\<close>/\<open>luaG_addinfo\<close>: the position a runtime error raised in a Lua chunk is
  prefixed with.\<close>

definition lua_where :: "string \<Rightarrow> nat \<Rightarrow> string" where
  "lua_where source line = lua_chunkid source @ '':'' @ digits_of_nat line @ '': ''"

text \<open>\<open>luaG_callerror\<close> for a call of a global that holds no function.\<close>

definition nil_call_msg :: "string \<Rightarrow> nat \<Rightarrow> lua_value \<Rightarrow> string \<Rightarrow> string" where
  "nil_call_msg source line v f =
     lua_where source line
     @ ''attempt to call a '' @ type_name v @ '' value (global '' @ [CHR 0x27] @ f @ [CHR 0x27] @ '')''"

text \<open>\<open>error(v)\<close> at level 1: a string message gets the position of the call, any other value
  is raised as it is.\<close>

definition error_value :: "string \<Rightarrow> nat \<Rightarrow> lua_value \<Rightarrow> lua_value" where
  "error_value source line v = (case v of LStr m \<Rightarrow> LStr (lua_where source line @ m) | _ \<Rightarrow> v)"

text \<open>The statements of a chunk named \<open>src\<close>, in order. A call of a global C function runs
  the binding with the literal arguments and discards its results; a call of a Lua function
  runs its body with one unit of fuel less; a call of anything else is a runtime error. The
  result is the error value raised, if any.\<close>

fun exec ::
  "nat \<Rightarrow> string \<Rightarrow> lua_stmt list \<Rightarrow> lua_state \<Rightarrow> viewer
   \<Rightarrow> (lua_fault + lua_value option \<times> lua_state \<times> viewer) option"
where
  "exec 0 src ss L w = None"
| "exec (Suc n) src [] L w = Some (Inr (None, L, w))"
| "exec (Suc n) src (SSet x v # ss) L w = exec (Suc n) src ss (L\<lparr>l_globals := (l_globals L)(x \<mapsto> v)\<rparr>) w"
| "exec (Suc n) src (SError l v # ss) L w = Some (Inr (Some (error_value src l v), L, w))"
| "exec (Suc n) src (SCall l f args # ss) L w =
     (case l_globals L f of
        Some (LCFun b) \<Rightarrow>
          (case call_builtin b args w of
             Inl e \<Rightarrow> Some (Inl e)
           | Inr (w', res) \<Rightarrow> exec (Suc n) src ss L w')
      | Some (LClosure body) \<Rightarrow>
          (case exec n src body L w of
             None \<Rightarrow> None
           | Some (Inl e) \<Rightarrow> Some (Inl e)
           | Some (Inr (Some err, L', w')) \<Rightarrow> Some (Inr (Some err, L', w'))
           | Some (Inr (None, L', w')) \<Rightarrow> exec (Suc n) src ss L' w')
      | Some v \<Rightarrow> Some (Inr (Some (LStr (nil_call_msg src l v f)), L, w))
      | None \<Rightarrow> Some (Inr (Some (LStr (nil_call_msg src l LNil f)), L, w)))"

text \<open>Running a loaded chunk under \<open>lua_pcall\<close>: an error leaves its value on the stack.\<close>

definition run_chunk ::
  "nat \<Rightarrow> string \<Rightarrow> lua_stmt list \<Rightarrow> lua_state \<Rightarrow> viewer
   \<Rightarrow> (lua_fault + lua_status \<times> lua_state \<times> viewer) option" where
  "run_chunk fuel src prog L w =
     (case exec fuel src prog L w of
        None \<Rightarrow> None
      | Some (Inl e) \<Rightarrow> Some (Inl e)
      | Some (Inr (None, L', w')) \<Rightarrow> Some (Inr (LUA_OK, L', w'))
      | Some (Inr (Some err, L', w')) \<Rightarrow> Some (Inr (LUA_ERRRUN, lua_push err L', w')))"

text \<open>\<open>luaL_dofile\<close>: the chunk is named \<open>@filename\<close>.\<close>

definition luaL_dofile ::
  "nat \<Rightarrow> string \<Rightarrow> lua_state \<Rightarrow> viewer \<Rightarrow> (lua_fault + lua_status \<times> lua_state \<times> viewer) option" where
  "luaL_dofile fuel name L w =
     (case v_files w name of
        None \<Rightarrow> Some (Inr (LUA_ERRFILE, lua_push (LStr (''cannot open '' @ name)) L, w))
      | Some (Inl msg) \<Rightarrow> Some (Inr (LUA_ERRSYNTAX, lua_push (LStr msg) L, w))
      | Some (Inr prog) \<Rightarrow> run_chunk fuel (CHR ''@'' # name) prog L w)"

text \<open>\<open>luaL_dostring\<close>: \<open>luaL_loadstring\<close> names the chunk by its own text.\<close>

definition luaL_dostring ::
  "nat \<Rightarrow> (string \<Rightarrow> string + lua_stmt list) \<Rightarrow> string \<Rightarrow> lua_state \<Rightarrow> viewer
   \<Rightarrow> (lua_fault + lua_status \<times> lua_state \<times> viewer) option" where
  "luaL_dostring fuel parse cmd L w =
     (case parse cmd of
        Inl msg \<Rightarrow> Some (Inr (LUA_ERRSYNTAX, lua_push (LStr msg) L, w))
      | Inr prog \<Rightarrow> run_chunk fuel cmd prog L w)"

text \<open>\<open>lua_pcall(L, 0, 0, 0)\<close> of the function on top of the stack: it is popped and called
  without arguments, its results are dropped, and an error leaves its value on the stack.\<close>

definition lua_pcall ::
  "nat \<Rightarrow> string \<Rightarrow> lua_value \<Rightarrow> lua_state \<Rightarrow> viewer
   \<Rightarrow> (lua_fault + lua_status \<times> lua_state \<times> viewer) option" where
  "lua_pcall fuel src f L w =
     (let L0 = L\<lparr>l_stack := butlast (l_stack L)\<rparr> in
      case f of
        LCFun b \<Rightarrow>
          (case call_builtin b [] w of Inl e \<Rightarrow> Some (Inl e) | Inr (w', res) \<Rightarrow> Some (Inr (LUA_OK, L0, w')))
      | LClosure body \<Rightarrow> run_chunk fuel src body L0 w
      | v \<Rightarrow> Some (Inr (LUA_ERRRUN, lua_push (LStr (''attempt to call a '' @ type_name v @ '' value'')) L0, w)))"

section \<open>\<open>checkLua\<close> and the runners\<close>

text \<open>\<open>checkLua\<close>: on a failed status, copy the message on top of the stack into
  \<open>error_msg\<close> and log it; \<open>error_msg = NULL\<close> is a fault.\<close>

definition checkLua ::
  "lua_status \<Rightarrow> lua_state \<Rightarrow> string \<Rightarrow> viewer \<Rightarrow> lua_fault + bool \<times> string \<times> viewer" where
  "checkLua r L err w =
     (if r \<noteq> LUA_OK then
        (case lua_tostring (stack_top (l_stack L)) of
           None \<Rightarrow> Inl NullString
         | Some m \<Rightarrow> Inr (False, m, emit (Warn m) w))
      else Inr (True, err, w))"

definition finish :: "bool \<Rightarrow> string \<Rightarrow> viewer \<Rightarrow> viewer" where
  "finish cb err w = (let w' = emit StateClosed w in if cb then emit (Callback err) w' else w')"

text \<open>The body of the coroutine of \<open>runScriptFile\<close>; \<open>cb\<close> is whether the callback is set.\<close>

definition runScriptFile :: "nat \<Rightarrow> string \<Rightarrow> bool \<Rightarrow> viewer \<Rightarrow> (lua_fault + viewer) option" where
  "runScriptFile fuel filename cb w =
     (let L0 = lua_register ''sleep'' B_sleep (initLUA luaL_newstate);
          w0 = emit StateOpened w
      in case luaL_dofile fuel filename L0 w0 of
           None \<Rightarrow> None
         | Some (Inl e) \<Rightarrow> Some (Inl e)
         | Some (Inr (r, L1, w1)) \<Rightarrow>
             (case checkLua r L1 [] w1 of
                Inl e \<Rightarrow> Some (Inl e)
              | Inr (ok, err1, w2) \<Rightarrow>
                  (let f = (case l_globals L1 ''call_once_func'' of None \<Rightarrow> LNil | Some v \<Rightarrow> v)
                   in if ok \<and> is_function f then
                        (case lua_pcall fuel (CHR ''@'' # filename) f (lua_push f L1) w2 of
                           None \<Rightarrow> None
                         | Some (Inl e) \<Rightarrow> Some (Inl e)
                         | Some (Inr (r2, L3, w3)) \<Rightarrow>
                             (case checkLua r2 L3 err1 w3 of
                                Inl e \<Rightarrow> Some (Inl e)
                              | Inr (ok2, err2, w4) \<Rightarrow> Some (Inr (finish cb err2 w4))))
                      else Some (Inr (finish cb err1 w2)))))"

text \<open>The body of the coroutine of \<open>runScriptLine\<close>; \<open>parse\<close> is Lua's parser.\<close>

definition runScriptLine ::
  "nat \<Rightarrow> (string \<Rightarrow> string + lua_stmt list) \<Rightarrow> string \<Rightarrow> bool \<Rightarrow> viewer \<Rightarrow> (lua_fault + viewer) option" where
  "runScriptLine fuel parse cmd cb w =
     (let L0 = initLUA luaL_newstate;
          w0 = emit StateOpened w
      in case luaL_dostring fuel parse cmd L0 w0 of
           None \<Rightarrow> None
         | Some (Inl e) \<Rightarrow> Some (Inl e)
         | Some (Inr (r, L1, w1)) \<Rightarrow>
             (if r \<noteq> LUA_OK then
                (case lua_tostring (stack_top (l_stack L1)) of
                   None \<Rightarrow> Some (Inl NullString)
                 | Some m \<Rightarrow> Some (Inr (finish cb m w1)))
              else Some (Inr (finish cb [] w1))))"


section \<open>Specification predicates and scenario data\<close>

text \<open>The events a script can cause while its state is open: everything but the opening
  and closing of the state and the callback.\<close>

fun script_event :: "event \<Rightarrow> bool" where
  "script_event StateOpened = False"
| "script_event StateClosed = False"
| "script_event (Callback m) = False"
| "script_event e = True"

definition string_binding :: "builtin \<Rightarrow> bool" where
  "string_binding b \<longleftrightarrow> b \<in> {B_print_warning, B_nearby_chat_send, B_wear_by_name, B_open_floater}"

definition sleep_script :: "lua_stmt list" where
  "sleep_script = [SCall 1 ''sleep'' [LInt 2]]"

definition lua_demo_viewer :: viewer where
  "lua_demo_viewer =
     \<lparr>v_trace = [], v_nearby_chat = False, v_play_chat_anim = True,
      v_files = [''sleep.lua'' \<mapsto> Inr sleep_script]\<rparr>"

section \<open>Traces\<close>

lemma emit_trace [simp]: "v_trace (emit e w) = v_trace w @ [e]"
  by (simp add: emit_def)

lemma emit_fields [simp]:
  "v_nearby_chat (emit e w) = v_nearby_chat w" "v_play_chat_anim (emit e w) = v_play_chat_anim w"
  "v_files (emit e w) = v_files w"
  by (simp_all add: emit_def)

lemma call_binding_trace:
  "call_binding b args w = Inr (w', n) \<Longrightarrow> \<exists>e. w' = emit e w \<and> script_event e"
  by (cases b) (auto simp: with_string_arg_def split: option.splits if_splits)

lemma call_builtin_trace:
  "call_builtin b args w = Inr (w', res) \<Longrightarrow> \<exists>e. w' = emit e w \<and> script_event e"
  by (auto simp: call_builtin_def dest!: call_binding_trace split: sum.splits prod.splits)

text \<open>A chunk appends only script events to the trace.\<close>

definition script_trace :: "viewer \<Rightarrow> viewer \<Rightarrow> bool" where
  "script_trace w w' \<longleftrightarrow> (\<exists>evs. v_trace w' = v_trace w @ evs \<and> list_all script_event evs)
     \<and> v_files w' = v_files w"

lemma script_trace_refl [simp]: "script_trace w w"
  by (simp add: script_trace_def)

lemma script_trace_trans: "script_trace w1 w2 \<Longrightarrow> script_trace w2 w3 \<Longrightarrow> script_trace w1 w3"
  by (auto simp: script_trace_def)

lemma script_trace_emit: "script_event e \<Longrightarrow> script_trace w (emit e w)"
  by (simp add: script_trace_def)

lemma call_builtin_script_trace: "call_builtin b args w = Inr (w', res) \<Longrightarrow> script_trace w w'"
  by (auto dest!: call_builtin_trace intro: script_trace_emit)

lemma exec_script_trace:
  "exec n src ss L w = Some (Inr (r, L', w')) \<Longrightarrow> script_trace w w'"
proof (induction n src ss L w arbitrary: r L' w' rule: exec.induct)
  case (5 n src l f args ss L w)
  show ?case
  proof (cases "l_globals L f")
    case None
    with "5.prems" show ?thesis by simp
  next
    case (Some v)
    show ?thesis
    proof (cases v)
      case (LCFun b)
      with "5.prems" Some obtain w1 res where b: "call_builtin b args w = Inr (w1, res)"
        and r: "exec (Suc n) src ss L w1 = Some (Inr (r, L', w'))"
        by (auto split: sum.splits prod.splits)
      from call_builtin_script_trace [OF b] "5.IH"(1) [OF Some LCFun b refl r] show ?thesis
        by (rule script_trace_trans)
    next
      case (LClosure body)
      with "5.prems" Some obtain r1 L1 w1 where e: "exec n src body L w = Some (Inr (r1, L1, w1))"
        by (auto split: option.splits sum.splits prod.splits)
      show ?thesis
      proof (cases r1)
        case None
        with "5.prems" Some LClosure e have "exec (Suc n) src ss L1 w1 = Some (Inr (r, L', w'))" by simp
        from script_trace_trans [OF "5.IH"(2) [OF Some LClosure e] "5.IH"(3) [OF Some LClosure e refl refl None refl this]]
        show ?thesis .
      next
        case (Some err)
        with "5.prems" \<open>l_globals L f = Some v\<close> LClosure e show ?thesis
          using "5.IH"(2) [OF \<open>l_globals L f = Some v\<close> LClosure e] by auto
      qed
    qed (use "5.prems" Some in auto)
  qed
qed auto


lemma run_chunk_script_trace:
  "run_chunk fuel src prog L w = Some (Inr (r, L', w')) \<Longrightarrow> script_trace w w'"
  by (auto simp: run_chunk_def dest: exec_script_trace split: option.splits sum.splits prod.splits)

lemma luaL_dofile_script_trace:
  "luaL_dofile fuel name L w = Some (Inr (r, L', w')) \<Longrightarrow> script_trace w w'"
  by (auto simp: luaL_dofile_def dest: run_chunk_script_trace split: option.splits sum.splits)

lemma luaL_dostring_script_trace:
  "luaL_dostring fuel parse cmd L w = Some (Inr (r, L', w')) \<Longrightarrow> script_trace w w'"
  by (auto simp: luaL_dostring_def dest: run_chunk_script_trace split: sum.splits)

lemma lua_pcall_script_trace:
  "lua_pcall fuel src f L w = Some (Inr (r, L', w')) \<Longrightarrow> script_trace w w'"
  by (cases f) (auto simp: lua_pcall_def Let_def dest: run_chunk_script_trace call_builtin_script_trace
      split: sum.splits prod.splits)

lemma checkLua_script_trace:
  "checkLua r L err w = Inr (ok, m, w') \<Longrightarrow> script_trace w w'"
  by (auto simp: checkLua_def intro: script_trace_emit split: if_splits option.splits)

lemma finish_script_trace:
  assumes "script_trace (emit StateOpened w) w1"
  shows "\<exists>evs. v_trace (finish cb m w1)
      = v_trace w @ StateOpened # evs @ StateClosed # (if cb then [Callback m] else [])
    \<and> list_all script_event evs"
  using assms by (auto simp: finish_def script_trace_def Let_def)

lemma runScriptFile_finish:
  "runScriptFile fuel filename cb w = Some (Inr w') \<Longrightarrow>
   \<exists>m w1. w' = finish cb m w1 \<and> script_trace (emit StateOpened w) w1"
  by (auto simp: runScriptFile_def Let_def split: option.splits sum.splits prod.splits if_splits
      dest!: luaL_dofile_script_trace checkLua_script_trace lua_pcall_script_trace)
     (blast intro: script_trace_trans)+


section \<open>The runners\<close>

text \<open>C34: a file script that runs to the end leaves the trace: the state opened, then only
  the script's own effects, then the state closed, and only then the callback, if set, with
  the error message.\<close>

theorem runScriptFile_trace:
  assumes "runScriptFile fuel filename cb w = Some (Inr w')"
  shows "\<exists>evs m. v_trace w' = v_trace w @ StateOpened # evs @ StateClosed # (if cb then [Callback m] else [])
    \<and> list_all script_event evs"
proof -
  from runScriptFile_finish [OF assms] obtain m w1 where
    "w' = finish cb m w1" "script_trace (emit StateOpened w) w1" by blast
  with finish_script_trace [of w w1 cb m] show ?thesis by blast
qed

text \<open>C35: when a one-line script raises an error, the callback receives the error value as
  a string; an error value that is neither a string nor a number makes
  \<open>lua_error = lua_tostring(L, -1)\<close> copy \<open>NULL\<close>.\<close>

theorem runScriptLine_error_message:
  assumes "parse cmd = Inr prog"
    and "exec fuel cmd prog (initLUA luaL_newstate) (emit StateOpened w) = Some (Inr (Some err, L', w1))"
  shows "runScriptLine fuel parse cmd True w =
    (case lua_tostring err of None \<Rightarrow> Some (Inl NullString) | Some m \<Rightarrow> Some (Inr (finish True m w1)))"
  using assms
  by (simp add: runScriptLine_def luaL_dostring_def run_chunk_def lua_push_def stack_top_def
      split: option.split)

text \<open>C36: \<open>sleep\<close> is registered for file scripts only: a chunk whose first statement calls
  \<open>sleep\<close> suspends the coroutine for the seconds given when it is run from a file, and run as a
  line it ends at once with Lua's error for a call of a nil global, positioned in the chunk,
  which the callback receives.\<close>

theorem sleep_only_in_files:
  assumes "parse cmd = Inr (SCall l ''sleep'' args # rest)"
    and "v_files w name = Some (Inr (SCall l ''sleep'' args # rest))"
  shows "runScriptLine (Suc n) parse cmd cb w
           = Some (Inr (finish cb (nil_call_msg cmd l LNil ''sleep'') (emit StateOpened w)))
         \<and> luaL_dofile (Suc n) name (lua_register ''sleep'' B_sleep (initLUA luaL_newstate)) w
           = run_chunk (Suc n) (CHR ''@'' # name) rest (lua_register ''sleep'' B_sleep (initLUA luaL_newstate))
               (emit (Suspend (lua_tonumber (stack_top args))) w)"
proof -
  have "l_globals (initLUA luaL_newstate) ''sleep'' = None"
    by (simp add: initLUA_def lua_register_def luaL_newstate_def)
  moreover have "l_globals (lua_register ''sleep'' B_sleep (initLUA luaL_newstate)) ''sleep'' = Some (LCFun B_sleep)"
    by (simp add: lua_register_def)
  ultimately show ?thesis using assms
    by (simp add: runScriptLine_def luaL_dostring_def run_chunk_def luaL_dofile_def lua_push_def
        stack_top_def call_builtin_def lua_return_def Let_def)
qed

section \<open>The bindings\<close>

text \<open>No binding pushes a result: \<open>sleep\<close> returns nothing, and every other binding
  returns 1, so its caller receives its own last argument, and it needs one.\<close>

theorem binding_results:
  assumes "call_builtin b args w = Inr (w', res)"
  shows "(b = B_sleep \<longrightarrow> res = []) \<and> (b \<noteq> B_sleep \<longrightarrow> args \<noteq> [] \<and> res = [last args])"
proof -
  from assms obtain n where c: "call_binding b args w = Inr (w', n)" and r: "lua_return n args = Inr res"
    by (auto simp: call_builtin_def split: sum.splits prod.splits)
  have "n = (if b = B_sleep then 0 else 1)"
    using c by (cases b) (auto simp: with_string_arg_def split: option.splits if_splits)
  with r show ?thesis
    by (cases args rule: rev_cases) (auto simp: lua_return_def split: if_splits)
qed

text \<open>C37: \<open>avatar_sit\<close> and \<open>avatar_stand\<close> push nothing and return 1: called without
  arguments they return a result from an empty stack, and otherwise the caller receives its
  own last argument back.\<close>

theorem sit_stand_underflow:
  "call_builtin B_avatar_sit args w
     = (if args = [] then Inl StackUnderflow else Inr (emit SitDown w, [last args]))
   \<and> call_builtin B_avatar_stand args w
     = (if args = [] then Inl StackUnderflow else Inr (emit StandUp w, [last args]))"
  by (cases args rule: rev_cases) (simp_all add: call_builtin_def lua_return_def)

text \<open>C38: \<open>nearby_chat_send\<close> dereferences the nearby-chat floater without a check: with no
  such floater open, a call with a valid message is a null dereference.\<close>

theorem nearby_chat_null_floater:
  assumes "\<not> v_nearby_chat w" "lua_tostring (arg1 args) \<noteq> None"
  shows "call_builtin B_nearby_chat_send args w = Inl NullFloater"
  using assms by (auto simp: call_builtin_def with_string_arg_def)

text \<open>C39: every binding that reads a string argument builds a \<open>std::string\<close> from
  \<open>lua_tostring(L, 1)\<close> without a check: a missing argument or one that is neither a string
  nor a number is a \<open>NULL\<close> string.\<close>

theorem string_binding_null:
  assumes "string_binding b" "lua_tostring (arg1 args) = None"
  shows "call_builtin b args w = Inl NullString"
  using assms by (auto simp: string_binding_def call_builtin_def with_string_arg_def)

section \<open>Scenarios\<close>

lemma runScriptFile_trace_witness:
  "runScriptFile 1 ''sleep.lua'' True lua_demo_viewer
     = Some (Inr (lua_demo_viewer\<lparr>v_trace := [StateOpened, Suspend 2, StateClosed, Callback []]\<rparr>))
   \<and> (\<exists>evs m. [StateOpened, Suspend 2, StateClosed, Callback []]
         = v_trace lua_demo_viewer @ StateOpened # evs @ StateClosed # [Callback m]
       \<and> list_all script_event evs)"
proof -
  have r: "runScriptFile 1 ''sleep.lua'' True lua_demo_viewer
     = Some (Inr (lua_demo_viewer\<lparr>v_trace := [StateOpened, Suspend 2, StateClosed, Callback []]\<rparr>))"
    by (simp add: runScriptFile_def luaL_dofile_def run_chunk_def sleep_script_def lua_demo_viewer_def
        initLUA_def lua_register_def luaL_newstate_def lua_push_def stack_top_def finish_def emit_def
        checkLua_def call_builtin_def lua_return_def is_function_def Let_def)
  from runScriptFile_trace [OF r] r show ?thesis by simp
qed

lemma runScriptLine_error_message_witness:
  "runScriptLine 1 (\<lambda>_. Inr [SError 1 (LBool True)]) ''error(true)'' True lua_demo_viewer = Some (Inl NullString)"
proof -
  have "exec 1 ''error(true)'' [SError 1 (LBool True)] (initLUA luaL_newstate) (emit StateOpened lua_demo_viewer)
      = Some (Inr (Some (LBool True), initLUA luaL_newstate, emit StateOpened lua_demo_viewer))"
    by (simp add: numeral_eq_Suc error_value_def)
  from runScriptLine_error_message [of "\<lambda>_. Inr [SError 1 (LBool True)]", OF refl this] show ?thesis
    by simp
qed

lemma sleep_only_in_files_witness:
  "runScriptLine 1 (\<lambda>_. Inr sleep_script) ''sleep(2)'' True lua_demo_viewer
     = Some (Inr (lua_demo_viewer\<lparr>v_trace := [StateOpened, StateClosed,
         Callback (''[string '' @ [CHR 0x22] @ ''sleep(2)'' @ [CHR 0x22]
                   @ '']:1: attempt to call a nil value (global 'sleep')'')]\<rparr>))
   \<and> luaL_dofile 1 ''sleep.lua'' (lua_register ''sleep'' B_sleep (initLUA luaL_newstate)) lua_demo_viewer
     = Some (Inr (LUA_OK, lua_register ''sleep'' B_sleep (initLUA luaL_newstate),
         lua_demo_viewer\<lparr>v_trace := [Suspend 2]\<rparr>))"
proof -
  have a: "Inr sleep_script = Inr (SCall 1 ''sleep'' [LInt 2] # [])"
    and b: "v_files lua_demo_viewer ''sleep.lua'' = Some (Inr (SCall 1 ''sleep'' [LInt 2] # []))"
    by (simp_all add: sleep_script_def lua_demo_viewer_def)
  from sleep_only_in_files [where parse = "\<lambda>_. Inr sleep_script" and cmd = "''sleep(2)''",
      OF a b, where n = 0 and cb = True] show ?thesis
    by (simp add: nil_call_msg_def lua_where_def lua_chunkid_def LUA_IDSIZE_def finish_def emit_def
        run_chunk_def stack_top_def lua_demo_viewer_def Let_def char_of_eq_iff)
qed

lemma binding_results_witness:
  "call_builtin B_print_warning [LStr ''hi''] lua_demo_viewer
     = Inr (emit (Warn ''hi'') lua_demo_viewer, [LStr ''hi''])
   \<and> [LStr ''hi''] \<noteq> []"
proof -
  have c: "call_builtin B_print_warning [LStr ''hi''] lua_demo_viewer
     = Inr (emit (Warn ''hi'') lua_demo_viewer, [LStr ''hi''])"
    by (simp add: call_builtin_def with_string_arg_def arg1_def lua_return_def)
  from binding_results [OF c] c show ?thesis by simp
qed

lemma nearby_chat_null_floater_witness:
  "\<not> v_nearby_chat lua_demo_viewer \<and> call_builtin B_nearby_chat_send [LStr ''hi''] lua_demo_viewer = Inl NullFloater"
proof -
  have "\<not> v_nearby_chat lua_demo_viewer" "lua_tostring (arg1 [LStr ''hi'']) \<noteq> None"
    by (simp_all add: lua_demo_viewer_def arg1_def)
  from nearby_chat_null_floater [OF this] this(1) show ?thesis by simp
qed

lemma string_binding_null_witness:
  "string_binding B_wear_by_name \<and> call_builtin B_wear_by_name [LBool True] lua_demo_viewer = Inl NullString"
proof -
  have "string_binding B_wear_by_name" "lua_tostring (arg1 [LBool True]) = None"
    by (simp_all add: string_binding_def arg1_def)
  from string_binding_null [OF this] this(1) show ?thesis by simp
qed

end
