(* ===== verification/Spec2Isabelle.thy ===== *)
theory Spec2Isabelle
  imports IK_Prelude IK_Angles IK_Math IK_Config IK_Constraint IK_Joint IK_Solver IK_Chains IK_Rebuild IK_Solve IK_Fabrik IK_Enforce Lua_Manager
begin

text \<open>
  \<^bold>\<open>A verification development of the LLIK inverse-kinematics solver.\<close>

  \<^bold>\<open>The program.\<close> \<open>src/unnamed/part_000\<close> is \<open>llik.h\<close> and \<open>src/unnamed/part_001\<close>
  is \<open>llik.cpp\<close>. Together they are the solver \<open>LLIK::Solver\<close>, a skeleton of
  \<open>LLIK::Joint\<close>s keyed by joint id. Each joint may carry a shared \<open>LLIK::Constraint\<close>
  built by \<open>LLIKConstraintFactory\<close>. A caller submits one \<open>Joint::Config\<close> per joint it
  overrides or targets. \<open>solve\<close> then rebuilds the chains from each effector toward the
  root (\<open>rebuildAllChains\<close>, \<open>buildChain\<close>) and relaxes the active roots toward the rest
  pose (\<open>relaxRotationsRecursively\<close>). It repeats FABRIK passes until the largest
  end-effector error (\<open>measureMaxError\<close>) is within tolerance or the iteration bound is
  reached. \<open>src/indra/newview/llluamanager.cpp\<close> is the viewer's Lua script runner:
  the C functions a script may call, and the two coroutines that run a file or a line. It
  does not call the solver.

  \<^bold>\<open>Theories.\<close> Each theory corresponds to one part of the program:
  \<^item> \<open>IK_Prelude\<close>: the container model. A \<open>std::map\<close> is a strictly ascending
    association list (\<open>omap\<close>, with \<open>omap_update\<close>, \<open>omap_delete\<close> and \<open>omap_modify\<close>).
    A \<open>std::set\<close> is a strictly ascending list (\<open>oset\<close>). The flag byte \<open>U8\<close> is
    \<open>8 word\<close>. The theory also holds the shared list and map lemmas (\<open>omap_simps\<close>).
  \<^item> \<open>IK_Math\<close>: \<open>LLVector3\<close> and \<open>LLQuaternion\<close> over the reals (products,
    \<open>shortestArc\<close>, angle-axis conversion, \<open>normalize\<close> with its threshold). They are
    modelled from the specification, since \<open>llmath\<close> is not under \<open>src/\<close>. The theory
    proves that \<open>shortestArc(a, b)\<close> turns a unit \<open>a\<close> onto a unit \<open>b\<close> when they are not
    parallel, and the geometry of the projection onto a cone.
  \<^item> \<open>IK_Angles\<close>: \<open>remove_multiples_of_two_pi\<close>, \<open>compute_angle_limits\<close> and
    \<open>compute_clamped_angle\<close> (\<open>llik.cpp\<close>, lines 131--200).
  \<^item> \<open>IK_Config\<close>: the flag constants and \<open>Joint::Config\<close>, with its setters and
    \<open>updateFrom\<close>.
  \<^item> \<open>IK_Constraint\<close>: the constraint records, their LLSD constructors and the type
    names. It also holds the factory (\<open>create\<close>, \<open>getConstraint\<close>,
    \<open>processConstraintMappings\<close>, \<open>getConstraintByName\<close>), whose cache is an ordered
    map from hash to constraint.
  \<^item> \<open>IK_Joint\<close>: the joint record, construction from its \<open>LLJoint\<close> info, the flag
    operations and the local setters.
  \<^item> \<open>IK_Solver\<close>: the solver record, \<open>addJoint\<close>, the whitelists and \<open>buildChain\<close>.
    The \<open>buildChain\<close> loop is a \<open>function\<close> whose termination measure is the chain
    limit.
  \<^item> \<open>IK_Chains\<close>: every stage of \<open>rebuildAllChains\<close>, in the order of the code.
  \<^item> \<open>IK_Rebuild\<close>: the properties of the rebuild. It defines the reachable solvers
    (\<open>built\<close>, an inductive closure of the API operations), the well-formed skeletons
    (\<open>skel_wf\<close>) and the depth of a joint (\<open>joint_depth\<close>).
  \<^item> \<open>IK_Solve\<close>: \<open>updateJointConfigs\<close>, \<open>measureMaxError\<close>, \<open>relaxRot\<close> and
    \<open>relaxRotationsRecursively\<close>, \<open>solveOnce\<close>, and the iteration loop of \<open>solve\<close>,
    which takes the pass as a parameter \<open>pass\<close>.
  \<^item> \<open>IK_Fabrik\<close>: the FABRIK pass (\<open>executeFabrikPass\<close>, \<open>executeFabrikInward\<close>,
    \<open>executeFabrikOutward\<close>) and the joint updates it calls (\<open>updateLocalRot\<close>,
    \<open>applyLocalRot\<close>, \<open>updateEndInward\<close>, \<open>updateInward\<close>, \<open>updateOutward\<close>,
    \<open>updateEndOutward\<close>, \<open>updateChildLocalRots\<close>, \<open>enforceConstraint\<close>). The virtual
    \<open>Constraint::enforce\<close> is a parameter \<open>enf\<close> here, and the base-class version is
    \<open>default_enforce\<close>.
  \<^item> \<open>IK_Enforce\<close>: every constraint's \<open>computeAdjustedLocalRot\<close>, the \<open>enforce\<close>
    overrides of \<open>ElbowConstraint\<close> and \<open>KneeConstraint\<close>, and the dispatch
    \<open>constraint_enforce\<close>. With it the solver's own pass (\<open>fabrikPass\<close>, the
    \<open>executeFabrikPass(true)\<close> of \<open>solveOnce\<close>) and \<open>solver_solve\<close> are closed
    definitions.
  \<^item> \<open>Lua_Manager\<close>: the bindings of \<open>llluamanager.cpp\<close> (\<open>call_binding\<close>),
    \<open>checkLua\<close>, \<open>initLUA\<close>, and the bodies of \<open>runScriptFile\<close> and
    \<open>runScriptLine\<close>. The part of the Lua library the file uses is modelled from the Lua
    5.4 manual and sources, among them the message positions of \<open>luaO_chunkid\<close>. A script is a
    fragment of Lua: global assignments, calls with literal arguments, and \<open>error\<close>, each
    with its source line. The effects on the viewer are events appended to a trace.

  \<^bold>\<open>How state and effects are modelled.\<close>
  \<^item> A C++ object reached through a shared pointer is a record stored in the solver's
    skeleton map. A pointer is the key of that record, and a mutation through the
    pointer is \<open>sk_modify\<close>.
  \<^item> Every dereference of a possibly-null pointer is a branch of the model. Null is the
    error value \<open>Inl (NullDeref k)\<close> of a sum type.
  \<^item> \<open>F32\<close> is \<open>real\<close>. Flags are \<open>8 word\<close> and are tested as the code tests them:
    \<open>(flags AND bit) > 0\<close>.
  \<^item> Loops over containers are structural recursion.

  \<^bold>\<open>Fuel and bounds.\<close> The code has two loops whose number of rounds is not bounded by
  a container. The model gives each of them fuel:
  \<^item> The sub-base worklist of \<open>rebuildAllChains\<close> (\<open>while (!sub_bases.empty())\<close>) gets
    fuel \<open>length skeleton + 1\<close>.
  \<^item> The recursion of \<open>relaxRotationsRecursively\<close> over child pointers gets the same
    fuel.
  A Lua function called by a script also runs its body with one unit of fuel less.
  In all three, running out of fuel is \<open>None\<close>. The first two fuels are shown sufficient, not assumed:
  \<^item> A sub-base queued by \<open>buildChain k\<close> is a strict ancestor of \<open>k\<close>. So the
    deepest joint of each generation of the worklist is shallower than the one before,
    and no depth reaches the number of joints (\<open>rebuildAllChains_returns\<close>).
  \<^item> A child is one level deeper than its parent whenever child and parent pointers
    agree (\<open>links_ok\<close>), so the relaxation recursion descends at most as many levels
    as there are joints (\<open>solve_returns\<close>).
  \<^item> The iteration loop of \<open>solve\<close> is bounded by \<open>MAX_SOLVER_ITERATIONS\<close>. It is a
    terminating \<open>function\<close> with measure \<open>16 - loop\<close>.

  \<^bold>\<open>What is proved.\<close> The claims are the theorems preceded by a text naming a claim id.
  \<^item> Chain building: \<open>buildChain\<close> walks parent pointers from the effector, respects the
    chain limit and activates exactly its chain. On a well-formed skeleton
    \<open>rebuildAllChains\<close> always returns, and a pass on the rebuilt solver is the update
    schedule the specification lists. \<open>getSingleActiveChild\<close> equals a filter-based
    reference.
  \<^item> Reachable states: every solver the API builds has a well-formed skeleton
    (\<open>built_skel_wf\<close>), and its child and parent pointers agree (\<open>built_links_ok\<close>).
    Both are proved by rule induction over \<open>built\<close>.
  \<^item> Angles: the range reduction, the range of the limits and of the clamp, and the
    nearest-limit rule.
  \<^item> Configs: \<open>updateFrom\<close> on each kind of field.
  \<^item> Factory: \<open>create\<close> on every type name (a round trip, and the null pointer exactly
    for the other names), the pitch limits of the hinge, and the sharing of constraints by
    hash.
  \<^item> FABRIK and enforcement: a pass writes only joint positions and rotations, for every
    enforcement that does and for the solver's own; \<open>updateLocalRot\<close> and
    \<open>applyLocalRot\<close> are inverse; \<open>SimpleCone\<close> moves the forward axis onto its cone.
  \<^item> Solve: \<open>updateJointConfigs\<close> on an unchanged map, and what a "no change" answer
    guarantees. \<open>measureMaxError\<close> equals a reference maximum. The loop runs between 4
    and 16 passes, it returns on every well-formed solver, and the error stored in
    \<open>mLastError\<close> is the measure of the final pose.
  \<^item> Lua manager: a file script's trace is opening, its own effects, closing, then the
    callback. The message a line script's error hands to the callback is shown, and so is
    the availability of \<open>sleep\<close>. The bindings' result counts are shown, and so are the
    null strings and the null floater they can produce.
  \<^item> Divergences from the specification and the comments are stated for all inputs
    where the code allows it: the change test ignores the scale and the chain limit
    (\<open>updateJointConfigs_ignores_scale\<close>), the clamp returns the bisector unclamped
    (\<open>compute_clamped_angle_at_bisector\<close>), a lower limit below \<open>-pi\<close> is kept
    (\<open>compute_angle_limits_below_minus_pi\<close>), and the limb overrides never read the bend
    limits (\<open>limb_enforce_ignores_bend\<close>).

  \<^bold>\<open>Numerics.\<close> The vector algebra is exact real arithmetic. \<open>normalize\<close> keeps the
  code's threshold: a vector shorter than \<open>FP_MAG_THRESHOLD\<close> becomes zero, which the
  cone lemma excludes by its hypothesis. One case departs from the code: with no targets,
  \<open>updateEndInward\<close> averages over zero targets, which in \<open>F32\<close> is \<open>0/0 = NaN\<close>,
  while the model's \<open>1/0\<close> is 0 and gives the zero vector (\<open>end_inward_targets\<close>). No
  claim depends on this case, and the development does not show whether a pass reaches it.

  \<^bold>\<open>Not modelled.\<close>
  \<^item> The CCD pass (\<open>executeCcdPass\<close>, compiled out of \<open>solveOnce\<close>), the disabled
    \<open>ShoulderConstraint\<close> adjustment and \<open>dropElbow\<close>.
  \<^item> \<open>Solver::resetSkeleton\<close>, \<open>Joint::resetRecursively\<close> and
    \<open>resetJointGeometry\<close>, which restore the rest pose from the \<open>LLJoint\<close> info, and
    \<open>setAcceptableError\<close>, a setter. The reset pose is a field of the joint record.
  \<^item> \<open>F32\<close> rounding, and the \<open>S16\<close> width of joint ids: ids are only compared,
    never computed, so they are unbounded integers.
  \<^item> LLSD parsing and file reading (\<open>initSingleton\<close>), and \<open>generateHash\<close>, which is a
    parameter of the factory.
  \<^item> The debug dumps under \<open>DEBUG_LLIK_UNIT_TESTS\<close>.
  \<^item> The Lua interpreter behind \<open>llluamanager.cpp\<close> beyond the fragment above: the
    parser (a parameter), the standard libraries, \<open>strerror\<close> in the message of a file
    that cannot be opened, and the coroutine scheduler of \<open>LLCoros::launch\<close>. The body of
    each coroutine runs to its end.
\<close>

text \<open>C5: after a rebuild every chain is non-empty and starts at its key, so a FABRIK pass on
  the rebuilt solver is exactly the schedule of joint updates the specification lists:
  per chain in descending key order the inward updates, then the active roots' children,
  then per chain in ascending key order the outward updates.\<close>

theorem rebuild_fabrik_schedule:
  assumes "rebuildAllChains s = Some (Inr s')"
  shows "executeFabrikPass enf e s' = run_ops enf e (fabrik_schedule (s_chains s') (s_active_roots s')) s'"
proof -
  have "\<forall>(k, c) \<in> set (s_chains s'). c \<noteq> []"
    using rebuildAllChains_chains_ok [OF assms] by (auto simp: chains_ok_def)
  then show ?thesis by (rule executeFabrikPass_schedule)
qed

lemma rebuild_fabrik_schedule_witness:
  "\<exists>s'. rebuildAllChains demo_scene = Some (Inr s')
     \<and> executeFabrikPass (default_enforce (\<lambda>c q. q)) True s'
         = run_ops (default_enforce (\<lambda>c q. q)) True (fabrik_schedule (s_chains s') (s_active_roots s')) s'
     \<and> fabrik_schedule (s_chains s') (s_active_roots s')
         = [OpEndInward 4, OpEndInward 3, OpEndInward 2, OpInward 1 2, OpChildLocalRots 0,
            OpOutward 1, OpEndOutward 2, OpEndOutward 3, OpEndOutward 4]"
proof -
  from demo_scene_rebuild obtain r where r0: "rebuildAllChains demo_scene = Some r"
    and rv: "case_sum Inl (\<lambda>s. Inr (s_chains s, s_active_roots s)) r
               = (Inr ([(2, [2, 1, 0]), (3, [3, 2]), (4, [4, 2])], [0]) :: ik_error + _)"
    by auto
  then obtain s' where r: "rebuildAllChains demo_scene = Some (Inr s')"
    and c: "s_chains s' = [(2, [2, 1, 0]), (3, [3, 2]), (4, [4, 2])]" "s_active_roots s' = [0]"
    by (cases r) auto
  show ?thesis
    using r rebuild_fabrik_schedule [OF r]
    by (auto simp: c fabrik_schedule_def inward_ops_def outward_ops_def)
qed




end
